theory Spec2Isabelle
  imports Main "HOL-Library.AList"
begin

section \<open>Data model of server/server.js\<close>

text \<open>
  The server keeps two JavaScript \<^verbatim>\<open>Map\<close>s, \<^verbatim>\<open>rooms\<close> (room code to room object) and
  \<^verbatim>\<open>players\<close> (socket id to the pair of player id and room code), and every room object
  keeps a \<^verbatim>\<open>Map\<close> of its players. A JavaScript \<^verbatim>\<open>Map\<close> iterates in insertion order,
  \<^verbatim>\<open>set\<close> on a key already present replaces the value where it stands and \<^verbatim>\<open>set\<close> on a new
  key appends: this is an association list with \<open>AList.update\<close>, \<open>AList.delete\<close> and
  \<open>map_of\<close>.

  Names follow the source. Where a field name of the source would clash (\<^verbatim>\<open>id\<close>, \<^verbatim>\<open>x\<close>,
  \<^verbatim>\<open>y\<close>, and \<^verbatim>\<open>active\<close> which both the sword and the shield carry) the field is called
  \<open>ident\<close>, \<open>posX\<close>, \<open>posY\<close>, \<open>shieldActive\<close>, \<open>swordActive\<close>. The global connection map
  \<^verbatim>\<open>players\<close> is the field \<open>bindings\<close> of the state, since \<open>players\<close> is the field of a room.
  Numbers of the payloads are integers here, and an integer stands for the JavaScript
  number (a double) of that value; a field that the source leaves \<^verbatim>\<open>undefined\<close> is \<open>None\<close>.
\<close>

record shieldState =
  shieldActive :: bool
  shieldAngle :: "int option"

record swordState =
  swordActive :: bool
  isSwinging :: bool
  swingAngle :: "int option"

record hitbox =
  visible :: bool
  hitX :: int
  hitY :: int
  hitAngle :: int

record player =
  ident :: string
  name :: string
  socketId :: string
  posX :: int
  posY :: int
  velocityX :: "int option"
  velocityY :: "int option"
  health :: int
  isDead :: bool
  shield :: "shieldState option"
  sword :: "swordState option"
  swordHitbox :: "hitbox option"

record room =
  code :: string
  players :: "(string \<times> player) list"
  gameStarted :: bool
  countdown :: int
  gameLoop :: "nat option"

record binding =
  playerId :: string
  roomCode :: string

text \<open>The public view of one player that \<^verbatim>\<open>getPlayersState\<close> builds.\<close>

record snapshot =
  snapName :: string
  snapX :: int
  snapY :: int
  snapVelocityX :: "int option"
  snapVelocityY :: "int option"
  snapHealth :: int
  snapIsDead :: bool
  snapShield :: shieldState
  snapSword :: swordState
  snapSwordHitbox :: hitbox

text \<open>
  What a handler does to the outside: \<^verbatim>\<open>socket.join(code)\<close>, and the three ways of
  emitting: \<^verbatim>\<open>socket.emit\<close> (to the connection itself), \<^verbatim>\<open>io.to(code).emit\<close> (to every
  connection of the broadcast group named by the code) and \<^verbatim>\<open>socket.to(code).emit\<close> (to
  that group without the sender). Console logging is not part of the model.
\<close>

datatype audience =
    ToSocket string
  | ToRoom string
  | ToOthers string string

datatype event =
    RoomCreated string string
  | RoomJoined string string
  | RoomNotFound
  | RoomFull
  | ErrorEvent string
  | GameState "(string \<times> snapshot) list" bool int
  | PlayerUpdateEvent string int int
  | SwordSwingEvent string "hitbox option"
  | SwordReleaseEvent string
  | PlayerHitEvent string string int
  | GameOver string string
  | PlayerRespawnEvent string
  | PlayerDisconnected string string
  | Countdown int

datatype effect =
    Join string string
  | Emit audience event

text \<open>
  Room objects are shared: the registry \<^verbatim>\<open>rooms\<close> refers to them, and so does the closure
  of the countdown interval that \<^verbatim>\<open>startGame\<close> installs, which goes on running on its room
  object when the registry has dropped or replaced the entry. So room objects live in a
  store \<open>heap\<close>, the registry holds addresses, and a running interval is an entry of
  \<open>timers\<close>: its handle, the address of its room and the value of its closure variable
  \<^verbatim>\<open>countdown\<close>.
\<close>

record state =
  heap :: "nat \<Rightarrow> room option"
  nextAddr :: nat
  rooms :: "(string \<times> nat) list"
  bindings :: "(string \<times> binding) list"
  timers :: "(nat \<times> nat \<times> int) list"
  nextTimer :: nat

definition emptyState :: state where
  "emptyState = \<lparr>heap = Map.empty, nextAddr = 0, rooms = [], bindings = [], timers = [],
     nextTimer = 0\<rparr>"

text \<open>
  \<^verbatim>\<open>rooms.get(code)\<close>: the address and the room object, or nothing. (An address of the
  registry always has its object in JavaScript; the lookup is total here and gives
  nothing for an address without one.)
\<close>

definition lookupRoom :: "state \<Rightarrow> string \<Rightarrow> (nat \<times> room) option" where
  "lookupRoom st rc =
     (case map_of (rooms st) rc of
        None \<Rightarrow> None
      | Some a \<Rightarrow> (case heap st a of None \<Rightarrow> None | Some r \<Rightarrow> Some (a, r)))"

text \<open>The player object literal that all four joining paths insert.\<close>

definition newPlayer :: "string \<Rightarrow> string \<Rightarrow> string \<Rightarrow> player" where
  "newPlayer pid pname sid =
     \<lparr>ident = pid, name = pname, socketId = sid, posX = 0, posY = 0,
      velocityX = None, velocityY = None, health = 100, isDead = False,
      shield = None, sword = None, swordHitbox = None\<rparr>"

section \<open>Snapshots and broadcast\<close>

definition playerView :: "player \<Rightarrow> snapshot" where
  "playerView p =
     \<lparr>snapName = name p, snapX = posX p, snapY = posY p,
      snapVelocityX = velocityX p, snapVelocityY = velocityY p,
      snapHealth = health p, snapIsDead = isDead p,
      snapShield = (case shield p of
                      Some s \<Rightarrow> s
                    | None \<Rightarrow> \<lparr>shieldActive = True, shieldAngle = Some 0\<rparr>),
      snapSword = (case sword p of
                     Some s \<Rightarrow> s
                   | None \<Rightarrow> \<lparr>swordActive = False, isSwinging = False, swingAngle = Some 0\<rparr>),
      snapSwordHitbox = (case swordHitbox p of
                           Some h \<Rightarrow> h
                         | None \<Rightarrow> \<lparr>visible = False, hitX = 0, hitY = 0, hitAngle = 0\<rparr>)\<rparr>"

text \<open>
  \<^verbatim>\<open>getPlayersState\<close> (lines 389 to 405) fills a plain object, \<^verbatim>\<open>state[id] = ...\<close>, in the
  order of the player map. The object is the list of its own properties in the order of
  their creation. The assignment \<open>assign\<close> to a key replaces the value of a property that
  exists and appends a new property otherwise, except for the key \<^verbatim>\<open>__proto__\<close>: that
  assignment sets the prototype and adds no property, so a player under that id is not in
  the payload. What the payload holds are the own properties in their enumeration order
  (\<open>ownProperties\<close>): keys that are array indices (canonical decimal numbers up to
  \<open>2\<^sup>3\<^sup>2 - 2\<close>) come first, in ascending numeric order, and the other keys follow in the
  order of their creation.
\<close>

definition isDigit :: "char \<Rightarrow> bool" where
  "isDigit c = (48 \<le> (of_char c :: int) \<and> (of_char c :: int) \<le> 57)"

definition indexValue :: "string \<Rightarrow> int" where
  "indexValue s = foldl (\<lambda>n c. 10 * n + (of_char c - 48)) 0 s"

definition isArrayIndex :: "string \<Rightarrow> bool" where
  "isArrayIndex s =
     (case s of
        [] \<Rightarrow> False
      | c # cs \<Rightarrow>
          list_all isDigit s \<and> (if c = CHR ''0'' then cs = [] else True)
          \<and> indexValue s \<le> 4294967294)"

definition assign :: "string \<Rightarrow> 'v \<Rightarrow> (string \<times> 'v) list \<Rightarrow> (string \<times> 'v) list" where
  "assign k v obj = (if k = ''__proto__'' then obj else AList.update k v obj)"

definition ownProperties :: "(string \<times> 'v) list \<Rightarrow> (string \<times> 'v) list" where
  "ownProperties obj =
     sort_key (\<lambda>(k, v). indexValue k) (filter (\<lambda>(k, v). isArrayIndex k) obj)
     @ filter (\<lambda>(k, v). \<not> isArrayIndex k) obj"

definition getPlayersState :: "room \<Rightarrow> (string \<times> snapshot) list" where
  "getPlayersState r =
     ownProperties (foldl (\<lambda>obj (k, p). assign k (playerView p) obj) [] (players r))"

definition gameStateOf :: "room \<Rightarrow> event" where
  "gameStateOf r = GameState (getPlayersState r) (gameStarted r) (countdown r)"

definition broadcastGameState :: "room \<Rightarrow> effect" where
  "broadcastGameState r = Emit (ToRoom (code r)) (gameStateOf r)"

section \<open>Creating and joining rooms\<close>

text \<open>
  \<^verbatim>\<open>generateRoomCode()\<close> and \<^verbatim>\<open>generatePlayerId()\<close> draw on \<^verbatim>\<open>Math.random\<close> and the clock:
  what they return is an argument of the handler (\<open>newCode\<close>, \<open>newId\<close>). Every handler
  takes the state and returns the new state with what it emitted, in order; \<open>sid\<close> is
  \<^verbatim>\<open>socket.id\<close> of the connection the handler belongs to. Payloads are taken as
  well-formed: every field the handler reads is there and has its type.

  The \<^verbatim>\<open>createRoom\<close> handler (lines 43 to 80).
\<close>

definition createRoom :: "string \<Rightarrow> string \<Rightarrow> string \<Rightarrow> string \<Rightarrow> state \<Rightarrow> state \<times> effect list" where
  "createRoom sid pname newCode newId st =
     (let r = \<lparr>code = newCode,
                players = AList.update newId (newPlayer newId pname sid) [],
                gameStarted = False, countdown = 3, gameLoop = None\<rparr>;
          a = nextAddr st
      in (st\<lparr>heap := (heap st)(a \<mapsto> r), nextAddr := Suc a,
              rooms := AList.update newCode a (rooms st),
              bindings := AList.update sid \<lparr>playerId = newId, roomCode = newCode\<rparr> (bindings st)\<rparr>,
          [Join sid newCode, Emit (ToSocket sid) (RoomCreated newCode newId)]))"

text \<open>The function \<^verbatim>\<open>joinRoom\<close> (lines 352 to 387), which is also the \<^verbatim>\<open>joinRoom\<close> handler.\<close>

definition joinRoom :: "string \<Rightarrow> string \<Rightarrow> string \<Rightarrow> string \<Rightarrow> state \<Rightarrow> state \<times> effect list" where
  "joinRoom sid pname rc newId st =
     (case lookupRoom st rc of
        None \<Rightarrow> (st, [Emit (ToSocket sid) RoomNotFound])
      | Some (a, r) \<Rightarrow>
          if length (players r) \<ge> 2 then (st, [Emit (ToSocket sid) RoomFull])
          else
            (st\<lparr>heap := (heap st)(a \<mapsto>
                    r\<lparr>players := AList.update newId (newPlayer newId pname sid) (players r)\<rparr>),
                 bindings := AList.update sid \<lparr>playerId = newId, roomCode = rc\<rparr> (bindings st)\<rparr>,
             [Join sid rc, Emit (ToSocket sid) (RoomJoined rc newId)]))"

text \<open>
  The \<^verbatim>\<open>joinRandomRoom\<close> handler (lines 82 to 120). Its scan finds the first room, in the
  order of the registry, with one player and no game started; without one it creates a
  room as \<^verbatim>\<open>createRoom\<close> does and answers \<^verbatim>\<open>roomJoined\<close>.
\<close>

fun findOpenRoom :: "(nat \<Rightarrow> room option) \<Rightarrow> (string \<times> nat) list \<Rightarrow> string option" where
  "findOpenRoom h [] = None"
| "findOpenRoom h ((rc, a) # rest) =
     (case h a of
        None \<Rightarrow> findOpenRoom h rest
      | Some r \<Rightarrow>
          if length (players r) = 1 \<and> \<not> gameStarted r then Some rc
          else findOpenRoom h rest)"

definition joinRandomRoom :: "string \<Rightarrow> string \<Rightarrow> string \<Rightarrow> string \<Rightarrow> state \<Rightarrow> state \<times> effect list" where
  "joinRandomRoom sid pname newCode newId st =
     (case findOpenRoom (heap st) (rooms st) of
        Some rc \<Rightarrow> joinRoom sid pname rc newId st
      | None \<Rightarrow>
          (let r = \<lparr>code = newCode,
                     players = AList.update newId (newPlayer newId pname sid) [],
                     gameStarted = False, countdown = 3, gameLoop = None\<rparr>;
               a = nextAddr st
           in (st\<lparr>heap := (heap st)(a \<mapsto> r), nextAddr := Suc a,
                   rooms := AList.update newCode a (rooms st),
                   bindings := AList.update sid \<lparr>playerId = newId, roomCode = newCode\<rparr> (bindings st)\<rparr>,
               [Join sid newCode, Emit (ToSocket sid) (RoomJoined newCode newId)])))"

section \<open>The start sequence\<close>

text \<open>
  \<^verbatim>\<open>startGame(room)\<close> (lines 416 to 438) sets the flag and installs the interval; the
  closure variable \<^verbatim>\<open>countdown\<close> starts at 3. The room object is the one at address \<open>a\<close>.
\<close>

definition startGame :: "nat \<Rightarrow> room \<Rightarrow> state \<Rightarrow> state" where
  "startGame a r st =
     st\<lparr>heap := (heap st)(a \<mapsto> r\<lparr>gameStarted := True\<rparr>),
        timers := AList.update (nextTimer st) (a, 3) (timers st),
        nextTimer := Suc (nextTimer st)\<rparr>"

text \<open>The loop over \<^verbatim>\<open>room.players.values()\<close> with its counter \<^verbatim>\<open>i\<close>.\<close>

fun placePlayers :: "nat \<Rightarrow> (string \<times> player) list \<Rightarrow> (string \<times> player) list" where
  "placePlayers i [] = []"
| "placePlayers i ((k, p) # ps) =
     (k, p\<lparr>posX := (if i = 0 then 250 else 750), posY := 300\<rparr>) # placePlayers (Suc i) ps"

text \<open>
  One firing of the interval with handle \<open>t\<close>. A cleared interval never fires:
  \<^verbatim>\<open>clearInterval\<close> removes the entry, and a handle without entry does nothing.
  (After \<^verbatim>\<open>clearInterval\<close> the source still decrements the closure variable, which nothing
  reads any more.)
\<close>

definition countdownTick :: "nat \<Rightarrow> state \<Rightarrow> state \<times> effect list" where
  "countdownTick t st =
     (case map_of (timers st) t of
        None \<Rightarrow> (st, [])
      | Some (a, c) \<Rightarrow>
          (case heap st a of
             None \<Rightarrow> (st, [])
           | Some r \<Rightarrow>
               if c = 0 then
                 (let r' = r\<lparr>players := placePlayers 0 (players r)\<rparr>
                  in (st\<lparr>heap := (heap st)(a \<mapsto> r'), timers := AList.delete t (timers st)\<rparr>,
                      [Emit (ToRoom (code r)) (Countdown c), broadcastGameState r']))
               else
                 (st\<lparr>timers := AList.update t (a, c - 1) (timers st)\<rparr>,
                  [Emit (ToRoom (code r)) (Countdown c)])))"

text \<open>
  The \<^verbatim>\<open>joinGame\<close> handler (lines 126 to 160): the state is broadcast before the start
  check, so that broadcast still shows \<open>gameStarted\<close> false.
\<close>

definition joinGame :: "string \<Rightarrow> string \<Rightarrow> string \<Rightarrow> string \<Rightarrow> state \<Rightarrow> state \<times> effect list" where
  "joinGame sid rc pid pname st =
     (case lookupRoom st rc of
        None \<Rightarrow> (st, [Emit (ToSocket sid) (ErrorEvent ''Room not found'')])
      | Some (a, r) \<Rightarrow>
          (let r1 = (if map_of (players r) pid = None
                     then r\<lparr>players := AList.update pid (newPlayer pid pname sid) (players r)\<rparr>
                     else r);
               st1 = st\<lparr>heap := (heap st)(a \<mapsto> r1),
                        bindings := AList.update sid \<lparr>playerId = pid, roomCode = rc\<rparr> (bindings st)\<rparr>;
               out = [Join sid rc, broadcastGameState r1]
           in if length (players r1) = 2 \<and> \<not> gameStarted r1
              then (startGame a r1 st1, out)
              else (st1, out)))"

section \<open>In-game messages\<close>

text \<open>
  The handlers \<^verbatim>\<open>playerState\<close> (lines 162 to 184), \<^verbatim>\<open>playerUpdate\<close> (186 to 193),
  \<^verbatim>\<open>swordSwing\<close> (195 to 215) and \<^verbatim>\<open>swordRelease\<close> (217 to 231). A handler that assigns to
  the fields of a player object of the room stores the changed player under its key.
\<close>

definition playerState ::
  "string \<Rightarrow> string \<Rightarrow> string \<Rightarrow> int \<Rightarrow> int \<Rightarrow> int \<Rightarrow> int \<Rightarrow> int \<Rightarrow> bool \<Rightarrow> shieldState option
     \<Rightarrow> state \<Rightarrow> state \<times> effect list" where
  "playerState sid rc pid x y vx vy h d sh st =
     (case lookupRoom st rc of
        None \<Rightarrow> (st, [])
      | Some (a, r) \<Rightarrow>
          (case map_of (players r) pid of
             None \<Rightarrow> (st, [])
           | Some p \<Rightarrow>
               (let p' = p\<lparr>posX := x, posY := y, velocityX := Some vx, velocityY := Some vy,
                           health := h, isDead := d, shield := sh\<rparr>;
                    r' = r\<lparr>players := AList.update pid p' (players r)\<rparr>
                in (st\<lparr>heap := (heap st)(a \<mapsto> r')\<rparr>,
                    [Emit (ToOthers sid rc) (gameStateOf r')]))))"

definition playerUpdate :: "string \<Rightarrow> string \<Rightarrow> string \<Rightarrow> int \<Rightarrow> int \<Rightarrow> state \<Rightarrow> state \<times> effect list" where
  "playerUpdate sid rc pid mouseX mouseY st =
     (st, [Emit (ToOthers sid rc) (PlayerUpdateEvent pid mouseX mouseY)])"

definition swordSwing :: "string \<Rightarrow> string \<Rightarrow> string \<Rightarrow> hitbox option \<Rightarrow> state \<Rightarrow> state \<times> effect list" where
  "swordSwing sid rc pid hb st =
     (case lookupRoom st rc of
        None \<Rightarrow> (st, [])
      | Some (a, r) \<Rightarrow>
          (case map_of (players r) pid of
             None \<Rightarrow> (st, [])
           | Some p \<Rightarrow>
               (let p' = p\<lparr>sword := Some \<lparr>swordActive = True, isSwinging = True, swingAngle = Some 0\<rparr>,
                           swordHitbox := hb,
                           shield := Some \<lparr>shieldActive = False, shieldAngle = None\<rparr>\<rparr>
                in (st\<lparr>heap := (heap st)(a \<mapsto> r\<lparr>players := AList.update pid p' (players r)\<rparr>)\<rparr>,
                    [Emit (ToOthers sid rc) (SwordSwingEvent pid hb)]))))"

definition swordRelease :: "string \<Rightarrow> string \<Rightarrow> string \<Rightarrow> state \<Rightarrow> state \<times> effect list" where
  "swordRelease sid rc pid st =
     (case lookupRoom st rc of
        None \<Rightarrow> (st, [])
      | Some (a, r) \<Rightarrow>
          (case map_of (players r) pid of
             None \<Rightarrow> (st, [])
           | Some p \<Rightarrow>
               (let p' = p\<lparr>sword := Some \<lparr>swordActive = False, isSwinging = False, swingAngle = None\<rparr>,
                           shield := Some \<lparr>shieldActive = True, shieldAngle = None\<rparr>\<rparr>
                in (st\<lparr>heap := (heap st)(a \<mapsto> r\<lparr>players := AList.update pid p' (players r)\<rparr>)\<rparr>,
                    [Emit (ToOthers sid rc) (SwordReleaseEvent pid)]))))"

section \<open>Combat\<close>

text \<open>
  \<^verbatim>\<open>targetPlayer.health - 15\<close> is a subtraction of doubles: the exact difference, rounded to
  the nearest double, ties to the even one. Integers below \<open>2\<^sup>5\<^sup>3\<close> in absolute value are
  doubles and their differences in that range are exact; from there on doubles are
  \<open>spacing\<close> apart (2 up to \<open>2\<^sup>5\<^sup>4\<close>, 4 up to \<open>2\<^sup>5\<^sup>5\<close>, and so on). \<^verbatim>\<open>Math.max\<close> and the
  comparison with 0 are exact. \<open>toDouble\<close> rounds an integer to the nearest double, so
  \<open>jsMinus a b\<close> is the result of \<^verbatim>\<open>a - b\<close> for doubles \<open>a\<close> and \<open>b\<close> of integer value.
\<close>

function spacing :: "int \<Rightarrow> int" where
  "spacing n = (if n < 9007199254740992 then 1 else 2 * spacing (n div 2))"
  by pat_completeness auto
termination
  by (relation "measure nat") auto

declare spacing.simps [simp del]

definition toDouble :: "int \<Rightarrow> int" where
  "toDouble x =
     (let u = spacing \<bar>x\<bar>; q = x div u; r = x mod u
      in if 2 * r < u then q * u
         else if u < 2 * r then (q + 1) * u
         else if even q then q * u else (q + 1) * u)"

definition jsMinus :: "int \<Rightarrow> int \<Rightarrow> int" where
  "jsMinus a b = toDouble (a - b)"

text \<open>
  The survivor loop, written twice in the source (in the \<^verbatim>\<open>playerHit\<close> and \<^verbatim>\<open>playerDied\<close>
  handlers) with the same text: it counts the players whose flag \<^verbatim>\<open>isDead\<close> is false and
  keeps the last of them.
\<close>

fun survivors :: "player list \<Rightarrow> nat \<times> player option \<Rightarrow> nat \<times> player option" where
  "survivors [] acc = acc"
| "survivors (p # ps) (alivePlayers, lastAlivePlayer) =
     (if \<not> isDead p then survivors ps (alivePlayers + 1, Some p)
      else survivors ps (alivePlayers, lastAlivePlayer))"

text \<open>
  The game-over check after the loop: the event, and \<^verbatim>\<open>room.gameStarted = false\<close>. The
  winner is the field \<^verbatim>\<open>id\<close> of the last living player; \<open>loser\<close> is \<^verbatim>\<open>data.targetId\<close> in
  \<^verbatim>\<open>playerHit\<close> and \<^verbatim>\<open>data.playerId\<close> in \<^verbatim>\<open>playerDied\<close>.
\<close>

definition checkGameOver :: "string \<Rightarrow> string \<Rightarrow> room \<Rightarrow> room \<times> effect list" where
  "checkGameOver rc loser r =
     (case survivors (map snd (players r)) (0, None) of
        (alivePlayers, Some w) \<Rightarrow>
          if alivePlayers = 1
          then (r\<lparr>gameStarted := False\<rparr>, [Emit (ToRoom rc) (GameOver (ident w) loser)])
          else (r, [])
      | (alivePlayers, None) \<Rightarrow> (r, []))"

text \<open>
  The handlers \<^verbatim>\<open>playerHit\<close> (lines 233 to 277), \<^verbatim>\<open>playerDied\<close> (279 to 308) and
  \<^verbatim>\<open>playerRespawn\<close> (310 to 324). The first two emit through \<^verbatim>\<open>io.to(data.roomCode)\<close> and
  never use their socket.
\<close>

definition playerHit :: "string \<Rightarrow> string \<Rightarrow> string \<Rightarrow> state \<Rightarrow> state \<times> effect list" where
  "playerHit rc targetId attackerId st =
     (case lookupRoom st rc of
        None \<Rightarrow> (st, [])
      | Some (a, r) \<Rightarrow>
          (case map_of (players r) targetId of
             None \<Rightarrow> (st, [])
           | Some targetPlayer \<Rightarrow>
               (case map_of (players r) attackerId of
                  None \<Rightarrow> (st, [])
                | Some attackerPlayer \<Rightarrow>
                    if isDead targetPlayer then (st, [])
                    else
                      (let t1 = targetPlayer\<lparr>health := max 0 (jsMinus (health targetPlayer) 15)\<rparr>;
                           hit = Emit (ToRoom rc) (PlayerHitEvent targetId attackerId 15)
                       in if health t1 \<le> 0 \<and> \<not> isDead t1 then
                            (let r1 = r\<lparr>players := AList.update targetId (t1\<lparr>isDead := True\<rparr>) (players r)\<rparr>;
                                 (r2, over) = checkGameOver rc targetId r1
                             in (st\<lparr>heap := (heap st)(a \<mapsto> r2)\<rparr>, over @ [hit]))
                          else
                            (st\<lparr>heap := (heap st)(a \<mapsto> r\<lparr>players := AList.update targetId t1 (players r)\<rparr>)\<rparr>,
                             [hit])))))"

definition playerDied :: "string \<Rightarrow> string \<Rightarrow> state \<Rightarrow> state \<times> effect list" where
  "playerDied rc pid st =
     (case lookupRoom st rc of
        None \<Rightarrow> (st, [])
      | Some (a, r) \<Rightarrow>
          (case map_of (players r) pid of
             None \<Rightarrow> (st, [])
           | Some p \<Rightarrow>
               (let r1 = r\<lparr>players := AList.update pid (p\<lparr>isDead := True\<rparr>) (players r)\<rparr>;
                    (r2, over) = checkGameOver rc pid r1
                in (st\<lparr>heap := (heap st)(a \<mapsto> r2)\<rparr>, over))))"

definition playerRespawn :: "string \<Rightarrow> string \<Rightarrow> string \<Rightarrow> state \<Rightarrow> state \<times> effect list" where
  "playerRespawn sid rc pid st =
     (case lookupRoom st rc of
        None \<Rightarrow> (st, [])
      | Some (a, r) \<Rightarrow>
          (case map_of (players r) pid of
             None \<Rightarrow> (st, [])
           | Some p \<Rightarrow>
               (st\<lparr>heap := (heap st)(a \<mapsto>
                       r\<lparr>players := AList.update pid (p\<lparr>health := 100, isDead := False\<rparr>) (players r)\<rparr>)\<rparr>,
                [Emit (ToOthers sid rc) (PlayerRespawnEvent pid)])))"

section \<open>Disconnect\<close>

text \<open>
  The \<^verbatim>\<open>disconnect\<close> handler (lines 326 to 350). The name sent with \<^verbatim>\<open>playerDisconnected\<close> is
  \<^verbatim>\<open>room.players.get(playerData.playerId)?.name || 'Player'\<close>, read after the player has
  been deleted from the map; the empty string is falsy.
\<close>

definition nameOrDefault :: "(string \<times> player) list \<Rightarrow> string \<Rightarrow> string" where
  "nameOrDefault ps pid =
     (case map_of ps pid of
        None \<Rightarrow> ''Player''
      | Some p \<Rightarrow> if name p = [] then ''Player'' else name p)"

definition disconnect :: "string \<Rightarrow> state \<Rightarrow> state \<times> effect list" where
  "disconnect sid st =
     (case map_of (bindings st) sid of
        None \<Rightarrow> (st, [])
      | Some playerData \<Rightarrow>
          (case lookupRoom st (roomCode playerData) of
             None \<Rightarrow> (st\<lparr>bindings := AList.delete sid (bindings st)\<rparr>, [])
           | Some (a, r) \<Rightarrow>
               (let r' = r\<lparr>players := AList.delete (playerId playerData) (players r)\<rparr>;
                    notice = Emit (ToOthers sid (roomCode playerData))
                             (PlayerDisconnected (playerId playerData)
                                (nameOrDefault (players r') (playerId playerData)))
                in (st\<lparr>heap := (heap st)(a \<mapsto> r'),
                        rooms := (if length (players r') = 0
                                  then AList.delete (roomCode playerData) (rooms st)
                                  else rooms st),
                        bindings := AList.delete sid (bindings st)\<rparr>,
                    [notice]))))"

section \<open>The server as a transition function\<close>

datatype message =
    CreateRoom string
  | JoinRandomRoom string
  | JoinRoom string string
  | JoinGame string string string
  | PlayerState string string int int int int int bool "shieldState option"
  | PlayerUpdate string string int int
  | SwordSwing string string "hitbox option"
  | SwordRelease string string
  | PlayerHit string string string
  | PlayerDied string string
  | PlayerRespawn string string
  | Disconnect

datatype input =
    FromSocket string message
  | TimerFires nat

text \<open>
  One turn of the event loop: a message of a connection, or a firing of an interval.
  \<open>newCode\<close> and \<open>newId\<close> are what the two generators return, if the handler calls them.
\<close>

fun handle :: "string \<Rightarrow> string \<Rightarrow> string \<Rightarrow> message \<Rightarrow> state \<Rightarrow> state \<times> effect list" where
  "handle newCode newId sid (CreateRoom pname) st = createRoom sid pname newCode newId st"
| "handle newCode newId sid (JoinRandomRoom pname) st = joinRandomRoom sid pname newCode newId st"
| "handle newCode newId sid (JoinRoom pname rc) st = joinRoom sid pname rc newId st"
| "handle newCode newId sid (JoinGame rc pid pname) st = joinGame sid rc pid pname st"
| "handle newCode newId sid (PlayerState rc pid x y vx vy h d sh) st =
     playerState sid rc pid x y vx vy h d sh st"
| "handle newCode newId sid (PlayerUpdate rc pid mx my) st = playerUpdate sid rc pid mx my st"
| "handle newCode newId sid (SwordSwing rc pid hb) st = swordSwing sid rc pid hb st"
| "handle newCode newId sid (SwordRelease rc pid) st = swordRelease sid rc pid st"
| "handle newCode newId sid (PlayerHit rc targetId attackerId) st = playerHit rc targetId attackerId st"
| "handle newCode newId sid (PlayerDied rc pid) st = playerDied rc pid st"
| "handle newCode newId sid (PlayerRespawn rc pid) st = playerRespawn sid rc pid st"
| "handle newCode newId sid Disconnect st = disconnect sid st"

fun step :: "string \<Rightarrow> string \<Rightarrow> input \<Rightarrow> state \<Rightarrow> state \<times> effect list" where
  "step newCode newId (FromSocket sid m) st = handle newCode newId sid m st"
| "step newCode newId (TimerFires t) st = countdownTick t st"

fun isPlayerState :: "input \<Rightarrow> bool" where
  "isPlayerState (FromSocket sid (PlayerState rc pid x y vx vy h d sh)) = True"
| "isPlayerState other = False"

text \<open>
  \<open>n\<close> firings in a row of the interval with handle \<open>t\<close>, and what each of them emits.
\<close>

fun fireTimes :: "nat \<Rightarrow> nat \<Rightarrow> state \<Rightarrow> state \<times> effect list list" where
  "fireTimes t 0 st = (st, [])"
| "fireTimes t (Suc n) st =
     (case countdownTick t st of
        (st1, out) \<Rightarrow> (case fireTimes t n st1 of (st2, outs) \<Rightarrow> (st2, out # outs)))"

section \<open>Runs and predicates for the properties\<close>

text \<open>
  A run feeds inputs to \<open>step\<close> one after the other, each with the values the generators
  would return in that turn.
\<close>

fun runAll :: "(string \<times> string \<times> input) list \<Rightarrow> state \<Rightarrow> state" where
  "runAll [] st = st"
| "runAll ((newCode, newId, inp) # rest) st = runAll rest (fst (step newCode newId inp st))"

text \<open>\<open>noReport\<close>: no input of the run is a \<^verbatim>\<open>playerState\<close> message.\<close>

definition noReport :: "(string \<times> string \<times> input) list \<Rightarrow> bool" where
  "noReport ins = list_all (\<lambda>(newCode, newId, inp). \<not> isPlayerState inp) ins"

text \<open>
  The player that a message naming room \<open>rc\<close> and player \<open>pid\<close> refers to:
  \<^verbatim>\<open>rooms.get(rc)\<close>, then \<^verbatim>\<open>room.players.get(pid)\<close>, as every in-game handler starts.
\<close>

definition findPlayer :: "state \<Rightarrow> string \<Rightarrow> string \<Rightarrow> player option" where
  "findPlayer st rc pid =
     (case lookupRoom st rc of None \<Rightarrow> None | Some (a, r) \<Rightarrow> map_of (players r) pid)"

text \<open>Health within 0 and 100: of a player, of all players of a room, of all room objects.\<close>

definition healthy :: "player \<Rightarrow> bool" where
  "healthy p = (0 \<le> health p \<and> health p \<le> 100)"

definition roomHealthy :: "room \<Rightarrow> bool" where
  "roomHealthy r = list_all (\<lambda>(k, p). healthy p) (players r)"

definition heapHealthy :: "(nat \<Rightarrow> room option) \<Rightarrow> bool" where
  "heapHealthy h = (\<forall>a r. h a = Some r \<longrightarrow> roomHealthy r)"

definition allHealthy :: "state \<Rightarrow> bool" where
  "allHealthy st = heapHealthy (heap st)"

text \<open>Rooms of at most two players, and the inputs that are \<^verbatim>\<open>joinGame\<close> messages.\<close>

definition roomSmall :: "room \<Rightarrow> bool" where
  "roomSmall r = (length (players r) \<le> 2)"

definition heapSmall :: "(nat \<Rightarrow> room option) \<Rightarrow> bool" where
  "heapSmall h = (\<forall>a r. h a = Some r \<longrightarrow> roomSmall r)"

definition allSmall :: "state \<Rightarrow> bool" where
  "allSmall st = heapSmall (heap st)"

fun isJoinGame :: "input \<Rightarrow> bool" where
  "isJoinGame (FromSocket sid (JoinGame rc pid pname)) = True"
| "isJoinGame other = False"

definition noJoinGame :: "(string \<times> string \<times> input) list \<Rightarrow> bool" where
  "noJoinGame ins = list_all (\<lambda>(newCode, newId, inp). \<not> isJoinGame inp) ins"

text \<open>
  \<open>living\<close> counts the players of a room whose flag \<^verbatim>\<open>isDead\<close> is false; \<open>isGameOver\<close>
  recognises a \<^verbatim>\<open>gameOver\<close> event.
\<close>

definition isGameOver :: "effect \<Rightarrow> bool" where
  "isGameOver e = (case e of Emit dest (GameOver w l) \<Rightarrow> True | _ \<Rightarrow> False)"

definition living :: "(string \<times> player) list \<Rightarrow> nat" where
  "living ps = length (filter (\<lambda>(k, p). \<not> isDead p) ps)"

text \<open>
  A run with what every input emitted; the firings of the interval \<open>t\<close> in it, the
  countdown values a firing emitted, and the values that \<open>n\<close> firings of an interval with
  closure value \<open>c\<close> are expected to emit (nothing once the interval is cleared).
  \<open>wellFormed\<close>: every address of the registry has been handed out by the allocation
  counter. \<open>extends\<close>: a turn keeps the intervals and the room objects that exist, and
  the code of each room object. \<open>ticking\<close> and \<open>cleared\<close>: the interval \<open>t\<close> is installed on
  the room object at \<open>a\<close> with closure value \<open>c\<close>, or has been installed and removed.
  \<open>roomAt\<close>: the room object at the allocated address \<open>a\<close> has code \<open>rc\<close>.
\<close>

definition wellFormed :: "state \<Rightarrow> bool" where
  "wellFormed st = list_all (\<lambda>(rc, a). a < nextAddr st) (rooms st)"

definition extends :: "state \<Rightarrow> state \<Rightarrow> bool" where
  "extends st st' =
     (nextTimer st \<le> nextTimer st' \<and> nextAddr st \<le> nextAddr st'
      \<and> (\<forall>t < nextTimer st. map_of (timers st') t = map_of (timers st) t)
      \<and> (\<forall>a < nextAddr st. \<forall>r. heap st a = Some r
            \<longrightarrow> map_option code (heap st' a) = Some (code r)))"

definition roomAt :: "nat \<Rightarrow> string \<Rightarrow> state \<Rightarrow> bool" where
  "roomAt a rc st = (a < nextAddr st \<and> map_option code (heap st a) = Some rc)"

definition ticking :: "nat \<Rightarrow> nat \<Rightarrow> int \<Rightarrow> state \<Rightarrow> bool" where
  "ticking t a c st =
     (map_of (timers st) t = Some (a, c) \<and> heap st a \<noteq> None
      \<and> t < nextTimer st \<and> a < nextAddr st)"

definition cleared :: "nat \<Rightarrow> state \<Rightarrow> bool" where
  "cleared t st = (map_of (timers st) t = None \<and> t < nextTimer st)"

fun runTrace :: "(string \<times> string \<times> input) list \<Rightarrow> state \<Rightarrow> (input \<times> effect list) list" where
  "runTrace [] st = []"
| "runTrace ((newCode, newId, inp) # rest) st =
     (case step newCode newId inp st of (st', out) \<Rightarrow> (inp, out) # runTrace rest st')"

definition firingsOf :: "nat \<Rightarrow> (input \<times> effect list) list \<Rightarrow> effect list list" where
  "firingsOf t tr = map snd (filter (\<lambda>(inp, out). inp = TimerFires t) tr)"

fun countdownValues :: "effect list \<Rightarrow> int list" where
  "countdownValues [] = []"
| "countdownValues (Emit dest (Countdown c) # es) = c # countdownValues es"
| "countdownValues (e # es) = countdownValues es"

fun expected :: "nat \<Rightarrow> int \<Rightarrow> int list list" where
  "expected 0 c = []"
| "expected (Suc n) c = (if 0 \<le> c then [c] # expected n (c - 1) else [] # expected n c)"

text \<open>
  A run with the state before and after every input. \<open>countdownRun t a rc c\<close> says of
  such a run what the start sequence prescribes for the firings of the interval \<open>t\<close> of
  the room object at \<open>a\<close> with code \<open>rc\<close>, from the closure value \<open>c\<close> on: a firing at a
  positive value emits that value to the room and changes nothing but the value, which
  goes down by one; the firing at 0 emits 0, places the players that the room has at
  that moment, broadcasts the state of the room so placed, and removes the interval; any
  later firing emits nothing and changes nothing. Other inputs may come between the
  firings.
\<close>

fun runSteps ::
  "(string \<times> string \<times> input) list \<Rightarrow> state \<Rightarrow> (state \<times> input \<times> effect list \<times> state) list" where
  "runSteps [] st = []"
| "runSteps ((newCode, newId, inp) # rest) st =
     (case step newCode newId inp st of (st', out) \<Rightarrow> (st, inp, out, st') # runSteps rest st')"

fun countdownRun ::
  "nat \<Rightarrow> nat \<Rightarrow> string \<Rightarrow> int \<Rightarrow> (state \<times> input \<times> effect list \<times> state) list \<Rightarrow> bool" where
  "countdownRun t a rc c [] = True"
| "countdownRun t a rc c ((s, inp, out, s') # rest) =
     (if inp \<noteq> TimerFires t then countdownRun t a rc c rest
      else if 0 < c then
        out = [Emit (ToRoom rc) (Countdown c)]
        \<and> s' = s\<lparr>timers := AList.update t (a, c - 1) (timers s)\<rparr>
        \<and> countdownRun t a rc (c - 1) rest
      else if c = 0 then
        (\<exists>r. heap s a = Some r
           \<and> out = [Emit (ToRoom rc) (Countdown 0),
                    broadcastGameState (r\<lparr>players := placePlayers 0 (players r)\<rparr>)]
           \<and> s' = s\<lparr>heap := (heap s)(a \<mapsto> r\<lparr>players := placePlayers 0 (players r)\<rparr>),
                    timers := AList.delete t (timers s)\<rparr>)
        \<and> countdownRun t a rc (- 1) rest
      else out = [] \<and> s' = s \<and> countdownRun t a rc c rest)"

text \<open>
  \<open>startsNothing st st'\<close>: from \<open>st\<close> to \<open>st'\<close> no interval has been installed and no room
  object has become started. \<open>onlyOldIntervals st tr\<close>: every countdown value emitted in
  the run \<open>tr\<close> comes from the firing of an interval that was installed in \<open>st\<close> already.
\<close>

definition installed :: "state \<Rightarrow> nat \<Rightarrow> bool" where
  "installed st t = (map_of (timers st) t \<noteq> None)"

definition startedAt :: "state \<Rightarrow> nat \<Rightarrow> bool" where
  "startedAt st a = (case heap st a of None \<Rightarrow> False | Some r \<Rightarrow> gameStarted r)"

definition startsNothing :: "state \<Rightarrow> state \<Rightarrow> bool" where
  "startsNothing st st' =
     (nextTimer st' = nextTimer st
      \<and> (\<forall>t. installed st' t \<longrightarrow> installed st t)
      \<and> (\<forall>a. startedAt st' a \<longrightarrow> startedAt st a))"

definition onlyOldIntervals :: "state \<Rightarrow> (input \<times> effect list) list \<Rightarrow> bool" where
  "onlyOldIntervals st tr =
     list_all (\<lambda>(inp, out). countdownValues out = []
                 \<or> (case inp of TimerFires t \<Rightarrow> installed st t | FromSocket sid m \<Rightarrow> False)) tr"

section \<open>A run of the server\<close>

text \<open>
  States that the handlers reach from the empty server, used to evaluate the code:
  Alice creates room AB12 (\<open>lobby\<close>), Bob joins it by code (\<open>duel\<close>), the game page of
  Alice sends \<^verbatim>\<open>joinGame\<close> (\<open>started\<close>), and the interval fires four times (\<open>arena\<close>).
\<close>

definition lobby :: state where
  "lobby = fst (createRoom ''s1'' ''Alice'' ''AB12'' ''p1'' emptyState)"

definition duel :: state where
  "duel = fst (joinRoom ''s2'' ''Bob'' ''AB12'' ''p2'' lobby)"

definition started :: state where
  "started = fst (joinGame ''s3'' ''AB12'' ''p1'' ''Alice'' duel)"

definition arena :: state where
  "arena = fst (fireTimes (nextTimer duel) 4 started)"

text \<open>
  The same run as a list of inputs from the empty server, followed by six hits of Alice on
  Bob, which leave Bob at health 10 (\<open>bruised\<close>).
\<close>

definition script :: "(string \<times> string \<times> input) list" where
  "script =
     [(''AB12'', ''p1'', FromSocket ''s1'' (CreateRoom ''Alice'')),
      ([], ''p2'', FromSocket ''s2'' (JoinRoom ''Bob'' ''AB12'')),
      ([], [], FromSocket ''s3'' (JoinGame ''AB12'' ''p1'' ''Alice'')),
      ([], [], TimerFires 0), ([], [], TimerFires 0), ([], [], TimerFires 0),
      ([], [], TimerFires 0)]
     @ replicate 6 ([], [], FromSocket ''s3'' (PlayerHit ''AB12'' ''p2'' ''p1''))"

definition bruised :: state where
  "bruised = runAll script emptyState"

text \<open>
  Five firings of the interval of the started game, with other messages between them: a
  position report, another room being created, the game page of Bob joining, a hit.
\<close>

definition mixed :: "(string \<times> string \<times> input) list" where
  "mixed =
     [([], [], TimerFires 0),
      ([], [], FromSocket ''s3'' (PlayerState ''AB12'' ''p1'' 40 50 1 0 100 False None)),
      ([], [], TimerFires 0),
      (''CD34'', ''p7'', FromSocket ''s7'' (CreateRoom ''Carol'')),
      ([], [], TimerFires 0),
      ([], [], FromSocket ''s4'' (JoinGame ''AB12'' ''p2'' ''Bob'')),
      ([], [], TimerFires 0),
      ([], [], FromSocket ''s3'' (PlayerHit ''AB12'' ''p2'' ''p1'')),
      ([], [], TimerFires 0)]"

text \<open>
  A run without \<^verbatim>\<open>joinGame\<close>: two rooms reach two players, one through \<^verbatim>\<open>joinRoom\<close> and
  one through \<^verbatim>\<open>joinRandomRoom\<close>, and the handle 0 fires in between.
\<close>

definition waiting :: "(string \<times> string \<times> input) list" where
  "waiting =
     [(''AB12'', ''p1'', FromSocket ''s1'' (CreateRoom ''Alice'')),
      ([], ''p2'', FromSocket ''s2'' (JoinRoom ''Bob'' ''AB12'')),
      ([], [], TimerFires 0),
      (''CD34'', ''p7'', FromSocket ''s7'' (JoinRandomRoom ''Carol'')),
      (''EF56'', ''p8'', FromSocket ''s8'' (JoinRandomRoom ''Dave'')),
      ([], [], TimerFires 0)]"

definition alice :: player where
  "alice = newPlayer ''p1'' ''Alice'' ''s1''"

definition bob :: player where
  "bob = newPlayer ''p2'' ''Bob'' ''s2''"

definition lobbyRoom :: room where
  "lobbyRoom = \<lparr>code = ''AB12'', players = [(''p1'', alice)],
                 gameStarted = False, countdown = 3, gameLoop = None\<rparr>"

definition duelRoom :: room where
  "duelRoom = \<lparr>code = ''AB12'', players = [(''p1'', alice), (''p2'', bob)],
                gameStarted = False, countdown = 3, gameLoop = None\<rparr>"

text \<open>
  In the started game Bob reports himself dead at health 37 and position (700,300)
  (\<open>downed\<close>); \<open>downedRoom\<close> is the room object then, \<open>downedBob\<close> its second player.
\<close>

definition downed :: state where
  "downed = fst (playerState ''s2'' ''AB12'' ''p2'' 700 300 0 0 37 True None arena)"

definition downedBob :: player where
  "downedBob = bob\<lparr>posX := 700, posY := 300, velocityX := Some 0, velocityY := Some 0,
                    health := 37, isDead := True\<rparr>"

definition downedRoom :: room where
  "downedRoom = \<lparr>code = ''AB12'',
                  players = [(''p1'', alice\<lparr>posX := 250, posY := 300\<rparr>), (''p2'', downedBob)],
                  gameStarted = True, countdown = 3, gameLoop = None\<rparr>"

text \<open>
  In the started game Bob reports the health \<open>10\<^sup>1\<^sup>7\<close> (\<open>swollen\<close>); \<open>swollenBob\<close> is the
  player then.
\<close>

definition swollen :: state where
  "swollen = fst (playerState ''s2'' ''AB12'' ''p2'' 750 300 0 0 100000000000000000 False None arena)"

definition swollenBob :: player where
  "swollenBob = bob\<lparr>posX := 750, posY := 300, velocityX := Some 0, velocityY := Some 0,
                     health := 100000000000000000\<rparr>"

section \<open>Lemmas on numbers and payload objects\<close>

text \<open>
  The subtraction is exact below \<open>2\<^sup>5\<^sup>3\<close>, and its result is positive exactly when the exact
  difference is. At \<open>10\<^sup>1\<^sup>7\<close> doubles are 16 apart.
\<close>

lemma spacing_pos: "0 < spacing n"
  by (induction n rule: spacing.induct) (subst spacing.simps, simp)

lemma spacing_small: "n < 9007199254740992 \<Longrightarrow> spacing n = 1"
  by (subst spacing.simps) simp

lemma spacing_le: "0 < n \<Longrightarrow> spacing n \<le> n"
proof (induction n rule: spacing.induct)
  case (1 n)
  show ?case
  proof (cases "n < 9007199254740992")
    case True
    with "1.prems" show ?thesis by (simp add: spacing_small)
  next
    case False
    then have "0 < n div 2" by simp
    with "1.IH" False have "spacing (n div 2) \<le> n div 2" by simp
    then have "2 * spacing (n div 2) \<le> n" by simp
    with False show ?thesis by (subst spacing.simps) simp
  qed
qed

lemma toDouble_exact: "\<bar>x\<bar> < 9007199254740992 \<Longrightarrow> toDouble x = x"
  by (simp add: toDouble_def spacing_small)

lemma toDouble_pos:
  assumes "0 < x" shows "0 < toDouble x"
proof -
  define u where "u = spacing \<bar>x\<bar>"
  have u: "0 < u" using spacing_pos by (simp add: u_def)
  from assms have "u \<le> x" using spacing_le [of "\<bar>x\<bar>"] by (simp add: u_def)
  with u have "0 < x div u"
    using pos_imp_zdiv_pos_iff by blast
  with u have "0 < x div u * u" and "0 < (x div u + 1) * u" by simp_all
  then show ?thesis
    by (simp add: toDouble_def Let_def u_def [symmetric])
qed

lemma toDouble_nonpos:
  assumes "x \<le> 0" shows "toDouble x \<le> 0"
proof (cases "x = 0")
  case True
  then show ?thesis by (simp add: toDouble_exact)
next
  case False
  define u where "u = spacing \<bar>x\<bar>"
  have u: "0 < u" using spacing_pos by (simp add: u_def)
  from False assms have "x < 0" by simp
  with u have q: "x div u < 0"
    using pos_imp_zdiv_neg_iff by blast
  with u have "x div u * u \<le> 0" and "(x div u + 1) * u \<le> 0"
    by (simp_all add: mult_nonpos_nonneg)
  then show ?thesis
    by (simp add: toDouble_def Let_def u_def [symmetric])
qed

lemma jsMinus_exact: "\<bar>a - b\<bar> < 9007199254740992 \<Longrightarrow> jsMinus a b = a - b"
  by (simp add: jsMinus_def toDouble_exact)

lemma jsMinus_pos: "0 < jsMinus a b \<longleftrightarrow> b < a"
proof (cases "b < a")
  case True
  then show ?thesis using toDouble_pos [of "a - b"] by (simp add: jsMinus_def)
next
  case False
  then show ?thesis using toDouble_nonpos [of "a - b"] by (simp add: jsMinus_def)
qed

lemma hit_health: "max 0 (jsMinus h 15) = (if 15 < h then jsMinus h 15 else 0)"
  using jsMinus_pos [of h 15] by (cases "15 < h") (auto simp: max_def)

lemma jsMinus_large:
  "jsMinus 100000000000000000 15 = 99999999999999984
   \<and> jsMinus 9007199254740992 15 = 9007199254740977
   \<and> jsMinus 9007199254740994 1 = 9007199254740992
   \<and> jsMinus (- 100000000000000000) 15 = - 100000000000000016"
  by code_simp

text \<open>
  The payload of \<^verbatim>\<open>getPlayersState\<close>, for a player map (its keys are distinct): it holds
  the views of the players whose id is not \<^verbatim>\<open>__proto__\<close>; when no id is \<^verbatim>\<open>__proto__\<close> or an
  array index, it holds the views of all players in the order of the map.
\<close>

lemma set_ownProperties: "set (ownProperties obj) = set obj"
  by (auto simp: ownProperties_def)

lemma ownProperties_plain:
  assumes "list_all (\<lambda>(k, v). \<not> isArrayIndex k) obj" shows "ownProperties obj = obj"
proof -
  from assms have "filter (\<lambda>(k, v). isArrayIndex k) obj = []"
    and "filter (\<lambda>(k, v). \<not> isArrayIndex k) obj = obj"
    by (induction obj) auto
  then show ?thesis
    by (simp add: ownProperties_def)
qed

lemma assign_all:
  "distinct (map fst (acc @ kvs)) \<Longrightarrow>
     foldl (\<lambda>obj (k, v). assign k v obj) acc kvs
       = acc @ filter (\<lambda>(k, v). k \<noteq> ''__proto__'') kvs"
proof (induction kvs arbitrary: acc)
  case Nil
  then show ?case by simp
next
  case (Cons kv kvs)
  obtain k v where kv: "kv = (k, v)" by (cases kv)
  from Cons.prems kv have fresh: "k \<notin> fst ` set acc"
    by auto
  then have new: "AList.update k v acc = acc @ [(k, v)]"
    by (induction acc) auto
  show ?case
  proof (cases "k = ''__proto__''")
    case True
    from Cons.prems kv have "distinct (map fst (acc @ kvs))"
      by simp
    from Cons.IH [OF this] kv True show ?thesis
      by (simp add: assign_def)
  next
    case False
    from Cons.prems kv have "distinct (map fst ((acc @ [(k, v)]) @ kvs))"
      by auto
    from Cons.IH [OF this] kv False new show ?thesis
      by (simp add: assign_def)
  qed
qed

lemma getPlayersState_filter:
  assumes "distinct (map fst (players r))"
  shows "getPlayersState r
           = ownProperties (filter (\<lambda>(k, v). k \<noteq> ''__proto__'')
               (map (\<lambda>(k, p). (k, playerView p)) (players r)))"
proof -
  have fold: "foldl (\<lambda>obj (k, p). assign k (playerView p) obj) acc ps
      = foldl (\<lambda>obj (k, v). assign k v obj) acc (map (\<lambda>(k, p). (k, playerView p)) ps)"
    for acc :: "(string \<times> snapshot) list" and ps
    by (induction ps arbitrary: acc) (auto simp: case_prod_beta)
  have keys: "map fst (map (\<lambda>(k, p). (k, playerView p)) ps) = map fst ps"
    for ps :: "(string \<times> player) list"
    by (induction ps) auto
  from assms have "distinct (map fst ([] @ map (\<lambda>(k, p). (k, playerView p)) (players r)))"
    unfolding append_Nil keys .
  from assign_all [OF this] show ?thesis
    by (simp add: getPlayersState_def fold)
qed

lemma getPlayersState_set:
  assumes "distinct (map fst (players r))"
  shows "set (getPlayersState r)
           = {(k, playerView p) | k p. (k, p) \<in> set (players r) \<and> k \<noteq> ''__proto__''}"
  unfolding getPlayersState_filter [OF assms] set_ownProperties
  by auto

lemma getPlayersState_plain:
  assumes "distinct (map fst (players r))"
    and "list_all (\<lambda>(k, p). k \<noteq> ''__proto__'' \<and> \<not> isArrayIndex k) (players r)"
  shows "getPlayersState r = map (\<lambda>(k, p). (k, playerView p)) (players r)"
proof -
  let ?vs = "map (\<lambda>(k, p). (k, playerView p)) (players r)"
  from assms(2) have "filter (\<lambda>(k, v). k \<noteq> ''__proto__'') ?vs = ?vs"
    by (induction "players r") (auto simp: list_all_iff filter_id_conv)
  moreover from assms(2) have "list_all (\<lambda>(k, v). \<not> isArrayIndex k) ?vs"
    by (auto simp: list_all_iff)
  ultimately show ?thesis
    unfolding getPlayersState_filter [OF assms(1)]
    by (simp add: ownProperties_plain)
qed

lemma ownProperties_examples:
  "map fst (getPlayersState \<lparr>code = ''AB12'',
      players = [(''p1'', p), (''10'', p), (''__proto__'', p), (''9'', p), (''07'', p)],
      gameStarted = False, countdown = 3, gameLoop = None\<rparr>)
     = [''9'', ''10'', ''p1'', ''07'']"
  by (simp add: getPlayersState_def assign_def ownProperties_def isArrayIndex_def isDigit_def
      indexValue_def)

section \<open>Lemmas on the registries\<close>

text \<open>
  \<^verbatim>\<open>Map.set\<close> on a new key appends, on a key that is present it keeps the length; a
  property of all entries survives \<^verbatim>\<open>set\<close> with an entry that has it, and \<^verbatim>\<open>delete\<close>.
\<close>

lemma list_all_update: "list_all P al \<Longrightarrow> P (k, v) \<Longrightarrow> list_all P (AList.update k v al)"
  by (induction al) auto

lemma list_all_delete: "list_all P al \<Longrightarrow> list_all P (AList.delete k al)"
  by (induction al) auto

lemma list_all_map_of: "list_all P al \<Longrightarrow> map_of al k = Some v \<Longrightarrow> P (k, v)"
  by (auto simp: list_all_iff dest: map_of_SomeD)

lemma update_length_le: "length (AList.update k v al) \<le> Suc (length al)"
  by (induction al) auto

lemma lookupRoomD:
  "lookupRoom st rc = Some (a, r) \<Longrightarrow> map_of (rooms st) rc = Some a \<and> heap st a = Some r"
  by (auto simp: lookupRoom_def split: option.splits)

lemma update_fresh: "map_of al k = None \<Longrightarrow> AList.update k v al = al @ [(k, v)]"
  by (induction al) (auto split: if_splits)

lemma update_present_length:
  "map_of al k = Some w \<Longrightarrow> length (AList.update k v al) = length al"
  by (induction al) (auto split: if_splits)

lemma lookup_duel: "lookupRoom duel ''AB12'' = Some (0, duelRoom)"
  by (simp add: duel_def lobby_def joinRoom_def createRoom_def emptyState_def lookupRoom_def
      duelRoom_def alice_def bob_def Let_def)

lemma lookup_lobby: "lookupRoom lobby ''AB12'' = Some (0, lobbyRoom)"
  by (simp add: lobby_def createRoom_def emptyState_def lookupRoom_def lobbyRoom_def alice_def
      Let_def)

lemma script_arena: "runAll (take 7 script) emptyState = arena"
proof -
  have "nextTimer duel = 0"
    by (simp add: duel_def lobby_def joinRoom_def createRoom_def emptyState_def lookupRoom_def
        Let_def)
  then show ?thesis
    by (simp add: script_def arena_def started_def duel_def lobby_def numeral_eq_Suc
        case_prod_beta)
qed

lemma checkGameOver_cases:
  "checkGameOver rc l r = (r, []) \<or>
   (\<exists>w. checkGameOver rc l r = (r\<lparr>gameStarted := False\<rparr>, [Emit (ToRoom rc) (GameOver w l)]))"
  by (auto simp: checkGameOver_def split: prod.splits option.splits)

lemma lookup_downed: "lookupRoom downed ''AB12'' = Some (0, downedRoom)"
  by code_simp

text \<open>
  A hit that is applied: the target dies when its health is at most 15, and is hurt
  otherwise.
\<close>

lemma playerHit_kills:
  assumes "lookupRoom st rc = Some (a, r)" and "map_of (players r) targetId = Some t"
    and "map_of (players r) attackerId = Some k" and "\<not> isDead t" and "health t \<le> 15"
  shows "playerHit rc targetId attackerId st =
           (st\<lparr>heap := (heap st)(a \<mapsto> fst (checkGameOver rc targetId
                (r\<lparr>players := AList.update targetId (t\<lparr>health := 0, isDead := True\<rparr>) (players r)\<rparr>)))\<rparr>,
            snd (checkGameOver rc targetId
                (r\<lparr>players := AList.update targetId (t\<lparr>health := 0, isDead := True\<rparr>) (players r)\<rparr>))
              @ [Emit (ToRoom rc) (PlayerHitEvent targetId attackerId 15)])"
  using assms by (simp add: playerHit_def Let_def case_prod_beta hit_health)

lemma playerHit_hurts:
  assumes "lookupRoom st rc = Some (a, r)" and "map_of (players r) targetId = Some t"
    and "map_of (players r) attackerId = Some k" and "\<not> isDead t" and "15 < health t"
  shows "playerHit rc targetId attackerId st =
           (st\<lparr>heap := (heap st)(a \<mapsto>
                r\<lparr>players := AList.update targetId (t\<lparr>health := jsMinus (health t) 15\<rparr>) (players r)\<rparr>)\<rparr>,
            [Emit (ToRoom rc) (PlayerHitEvent targetId attackerId 15)])"
  using assms jsMinus_pos [of "health t" 15]
  by (simp add: playerHit_def Let_def hit_health)

section \<open>Respawn\<close>

text \<open>
  Claim C9. For a player present in a room, the \<^verbatim>\<open>playerRespawn\<close> handler sets the health
  of that player to 100 and the death flag to false whatever they were, changes no other
  field of the player, no other player and not \<open>gameStarted\<close>, emits one
  \<^verbatim>\<open>playerRespawn\<close> event through \<^verbatim>\<open>socket.to(roomCode)\<close> (the room without the sender),
  and a second respawn leaves the state as the first one made it.
\<close>

theorem respawn_resets:
  assumes "lookupRoom st rc = Some (a, r)" and "map_of (players r) pid = Some p"
  shows "\<exists>r'. lookupRoom (fst (playerRespawn sid rc pid st)) rc = Some (a, r')
           \<and> map_of (players r') pid = Some (p\<lparr>health := 100, isDead := False\<rparr>)
           \<and> (\<forall>q. q \<noteq> pid \<longrightarrow> map_of (players r') q = map_of (players r) q)
           \<and> gameStarted r' = gameStarted r
           \<and> snd (playerRespawn sid rc pid st) = [Emit (ToOthers sid rc) (PlayerRespawnEvent pid)]
           \<and> fst (playerRespawn sid rc pid (fst (playerRespawn sid rc pid st)))
               = fst (playerRespawn sid rc pid st)"
proof -
  let ?p' = "p\<lparr>health := 100, isDead := False\<rparr>"
  let ?r' = "r\<lparr>players := AList.update pid ?p' (players r)\<rparr>"
  let ?st' = "st\<lparr>heap := (heap st)(a \<mapsto> ?r')\<rparr>"
  from assms(1) have reg: "map_of (rooms st) rc = Some a"
    using lookupRoomD by blast
  have run: "playerRespawn sid rc pid st = (?st', [Emit (ToOthers sid rc) (PlayerRespawnEvent pid)])"
    using assms by (simp add: playerRespawn_def)
  have look: "lookupRoom ?st' rc = Some (a, ?r')"
    using reg by (simp add: lookupRoom_def)
  have again: "playerRespawn sid rc pid ?st' = (?st', [Emit (ToOthers sid rc) (PlayerRespawnEvent pid)])"
    using look by (simp add: playerRespawn_def update_conv')
  have "map_of (players ?r') pid = Some ?p'"
    by (simp add: update_conv')
  moreover have "\<forall>q. q \<noteq> pid \<longrightarrow> map_of (players ?r') q = map_of (players r) q"
    by (simp add: update_conv')
  ultimately show ?thesis
    using run look again by simp
qed

theorem respawn_resets_witness:
  "lookupRoom downed ''AB12'' = Some (0, downedRoom)
   \<and> map_of (players downedRoom) ''p2'' = Some downedBob
   \<and> health downedBob = 37 \<and> isDead downedBob \<and> gameStarted downedRoom
   \<and> (\<exists>r'. lookupRoom (fst (playerRespawn ''s2'' ''AB12'' ''p2'' downed)) ''AB12'' = Some (0, r')
         \<and> map_of (players r') ''p2'' = Some (downedBob\<lparr>health := 100, isDead := False\<rparr>)
         \<and> downedBob\<lparr>health := 100, isDead := False\<rparr> \<noteq> downedBob
         \<and> map_of (players r') ''p1'' = Some (alice\<lparr>posX := 250, posY := 300\<rparr>)
         \<and> gameStarted r'
         \<and> snd (playerRespawn ''s2'' ''AB12'' ''p2'' downed)
             = [Emit (ToOthers ''s2'' ''AB12'') (PlayerRespawnEvent ''p2'')]
         \<and> fst (playerRespawn ''s2'' ''AB12'' ''p2'' (fst (playerRespawn ''s2'' ''AB12'' ''p2'' downed)))
             = fst (playerRespawn ''s2'' ''AB12'' ''p2'' downed))"
proof -
  have who: "map_of (players downedRoom) ''p2'' = Some downedBob"
    by (simp add: downedRoom_def)
  have before: "health downedBob = 37" "isDead downedBob" "gameStarted downedRoom"
    by (simp_all add: downedBob_def downedRoom_def)
  have changed: "downedBob\<lparr>health := 100, isDead := False\<rparr> \<noteq> downedBob"
  proof
    assume "downedBob\<lparr>health := 100, isDead := False\<rparr> = downedBob"
    then have "health (downedBob\<lparr>health := 100, isDead := False\<rparr>) = health downedBob"
      by simp
    with before(1) show False by simp
  qed
  from respawn_resets [OF lookup_downed who, of "''s2''"] obtain r' where
    look: "lookupRoom (fst (playerRespawn ''s2'' ''AB12'' ''p2'' downed)) ''AB12'' = Some (0, r')"
    and reset: "map_of (players r') ''p2'' = Some (downedBob\<lparr>health := 100, isDead := False\<rparr>)"
    and others: "\<forall>q. q \<noteq> ''p2'' \<longrightarrow> map_of (players r') q = map_of (players downedRoom) q"
    and flag: "gameStarted r' = gameStarted downedRoom"
    and event: "snd (playerRespawn ''s2'' ''AB12'' ''p2'' downed)
             = [Emit (ToOthers ''s2'' ''AB12'') (PlayerRespawnEvent ''p2'')]"
    and again: "fst (playerRespawn ''s2'' ''AB12'' ''p2'' (fst (playerRespawn ''s2'' ''AB12'' ''p2'' downed)))
             = fst (playerRespawn ''s2'' ''AB12'' ''p2'' downed)"
    by (elim exE conjE)
  from others have alice_kept: "map_of (players r') ''p1'' = Some (alice\<lparr>posX := 250, posY := 300\<rparr>)"
    by (simp add: downedRoom_def)
  from flag before(3) have on: "gameStarted r'"
    by simp
  have "\<exists>r'. lookupRoom (fst (playerRespawn ''s2'' ''AB12'' ''p2'' downed)) ''AB12'' = Some (0, r')
         \<and> map_of (players r') ''p2'' = Some (downedBob\<lparr>health := 100, isDead := False\<rparr>)
         \<and> downedBob\<lparr>health := 100, isDead := False\<rparr> \<noteq> downedBob
         \<and> map_of (players r') ''p1'' = Some (alice\<lparr>posX := 250, posY := 300\<rparr>)
         \<and> gameStarted r'
         \<and> snd (playerRespawn ''s2'' ''AB12'' ''p2'' downed)
             = [Emit (ToOthers ''s2'' ''AB12'') (PlayerRespawnEvent ''p2'')]
         \<and> fst (playerRespawn ''s2'' ''AB12'' ''p2'' (fst (playerRespawn ''s2'' ''AB12'' ''p2'' downed)))
             = fst (playerRespawn ''s2'' ''AB12'' ''p2'' downed)"
    by (rule exI [of _ r']) (intro conjI look reset changed alice_kept on event again)
  with lookup_downed who before show ?thesis
    by (intro conjI)
qed

section \<open>Sword and shield\<close>

text \<open>
  Claim C10. For a player present in a room, the \<^verbatim>\<open>swordSwing\<close> handler leaves the sword of
  that player active and swinging and the shield inactive, and the \<^verbatim>\<open>swordRelease\<close>
  handler leaves the sword inactive and the shield active; so after either of them the
  sword and the shield of the player, as the snapshot shows them, are not both active.
\<close>

theorem sword_shield_exclusive:
  assumes "lookupRoom st rc = Some (a, r)" and "map_of (players r) pid = Some p"
  shows "(\<exists>r' p'. lookupRoom (fst (swordSwing sid rc pid hb st)) rc = Some (a, r')
            \<and> map_of (players r') pid = Some p'
            \<and> sword p' = Some \<lparr>swordActive = True, isSwinging = True, swingAngle = Some 0\<rparr>
            \<and> shield p' = Some \<lparr>shieldActive = False, shieldAngle = None\<rparr>
            \<and> \<not> (swordActive (snapSword (playerView p')) \<and> shieldActive (snapShield (playerView p'))))
       \<and> (\<exists>r' p'. lookupRoom (fst (swordRelease sid rc pid st)) rc = Some (a, r')
            \<and> map_of (players r') pid = Some p'
            \<and> sword p' = Some \<lparr>swordActive = False, isSwinging = False, swingAngle = None\<rparr>
            \<and> shield p' = Some \<lparr>shieldActive = True, shieldAngle = None\<rparr>
            \<and> \<not> (swordActive (snapSword (playerView p')) \<and> shieldActive (snapShield (playerView p'))))"
proof -
  from assms(1) have reg: "map_of (rooms st) rc = Some a"
    using lookupRoomD by blast
  have swing: "\<exists>r' p'. lookupRoom (fst (swordSwing sid rc pid hb st)) rc = Some (a, r')
            \<and> map_of (players r') pid = Some p'
            \<and> sword p' = Some \<lparr>swordActive = True, isSwinging = True, swingAngle = Some 0\<rparr>
            \<and> shield p' = Some \<lparr>shieldActive = False, shieldAngle = None\<rparr>
            \<and> \<not> (swordActive (snapSword (playerView p')) \<and> shieldActive (snapShield (playerView p')))"
    using assms reg
    by (simp add: swordSwing_def lookupRoom_def update_conv' playerView_def)
  have release: "\<exists>r' p'. lookupRoom (fst (swordRelease sid rc pid st)) rc = Some (a, r')
            \<and> map_of (players r') pid = Some p'
            \<and> sword p' = Some \<lparr>swordActive = False, isSwinging = False, swingAngle = None\<rparr>
            \<and> shield p' = Some \<lparr>shieldActive = True, shieldAngle = None\<rparr>
            \<and> \<not> (swordActive (snapSword (playerView p')) \<and> shieldActive (snapShield (playerView p')))"
    using assms reg
    by (simp add: swordRelease_def lookupRoom_def update_conv' playerView_def)
  from swing release show ?thesis by blast
qed

theorem sword_shield_exclusive_witness:
  "lookupRoom duel ''AB12'' = Some (0, duelRoom) \<and> map_of (players duelRoom) ''p1'' = Some alice
   \<and> (\<exists>r' p'. lookupRoom (fst (swordSwing ''s1'' ''AB12'' ''p1'' None duel)) ''AB12'' = Some (0, r')
         \<and> map_of (players r') ''p1'' = Some p'
         \<and> sword p' = Some \<lparr>swordActive = True, isSwinging = True, swingAngle = Some 0\<rparr>
         \<and> shield p' = Some \<lparr>shieldActive = False, shieldAngle = None\<rparr>)
   \<and> (\<exists>r' p'. lookupRoom (fst (swordRelease ''s1'' ''AB12'' ''p1'' duel)) ''AB12'' = Some (0, r')
         \<and> map_of (players r') ''p1'' = Some p'
         \<and> sword p' = Some \<lparr>swordActive = False, isSwinging = False, swingAngle = None\<rparr>
         \<and> shield p' = Some \<lparr>shieldActive = True, shieldAngle = None\<rparr>)"
proof -
  have who: "map_of (players duelRoom) ''p1'' = Some alice"
    by (simp add: duelRoom_def)
  from sword_shield_exclusive [OF lookup_duel who, of "''s1''" None] lookup_duel who
  show ?thesis by blast
qed

section \<open>Hits\<close>

text \<open>
  Claim C5. In a room of the registry, the \<^verbatim>\<open>playerHit\<close> handler does nothing when the
  target id or the attacker id is not in the room or the target is already dead: the
  whole state is as before (so the health and the flags of the target are) and nothing
  is emitted. Otherwise one \<^verbatim>\<open>playerHit\<close> event with damage 15 goes to the whole room
  (\<^verbatim>\<open>io.to(roomCode)\<close>), last, after at most one \<^verbatim>\<open>gameOver\<close>; when the target survives
  (health above 15) it is the only event.
\<close>

theorem hit_noop_or_broadcast:
  assumes "lookupRoom st rc = Some (a, r)"
  shows "((map_of (players r) targetId = None \<or> map_of (players r) attackerId = None
            \<or> (\<exists>t. map_of (players r) targetId = Some t \<and> isDead t))
          \<longrightarrow> playerHit rc targetId attackerId st = (st, []))
       \<and> (\<forall>t k. map_of (players r) targetId = Some t \<and> map_of (players r) attackerId = Some k
                \<and> \<not> isDead t
          \<longrightarrow> (snd (playerHit rc targetId attackerId st)
                  = [Emit (ToRoom rc) (PlayerHitEvent targetId attackerId 15)]
               \<or> (\<exists>w. snd (playerHit rc targetId attackerId st)
                  = [Emit (ToRoom rc) (GameOver w targetId),
                     Emit (ToRoom rc) (PlayerHitEvent targetId attackerId 15)]))
             \<and> (15 < health t \<longrightarrow> snd (playerHit rc targetId attackerId st)
                  = [Emit (ToRoom rc) (PlayerHitEvent targetId attackerId 15)]))"
proof (intro conjI impI allI)
  assume "map_of (players r) targetId = None \<or> map_of (players r) attackerId = None
            \<or> (\<exists>t. map_of (players r) targetId = Some t \<and> isDead t)"
  with assms show "playerHit rc targetId attackerId st = (st, [])"
    by (auto simp: playerHit_def split: option.splits)
next
  fix t k
  assume live: "map_of (players r) targetId = Some t \<and> map_of (players r) attackerId = Some k
                  \<and> \<not> isDead t"
  let ?r1 = "r\<lparr>players := AList.update targetId (t\<lparr>health := 0, isDead := True\<rparr>) (players r)\<rparr>"
  show "snd (playerHit rc targetId attackerId st)
          = [Emit (ToRoom rc) (PlayerHitEvent targetId attackerId 15)]
        \<or> (\<exists>w. snd (playerHit rc targetId attackerId st)
          = [Emit (ToRoom rc) (GameOver w targetId),
             Emit (ToRoom rc) (PlayerHitEvent targetId attackerId 15)])"
  proof (cases "health t \<le> 15")
    case True
    from live True have "playerHit rc targetId attackerId st =
           (st\<lparr>heap := (heap st)(a \<mapsto> fst (checkGameOver rc targetId ?r1))\<rparr>,
            snd (checkGameOver rc targetId ?r1)
              @ [Emit (ToRoom rc) (PlayerHitEvent targetId attackerId 15)])"
      using playerHit_kills [OF assms] by blast
    with checkGameOver_cases [of rc targetId ?r1] show ?thesis
      by auto
  next
    case False
    with live have "playerHit rc targetId attackerId st =
           (st\<lparr>heap := (heap st)(a \<mapsto>
                r\<lparr>players := AList.update targetId (t\<lparr>health := jsMinus (health t) 15\<rparr>) (players r)\<rparr>)\<rparr>,
            [Emit (ToRoom rc) (PlayerHitEvent targetId attackerId 15)])"
      using playerHit_hurts [OF assms] by simp
    then show ?thesis by simp
  qed
next
  fix t k
  assume live: "map_of (players r) targetId = Some t \<and> map_of (players r) attackerId = Some k
                  \<and> \<not> isDead t"
    and "15 < health t"
  then have "playerHit rc targetId attackerId st =
           (st\<lparr>heap := (heap st)(a \<mapsto>
                r\<lparr>players := AList.update targetId (t\<lparr>health := jsMinus (health t) 15\<rparr>) (players r)\<rparr>)\<rparr>,
            [Emit (ToRoom rc) (PlayerHitEvent targetId attackerId 15)])"
    using playerHit_hurts [OF assms] by simp
  then show "snd (playerHit rc targetId attackerId st)
          = [Emit (ToRoom rc) (PlayerHitEvent targetId attackerId 15)]"
    by simp
qed

theorem hit_noop_or_broadcast_witness:
  "lookupRoom duel ''AB12'' = Some (0, duelRoom)
   \<and> playerHit ''AB12'' ''p2'' ''nobody'' duel = (duel, [])
   \<and> snd (playerHit ''AB12'' ''p2'' ''p1'' duel)
       = [Emit (ToRoom ''AB12'') (PlayerHitEvent ''p2'' ''p1'' 15)]"
proof -
  have absent: "map_of (players duelRoom) ''nobody'' = None"
    and target: "map_of (players duelRoom) ''p2'' = Some bob"
    and attacker: "map_of (players duelRoom) ''p1'' = Some alice"
    and fit: "\<not> isDead bob" "15 < health bob"
    by (simp_all add: duelRoom_def bob_def alice_def newPlayer_def)
  from hit_noop_or_broadcast [OF lookup_duel, of "''p2''" "''nobody''"] absent
  have "playerHit ''AB12'' ''p2'' ''nobody'' duel = (duel, [])"
    by blast
  moreover from hit_noop_or_broadcast [OF lookup_duel, of "''p2''" "''p1''"] target attacker fit
  have "snd (playerHit ''AB12'' ''p2'' ''p1'' duel)
       = [Emit (ToRoom ''AB12'') (PlayerHitEvent ''p2'' ''p1'' 15)]"
    by blast
  ultimately show ?thesis
    using lookup_duel by simp
qed

section \<open>Joining by code\<close>

text \<open>
  Claim C8. \<^verbatim>\<open>joinRoom\<close> answers \<^verbatim>\<open>roomNotFound\<close> when the code is not in the registry and
  \<^verbatim>\<open>roomFull\<close> when the room has two players (or more), and in both cases leaves the whole
  state as it was. Otherwise it stores a new player (position (0,0), health 100, alive)
  under the generated id, appended to the players of the room when the id is fresh there,
  leaves the other players alone, binds the connection to the id and the code, and
  answers \<^verbatim>\<open>roomJoined\<close> with that id.
\<close>

theorem joinRoom_outcomes:
  "(lookupRoom st rc = None
      \<longrightarrow> joinRoom sid pname rc newId st = (st, [Emit (ToSocket sid) RoomNotFound]))
   \<and> (\<forall>a r. lookupRoom st rc = Some (a, r) \<and> 2 \<le> length (players r)
      \<longrightarrow> joinRoom sid pname rc newId st = (st, [Emit (ToSocket sid) RoomFull]))
   \<and> (\<forall>a r. lookupRoom st rc = Some (a, r) \<and> length (players r) < 2
      \<longrightarrow> (\<exists>r'. lookupRoom (fst (joinRoom sid pname rc newId st)) rc = Some (a, r')
             \<and> map_of (players r') newId = Some (newPlayer newId pname sid)
             \<and> (map_of (players r) newId = None
                  \<longrightarrow> players r' = players r @ [(newId, newPlayer newId pname sid)])
             \<and> (\<forall>q. q \<noteq> newId \<longrightarrow> map_of (players r') q = map_of (players r) q))
          \<and> posX (newPlayer newId pname sid) = 0 \<and> posY (newPlayer newId pname sid) = 0
          \<and> health (newPlayer newId pname sid) = 100 \<and> \<not> isDead (newPlayer newId pname sid)
          \<and> map_of (bindings (fst (joinRoom sid pname rc newId st))) sid
               = Some \<lparr>playerId = newId, roomCode = rc\<rparr>
          \<and> snd (joinRoom sid pname rc newId st)
               = [Join sid rc, Emit (ToSocket sid) (RoomJoined rc newId)])"
proof (intro conjI allI impI)
  assume "lookupRoom st rc = None"
  then show "joinRoom sid pname rc newId st = (st, [Emit (ToSocket sid) RoomNotFound])"
    by (simp add: joinRoom_def)
next
  fix a r
  assume "lookupRoom st rc = Some (a, r) \<and> 2 \<le> length (players r)"
  then show "joinRoom sid pname rc newId st = (st, [Emit (ToSocket sid) RoomFull])"
    by (simp add: joinRoom_def)
next
  fix a r
  assume room: "lookupRoom st rc = Some (a, r) \<and> length (players r) < 2"
  then have reg: "map_of (rooms st) rc = Some a"
    using lookupRoomD by blast
  let ?r' = "r\<lparr>players := AList.update newId (newPlayer newId pname sid) (players r)\<rparr>"
  have run: "joinRoom sid pname rc newId st =
      (st\<lparr>heap := (heap st)(a \<mapsto> ?r'),
          bindings := AList.update sid \<lparr>playerId = newId, roomCode = rc\<rparr> (bindings st)\<rparr>,
       [Join sid rc, Emit (ToSocket sid) (RoomJoined rc newId)])"
    using room by (simp add: joinRoom_def)
  have A: "lookupRoom (fst (joinRoom sid pname rc newId st)) rc = Some (a, ?r')"
    using reg by (simp add: run lookupRoom_def)
  have B: "map_of (players ?r') newId = Some (newPlayer newId pname sid)"
    by (simp add: update_conv')
  have C: "map_of (players r) newId = None
      \<longrightarrow> players ?r' = players r @ [(newId, newPlayer newId pname sid)]"
    by (simp add: update_fresh)
  have D: "\<forall>q. q \<noteq> newId \<longrightarrow> map_of (players ?r') q = map_of (players r) q"
    by (simp add: update_conv')
  show "\<exists>r'. lookupRoom (fst (joinRoom sid pname rc newId st)) rc = Some (a, r')
             \<and> map_of (players r') newId = Some (newPlayer newId pname sid)
             \<and> (map_of (players r) newId = None
                  \<longrightarrow> players r' = players r @ [(newId, newPlayer newId pname sid)])
             \<and> (\<forall>q. q \<noteq> newId \<longrightarrow> map_of (players r') q = map_of (players r) q)"
    by (rule exI [of _ ?r']) (intro conjI A B C D)
  show "posX (newPlayer newId pname sid) = 0" "posY (newPlayer newId pname sid) = 0"
    "health (newPlayer newId pname sid) = 100" "\<not> isDead (newPlayer newId pname sid)"
    by (simp_all add: newPlayer_def)
  show "map_of (bindings (fst (joinRoom sid pname rc newId st))) sid
               = Some \<lparr>playerId = newId, roomCode = rc\<rparr>"
    by (simp add: run update_conv')
  show "snd (joinRoom sid pname rc newId st)
               = [Join sid rc, Emit (ToSocket sid) (RoomJoined rc newId)]"
    by (simp add: run)
qed

theorem joinRoom_outcomes_witness:
  "joinRoom ''s9'' ''Eve'' ''ZZZZ'' ''p9'' duel = (duel, [Emit (ToSocket ''s9'') RoomNotFound])
   \<and> joinRoom ''s9'' ''Eve'' ''AB12'' ''p9'' duel = (duel, [Emit (ToSocket ''s9'') RoomFull])
   \<and> (\<exists>r'. lookupRoom (fst (joinRoom ''s2'' ''Bob'' ''AB12'' ''p2'' lobby)) ''AB12'' = Some (0, r')
         \<and> players r' = [(''p1'', alice), (''p2'', newPlayer ''p2'' ''Bob'' ''s2'')])
   \<and> snd (joinRoom ''s2'' ''Bob'' ''AB12'' ''p2'' lobby)
       = [Join ''s2'' ''AB12'', Emit (ToSocket ''s2'') (RoomJoined ''AB12'' ''p2'')]"
proof -
  have unknown: "lookupRoom duel ''ZZZZ'' = None"
    by (simp add: duel_def lobby_def joinRoom_def createRoom_def emptyState_def lookupRoom_def
        Let_def)
  have full: "2 \<le> length (players duelRoom)"
    by (simp add: duelRoom_def)
  have space: "length (players lobbyRoom) < 2" and fresh: "map_of (players lobbyRoom) ''p2'' = None"
    and one: "players lobbyRoom = [(''p1'', alice)]"
    by (simp_all add: lobbyRoom_def)
  have nf: "joinRoom ''s9'' ''Eve'' ''ZZZZ'' ''p9'' duel = (duel, [Emit (ToSocket ''s9'') RoomNotFound])"
    using joinRoom_outcomes [where st = duel and rc = "''ZZZZ''", THEN conjunct1, rule_format,
        OF unknown] .
  have fl: "joinRoom ''s9'' ''Eve'' ''AB12'' ''p9'' duel = (duel, [Emit (ToSocket ''s9'') RoomFull])"
    using joinRoom_outcomes [where st = duel and rc = "''AB12''", THEN conjunct2, THEN conjunct1,
        rule_format, OF conjI, OF lookup_duel full] .
  note ok = joinRoom_outcomes [where st = lobby and rc = "''AB12''" and sid = "''s2''"
      and pname = "''Bob''" and newId = "''p2''", THEN conjunct2, THEN conjunct2, rule_format,
      OF conjI, OF lookup_lobby space]
  have third: "\<exists>r'. lookupRoom (fst (joinRoom ''s2'' ''Bob'' ''AB12'' ''p2'' lobby)) ''AB12'' = Some (0, r')
         \<and> players r' = [(''p1'', alice), (''p2'', newPlayer ''p2'' ''Bob'' ''s2'')]"
  proof -
    from ok have "\<exists>r'. lookupRoom (fst (joinRoom ''s2'' ''Bob'' ''AB12'' ''p2'' lobby)) ''AB12'' = Some (0, r')
        \<and> map_of (players r') ''p2'' = Some (newPlayer ''p2'' ''Bob'' ''s2'')
        \<and> (map_of (players lobbyRoom) ''p2'' = None
             \<longrightarrow> players r' = players lobbyRoom @ [(''p2'', newPlayer ''p2'' ''Bob'' ''s2'')])
        \<and> (\<forall>q. q \<noteq> ''p2'' \<longrightarrow> map_of (players r') q = map_of (players lobbyRoom) q)"
      by (rule conjunct1)
    then obtain r' where
      new: "lookupRoom (fst (joinRoom ''s2'' ''Bob'' ''AB12'' ''p2'' lobby)) ''AB12'' = Some (0, r')
        \<and> map_of (players r') ''p2'' = Some (newPlayer ''p2'' ''Bob'' ''s2'')
        \<and> (map_of (players lobbyRoom) ''p2'' = None
             \<longrightarrow> players r' = players lobbyRoom @ [(''p2'', newPlayer ''p2'' ''Bob'' ''s2'')])
        \<and> (\<forall>q. q \<noteq> ''p2'' \<longrightarrow> map_of (players r') q = map_of (players lobbyRoom) q)"
      ..
    from new have look:
      "lookupRoom (fst (joinRoom ''s2'' ''Bob'' ''AB12'' ''p2'' lobby)) ''AB12'' = Some (0, r')"
      by (rule conjunct1)
    from new have "map_of (players lobbyRoom) ''p2'' = None
             \<longrightarrow> players r' = players lobbyRoom @ [(''p2'', newPlayer ''p2'' ''Bob'' ''s2'')]"
      by (rule conjunct2 [THEN conjunct2, THEN conjunct1])
    from this fresh have "players r' = players lobbyRoom @ [(''p2'', newPlayer ''p2'' ''Bob'' ''s2'')]"
      by (rule mp)
    then have "players r' = [(''p1'', alice), (''p2'', newPlayer ''p2'' ''Bob'' ''s2'')]"
      by (simp add: one)
    with look show ?thesis
      by (intro exI conjI)
  qed
  have out: "snd (joinRoom ''s2'' ''Bob'' ''AB12'' ''p2'' lobby)
       = [Join ''s2'' ''AB12'', Emit (ToSocket ''s2'') (RoomJoined ''AB12'' ''p2'')]"
    using ok [THEN conjunct2, THEN conjunct2, THEN conjunct2, THEN conjunct2, THEN conjunct2,
        THEN conjunct2] .
  from nf fl third out show ?thesis
    by (intro conjI)
qed

section \<open>Messages that name no room or no player\<close>

text \<open>
  Claim C7, amended. A \<^verbatim>\<open>playerState\<close>, \<^verbatim>\<open>swordSwing\<close>, \<^verbatim>\<open>swordRelease\<close>, \<^verbatim>\<open>playerHit\<close>,
  \<^verbatim>\<open>playerDied\<close> or \<^verbatim>\<open>playerRespawn\<close> message whose room code is not in the registry, or whose
  player id (for \<^verbatim>\<open>playerHit\<close>: the target or the attacker) is not in that room, changes
  nothing and emits nothing. A \<^verbatim>\<open>joinGame\<close> message with an unknown room code changes
  nothing either, but it is answered: the sender gets an \<^verbatim>\<open>error\<close> event with the text
  "Room not found".
\<close>

theorem unknown_reference_ignored:
  assumes "lookupRoom st rc = None
             \<or> (\<exists>a r. lookupRoom st rc = Some (a, r) \<and> map_of (players r) pid = None)"
  shows "playerState sid rc pid x y vx vy h d sh st = (st, [])
       \<and> swordSwing sid rc pid hb st = (st, [])
       \<and> swordRelease sid rc pid st = (st, [])
       \<and> playerHit rc pid other st = (st, [])
       \<and> playerHit rc other pid st = (st, [])
       \<and> playerDied rc pid st = (st, [])
       \<and> playerRespawn sid rc pid st = (st, [])
       \<and> (lookupRoom st rc = None
            \<longrightarrow> joinGame sid rc pid pname st
                  = (st, [Emit (ToSocket sid) (ErrorEvent ''Room not found'')]))"
proof -
  have silent:
    "playerState sid rc pid x y vx vy h d sh st = (st, [])
       \<and> swordSwing sid rc pid hb st = (st, [])
       \<and> swordRelease sid rc pid st = (st, [])
       \<and> playerHit rc pid other st = (st, [])
       \<and> playerHit rc other pid st = (st, [])
       \<and> playerDied rc pid st = (st, [])
       \<and> playerRespawn sid rc pid st = (st, [])"
    using assms
  proof (elim disjE exE conjE)
    assume "lookupRoom st rc = None"
    then show ?thesis
      by (simp add: playerState_def swordSwing_def swordRelease_def playerHit_def
          playerDied_def playerRespawn_def)
  next
    fix a r
    assume "lookupRoom st rc = Some (a, r)" and "map_of (players r) pid = None"
    then show ?thesis
      by (simp add: playerState_def swordSwing_def swordRelease_def playerHit_def
          playerDied_def playerRespawn_def split: option.splits)
  qed
  have "lookupRoom st rc = None
      \<longrightarrow> joinGame sid rc pid pname st = (st, [Emit (ToSocket sid) (ErrorEvent ''Room not found'')])"
    by (simp add: joinGame_def)
  with silent show ?thesis
    by simp
qed

theorem unknown_reference_ignored_witness:
  "lookupRoom duel ''ZZZZ'' = None
   \<and> playerState ''s1'' ''ZZZZ'' ''p1'' 5 6 0 0 90 False None duel = (duel, [])
   \<and> playerHit ''ZZZZ'' ''p1'' ''p2'' duel = (duel, [])
   \<and> playerDied ''ZZZZ'' ''p1'' duel = (duel, [])
   \<and> joinGame ''s1'' ''ZZZZ'' ''p1'' ''Alice'' duel
       = (duel, [Emit (ToSocket ''s1'') (ErrorEvent ''Room not found'')])"
proof -
  have unknown: "lookupRoom duel ''ZZZZ'' = None"
    by (simp add: duel_def lobby_def joinRoom_def createRoom_def emptyState_def lookupRoom_def
        Let_def)
  from unknown_reference_ignored [of duel "''ZZZZ''" "''p1''" "''s1''" 5 6 0 0 90 False None
      None "''p2''" "''Alice''"] unknown
  show ?thesis by blast
qed

text \<open>
  Claim C7 as stated fails for \<^verbatim>\<open>joinGame\<close>: on the empty server, a \<^verbatim>\<open>joinGame\<close> for room
  ZZZZ emits an event to the sender.
\<close>

theorem joinGame_unknown_room_answers:
  "lookupRoom emptyState ''ZZZZ'' = None
   \<and> snd (joinGame ''s1'' ''ZZZZ'' ''p9'' ''Eve'' emptyState)
       = [Emit (ToSocket ''s1'') (ErrorEvent ''Room not found'')]
   \<and> snd (joinGame ''s1'' ''ZZZZ'' ''p9'' ''Eve'' emptyState) \<noteq> []"
  by (simp add: joinGame_def lookupRoom_def emptyState_def)

section \<open>The countdown\<close>

text \<open>
  One firing of an installed interval: a value other than 0 is emitted and decremented, 0
  is emitted, the interval removed, the players placed and the state broadcast; a handle
  without interval does nothing.
\<close>

lemma tick_running:
  "map_of (timers st) t = Some (a, c) \<Longrightarrow> heap st a = Some r \<Longrightarrow> c \<noteq> 0 \<Longrightarrow>
     countdownTick t st =
       (st\<lparr>timers := AList.update t (a, c - 1) (timers st)\<rparr>,
        [Emit (ToRoom (code r)) (Countdown c)])"
  by (simp add: countdownTick_def)

lemma tick_final:
  "map_of (timers st) t = Some (a, 0) \<Longrightarrow> heap st a = Some r \<Longrightarrow>
     countdownTick t st =
       (st\<lparr>heap := (heap st)(a \<mapsto> r\<lparr>players := placePlayers 0 (players r)\<rparr>),
           timers := AList.delete t (timers st)\<rparr>,
        [Emit (ToRoom (code r)) (Countdown 0),
         broadcastGameState (r\<lparr>players := placePlayers 0 (players r)\<rparr>)])"
  by (simp add: countdownTick_def Let_def)

lemma tick_cleared: "map_of (timers st) t = None \<Longrightarrow> countdownTick t st = (st, [])"
  by (simp add: countdownTick_def)

lemma fire_countdown:
  assumes "map_of (timers st) t = Some (a, 3)" and "heap st a = Some r"
  shows "fireTimes t 3 st =
           (st\<lparr>timers := AList.update t (a, 0) (timers st)\<rparr>,
            [[Emit (ToRoom (code r)) (Countdown 3)], [Emit (ToRoom (code r)) (Countdown 2)],
             [Emit (ToRoom (code r)) (Countdown 1)]])"
    and "fireTimes t 4 st =
           (st\<lparr>heap := (heap st)(a \<mapsto> r\<lparr>players := placePlayers 0 (players r)\<rparr>),
               timers := AList.delete t (timers st)\<rparr>,
            [[Emit (ToRoom (code r)) (Countdown 3)], [Emit (ToRoom (code r)) (Countdown 2)],
             [Emit (ToRoom (code r)) (Countdown 1)],
             [Emit (ToRoom (code r)) (Countdown 0),
              broadcastGameState (r\<lparr>players := placePlayers 0 (players r)\<rparr>)]])"
proof -
  let ?s1 = "st\<lparr>timers := AList.update t (a, 2) (timers st)\<rparr>"
  let ?s2 = "st\<lparr>timers := AList.update t (a, 1) (timers st)\<rparr>"
  let ?s3 = "st\<lparr>timers := AList.update t (a, 0) (timers st)\<rparr>"
  let ?r4 = "r\<lparr>players := placePlayers 0 (players r)\<rparr>"
  let ?s4 = "st\<lparr>heap := (heap st)(a \<mapsto> ?r4), timers := AList.delete t (timers st)\<rparr>"
  have t1: "countdownTick t st = (?s1, [Emit (ToRoom (code r)) (Countdown 3)])"
    using tick_running [OF assms] by simp
  have "map_of (timers ?s1) t = Some (a, 2)" "heap ?s1 a = Some r"
    using assms by (simp_all add: update_conv')
  from tick_running [OF this]
  have t2: "countdownTick t ?s1 = (?s2, [Emit (ToRoom (code r)) (Countdown 2)])"
    by simp
  have "map_of (timers ?s2) t = Some (a, 1)" "heap ?s2 a = Some r"
    using assms by (simp_all add: update_conv')
  from tick_running [OF this]
  have t3: "countdownTick t ?s2 = (?s3, [Emit (ToRoom (code r)) (Countdown 1)])"
    by simp
  have "map_of (timers ?s3) t = Some (a, 0)" "heap ?s3 a = Some r"
    using assms by (simp_all add: update_conv')
  from tick_final [OF this]
  have t4: "countdownTick t ?s3 =
      (?s4, [Emit (ToRoom (code r)) (Countdown 0), broadcastGameState ?r4])"
    by (simp add: delete_update_same)
  have "fireTimes t (Suc (Suc (Suc 0))) st =
           (?s3, [[Emit (ToRoom (code r)) (Countdown 3)], [Emit (ToRoom (code r)) (Countdown 2)],
             [Emit (ToRoom (code r)) (Countdown 1)]])"
    by (simp add: t1 t2 t3)
  then show "fireTimes t 3 st =
           (?s3, [[Emit (ToRoom (code r)) (Countdown 3)], [Emit (ToRoom (code r)) (Countdown 2)],
             [Emit (ToRoom (code r)) (Countdown 1)]])"
    by (simp add: numeral_3_eq_3)
  have "fireTimes t (Suc (Suc (Suc (Suc 0)))) st =
           (?s4, [[Emit (ToRoom (code r)) (Countdown 3)], [Emit (ToRoom (code r)) (Countdown 2)],
             [Emit (ToRoom (code r)) (Countdown 1)],
             [Emit (ToRoom (code r)) (Countdown 0), broadcastGameState ?r4]])"
    by (simp add: t1 t2 t3 t4)
  then show "fireTimes t 4 st =
           (?s4, [[Emit (ToRoom (code r)) (Countdown 3)], [Emit (ToRoom (code r)) (Countdown 2)],
             [Emit (ToRoom (code r)) (Countdown 1)],
             [Emit (ToRoom (code r)) (Countdown 0), broadcastGameState ?r4]])"
    by (simp add: eval_nat_numeral)
qed

lemma joinGame_starts:
  assumes look: "lookupRoom st rc = Some (a, r)" and idle: "\<not> gameStarted r"
    and two: "(map_of (players r) pid = None \<and> length (players r) = 1)
              \<or> (map_of (players r) pid \<noteq> None \<and> length (players r) = 2)"
  shows "\<exists>ps. length ps = 2
          \<and> ps = (if map_of (players r) pid = None
                  then players r @ [(pid, newPlayer pid pname sid)] else players r)
          \<and> joinGame sid rc pid pname st =
             (st\<lparr>heap := (heap st)(a \<mapsto> r\<lparr>players := ps, gameStarted := True\<rparr>),
                 bindings := AList.update sid \<lparr>playerId = pid, roomCode = rc\<rparr> (bindings st),
                 timers := AList.update (nextTimer st) (a, 3) (timers st),
                 nextTimer := Suc (nextTimer st)\<rparr>,
              [Join sid rc, broadcastGameState (r\<lparr>players := ps\<rparr>)])"
  using two
proof
  assume new: "map_of (players r) pid = None \<and> length (players r) = 1"
  then show ?thesis
    using look idle by (simp add: joinGame_def Let_def startGame_def update_fresh)
next
  assume old: "map_of (players r) pid \<noteq> None \<and> length (players r) = 2"
  then show ?thesis
    using look idle by (simp add: joinGame_def Let_def startGame_def)
qed

lemma length_two: "length ps = 2 \<Longrightarrow> \<exists>k1 p1 k2 p2. ps = [(k1, p1), (k2, p2)]"
  by (cases ps; cases "tl ps") auto

text \<open>
  No message handler touches an interval that is installed or takes a room object away,
  and a firing touches its own interval only. So the firings of one interval, with any
  other inputs between them, emit its closure values down to 0 and nothing afterwards.
\<close>

lemma extends_refl [simp]: "extends st st"
  by (simp add: extends_def)

lemma checkGameOver_code : "code (fst (checkGameOver rc l r)) = code r"
  using checkGameOver_cases [of rc l r] by auto

lemma createRoom_extends: "extends st (fst (createRoom sid pname c i st))"
  by (simp add: createRoom_def Let_def extends_def)

lemma joinRoom_extends: "extends st (fst (joinRoom sid pname rc i st))"
proof (cases "lookupRoom st rc")
  case None
  then show ?thesis by (simp add: joinRoom_def extends_def)
next
  case (Some ar)
  obtain a r where ar: "ar = (a, r)" by (cases ar)
  with Some have "heap st a = Some r" using lookupRoomD by blast
  with Some ar show ?thesis
    by (auto simp: joinRoom_def Let_def case_prod_beta extends_def checkGameOver_code
        split: option.splits)
qed

lemma joinRandomRoom_extends: "extends st (fst (joinRandomRoom sid pname c i st))"
  by (cases "findOpenRoom (heap st) (rooms st)")
    (simp_all add: joinRandomRoom_def joinRoom_extends Let_def, simp add: extends_def)

lemma joinGame_extends: "extends st (fst (joinGame sid rc pid pname st))"
proof (cases "lookupRoom st rc")
  case None
  then show ?thesis by (simp add: joinGame_def extends_def)
next
  case (Some ar)
  obtain a r where ar: "ar = (a, r)" by (cases ar)
  with Some have "heap st a = Some r" using lookupRoomD by blast
  with Some ar show ?thesis
    by (auto simp: joinGame_def Let_def case_prod_beta extends_def checkGameOver_code startGame_def update_conv'
        split: option.splits)
qed

lemma playerState_extends: "extends st (fst (playerState sid rc pid x y vx vy h d sh st))"
proof (cases "lookupRoom st rc")
  case None
  then show ?thesis by (simp add: playerState_def extends_def)
next
  case (Some ar)
  obtain a r where ar: "ar = (a, r)" by (cases ar)
  with Some have "heap st a = Some r" using lookupRoomD by blast
  with Some ar show ?thesis
    by (auto simp: playerState_def Let_def case_prod_beta extends_def checkGameOver_code
        split: option.splits)
qed

lemma swordSwing_extends: "extends st (fst (swordSwing sid rc pid hb st))"
proof (cases "lookupRoom st rc")
  case None
  then show ?thesis by (simp add: swordSwing_def extends_def)
next
  case (Some ar)
  obtain a r where ar: "ar = (a, r)" by (cases ar)
  with Some have "heap st a = Some r" using lookupRoomD by blast
  with Some ar show ?thesis
    by (auto simp: swordSwing_def Let_def case_prod_beta extends_def checkGameOver_code
        split: option.splits)
qed

lemma swordRelease_extends: "extends st (fst (swordRelease sid rc pid st))"
proof (cases "lookupRoom st rc")
  case None
  then show ?thesis by (simp add: swordRelease_def extends_def)
next
  case (Some ar)
  obtain a r where ar: "ar = (a, r)" by (cases ar)
  with Some have "heap st a = Some r" using lookupRoomD by blast
  with Some ar show ?thesis
    by (auto simp: swordRelease_def Let_def case_prod_beta extends_def checkGameOver_code
        split: option.splits)
qed

lemma playerRespawn_extends: "extends st (fst (playerRespawn sid rc pid st))"
proof (cases "lookupRoom st rc")
  case None
  then show ?thesis by (simp add: playerRespawn_def extends_def)
next
  case (Some ar)
  obtain a r where ar: "ar = (a, r)" by (cases ar)
  with Some have "heap st a = Some r" using lookupRoomD by blast
  with Some ar show ?thesis
    by (auto simp: playerRespawn_def Let_def case_prod_beta extends_def checkGameOver_code
        split: option.splits)
qed

lemma playerDied_extends: "extends st (fst (playerDied rc pid st))"
proof (cases "lookupRoom st rc")
  case None
  then show ?thesis by (simp add: playerDied_def extends_def)
next
  case (Some ar)
  obtain a r where ar: "ar = (a, r)" by (cases ar)
  with Some have "heap st a = Some r" using lookupRoomD by blast
  with Some ar show ?thesis
    by (auto simp: playerDied_def Let_def case_prod_beta extends_def checkGameOver_code
        split: option.splits)
qed

lemma playerHit_extends: "extends st (fst (playerHit rc targetId attackerId st))"
proof (cases "lookupRoom st rc")
  case None
  then show ?thesis by (simp add: playerHit_def extends_def)
next
  case (Some ar)
  obtain a r where ar: "ar = (a, r)" by (cases ar)
  with Some have "heap st a = Some r" using lookupRoomD by blast
  with Some ar show ?thesis
    by (auto simp: playerHit_def Let_def case_prod_beta extends_def checkGameOver_code
        split: option.splits)
qed

lemma disconnect_extends: "extends st (fst (disconnect sid st))"
proof (cases "map_of (bindings st) sid")
  case None
  then show ?thesis by (simp add: disconnect_def extends_def)
next
  case bound: (Some b)
  show ?thesis
  proof (cases "lookupRoom st (roomCode b)")
    case None
    with bound show ?thesis by (simp add: disconnect_def extends_def)
  next
    case (Some ar)
    obtain a r where ar: "ar = (a, r)" by (cases ar)
    with Some have "heap st a = Some r" using lookupRoomD by blast
    with Some ar bound show ?thesis
      by (auto simp: disconnect_def Let_def extends_def)
  qed
qed

lemma handle_extends: "extends st (fst (handle c i sid m st))"
  by (cases m)
    (simp_all add: createRoom_extends joinRandomRoom_extends joinRoom_extends joinGame_extends
      playerState_extends swordSwing_extends swordRelease_extends playerHit_extends
      playerDied_extends playerRespawn_extends disconnect_extends playerUpdate_def)

lemma ticking_extends:
  assumes "ticking t a c st" and "extends st st'" shows "ticking t a c st'"
proof -
  from assms(1) obtain r where r: "heap st a = Some r" and a: "a < nextAddr st"
    and t: "t < nextTimer st" and timer: "map_of (timers st) t = Some (a, c)"
    by (auto simp: ticking_def)
  from assms(2) a r have "map_option code (heap st' a) = Some (code r)"
    by (simp add: extends_def)
  then have "heap st' a \<noteq> None"
    by auto
  moreover from assms(2) t timer have "map_of (timers st') t = Some (a, c)"
    by (simp add: extends_def)
  moreover from assms(2) a t have "t < nextTimer st'" and "a < nextAddr st'"
    by (simp_all add: extends_def)
  ultimately show ?thesis
    by (simp add: ticking_def)
qed

lemma roomAt_extends:
  assumes "roomAt a rc st" and "extends st st'" shows "roomAt a rc st'"
proof -
  from assms(1) obtain r where r: "heap st a = Some r" and a: "a < nextAddr st"
    and rc: "code r = rc"
    by (auto simp: roomAt_def)
  from assms(2) a r have "map_option code (heap st' a) = Some (code r)"
    by (simp add: extends_def)
  moreover from assms(2) a have "a < nextAddr st'"
    by (simp add: extends_def)
  ultimately show ?thesis
    using rc by (simp add: roomAt_def)
qed

lemma roomAt_tick:
  assumes "roomAt a rc st" shows "roomAt a rc (fst (countdownTick t' st))"
proof (cases "map_of (timers st) t'")
  case None
  with assms show ?thesis by (simp add: countdownTick_def)
next
  case (Some bc)
  obtain b c' where bc: "bc = (b, c')" by (cases bc)
  from assms Some bc show ?thesis
    by (cases "heap st b") (auto simp: countdownTick_def Let_def roomAt_def)
qed

lemma step_roomAt: "roomAt a rc st \<Longrightarrow> roomAt a rc (fst (step g i inp st))"
  by (cases inp) (simp_all add: roomAt_tick roomAt_extends [OF _ handle_extends])

lemma cleared_extends: "cleared t st \<Longrightarrow> extends st st' \<Longrightarrow> cleared t st'"
  by (auto simp: cleared_def extends_def)

lemma ticking_other_timer:
  assumes "ticking t a c st" and "t' \<noteq> t"
  shows "ticking t a c (fst (countdownTick t' st))"
proof (cases "map_of (timers st) t'")
  case None
  with assms show ?thesis by (simp add: countdownTick_def)
next
  case (Some bc)
  obtain b c' where bc: "bc = (b, c')" by (cases bc)
  from assms Some bc show ?thesis
    by (cases "heap st b")
      (auto simp: countdownTick_def Let_def ticking_def update_conv' delete_conv')
qed

lemma cleared_any_timer:
  assumes "cleared t st" shows "cleared t (fst (countdownTick t' st))"
proof (cases "map_of (timers st) t'")
  case None
  with assms show ?thesis by (simp add: countdownTick_def)
next
  case (Some bc)
  obtain b c' where bc: "bc = (b, c')" by (cases bc)
  from assms Some bc show ?thesis
    by (cases "heap st b")
      (auto simp: countdownTick_def Let_def cleared_def update_conv' delete_conv')
qed

lemma step_ticking:
  assumes "ticking t a c st" and "inp \<noteq> TimerFires t"
  shows "ticking t a c (fst (step g i inp st))"
proof (cases inp)
  case (FromSocket sid m)
  with assms(1) show ?thesis
    using ticking_extends [OF _ handle_extends] by simp
next
  case (TimerFires t')
  with assms show ?thesis
    by (simp add: ticking_other_timer)
qed

lemma step_cleared: "cleared t st \<Longrightarrow> cleared t (fst (step g i inp st))"
  by (cases inp) (simp_all add: cleared_any_timer cleared_extends [OF _ handle_extends])

lemma fire_ticking:
  assumes "ticking t a c st" and "c \<noteq> 0"
  shows "ticking t a (c - 1) (fst (countdownTick t st))"
    and "countdownValues (snd (countdownTick t st)) = [c]"
  using assms
  by (auto simp: ticking_def countdownTick_def update_conv')

lemma fire_last:
  assumes "ticking t a 0 st"
  shows "cleared t (fst (countdownTick t st))"
    and "countdownValues (snd (countdownTick t st)) = [0]"
  using assms
  by (auto simp: ticking_def cleared_def countdownTick_def Let_def delete_conv'
      broadcastGameState_def gameStateOf_def)

lemma fire_cleared:
  "cleared t st \<Longrightarrow> countdownTick t st = (st, [])"
  by (simp add: cleared_def countdownTick_def)

lemma firingsOf_Cons:
  "firingsOf t ((inp, out) # tr) = (if inp = TimerFires t then out # firingsOf t tr else firingsOf t tr)"
  by (simp add: firingsOf_def)

lemma trace_cleared:
  "cleared t st \<Longrightarrow>
     map countdownValues (firingsOf t (runTrace ins st))
       = replicate (length (firingsOf t (runTrace ins st))) []"
proof (induction ins arbitrary: st)
  case Nil
  then show ?case by (simp add: firingsOf_def)
next
  case (Cons x ins)
  obtain g i inp where x: "x = (g, i, inp)" by (cases x)
  from Cons.prems have next_cleared: "cleared t (fst (step g i inp st))"
    by (rule step_cleared)
  show ?case
  proof (cases "inp = TimerFires t")
    case True
    with Cons.prems have "step g i inp st = (st, [])"
      by (simp add: fire_cleared)
    with Cons.IH [OF Cons.prems] x True show ?thesis
      by (simp add: firingsOf_Cons)
  next
    case False
    with Cons.IH [OF next_cleared] x show ?thesis
      by (simp add: firingsOf_Cons case_prod_beta)
  qed
qed

lemma expected_negative: "c < 0 \<Longrightarrow> expected n c = replicate n []"
  by (induction n) auto

lemma trace_ticking:
  "ticking t a c st \<Longrightarrow> 0 \<le> c \<Longrightarrow>
     map countdownValues (firingsOf t (runTrace ins st))
       = expected (length (firingsOf t (runTrace ins st))) c"
proof (induction ins arbitrary: st c)
  case Nil
  then show ?case by (simp add: firingsOf_def)
next
  case (Cons x ins)
  obtain g i inp where x: "x = (g, i, inp)" by (cases x)
  show ?case
  proof (cases "inp = TimerFires t")
    case False
    with Cons.prems have "ticking t a c (fst (step g i inp st))"
      by (simp add: step_ticking)
    from Cons.IH [OF this Cons.prems(2)] x False show ?thesis
      by (simp add: firingsOf_Cons case_prod_beta)
  next
    case True
    show ?thesis
    proof (cases "c = 0")
      case False
      with Cons.prems have pos: "0 \<le> c - 1" by simp
      from fire_ticking [OF Cons.prems(1) False] Cons.IH [OF _ pos, of "fst (countdownTick t st)"]
        x True Cons.prems(2)
      show ?thesis
        by (simp add: firingsOf_Cons case_prod_beta)
    next
      case zero: True
      with Cons.prems have last: "ticking t a 0 st" by simp
      from trace_cleared [OF fire_last(1) [OF last], of ins] fire_last(2) [OF last] x True zero
      show ?thesis
        by (simp add: firingsOf_Cons case_prod_beta expected_negative)
    qed
  qed
qed

text \<open>
  The same for the whole effect of the firings: each firing does what the start sequence
  prescribes, in the state in which it happens.
\<close>

lemma run_cleared:
  "cleared t st \<Longrightarrow> c < 0 \<Longrightarrow> countdownRun t a rc c (runSteps ins st)"
proof (induction ins arbitrary: st)
  case Nil
  then show ?case by simp
next
  case (Cons x ins)
  obtain g i inp where x: "x = (g, i, inp)" by (cases x)
  from Cons.prems(1) have next_cleared: "cleared t (fst (step g i inp st))"
    by (rule step_cleared)
  show ?case
  proof (cases "inp = TimerFires t")
    case True
    with Cons.prems have "step g i inp st = (st, [])"
      by (simp add: fire_cleared)
    with Cons.IH [OF Cons.prems] x True Cons.prems(2) show ?thesis
      by simp
  next
    case False
    with Cons.IH [OF next_cleared Cons.prems(2)] x show ?thesis
      by (simp add: case_prod_beta)
  qed
qed

lemma run_ticking:
  "ticking t a c st \<Longrightarrow> 0 \<le> c \<Longrightarrow> roomAt a rc st \<Longrightarrow> countdownRun t a rc c (runSteps ins st)"
proof (induction ins arbitrary: st c)
  case Nil
  then show ?case by simp
next
  case (Cons x ins)
  obtain g i inp where x: "x = (g, i, inp)" by (cases x)
  from Cons.prems(3) have next_room: "roomAt a rc (fst (step g i inp st))"
    by (rule step_roomAt)
  show ?case
  proof (cases "inp = TimerFires t")
    case False
    with Cons.prems have "ticking t a c (fst (step g i inp st))"
      by (simp add: step_ticking)
    from Cons.IH [OF this Cons.prems(2) next_room] x False show ?thesis
      by (simp add: case_prod_beta)
  next
    case True
    from Cons.prems(1) have timer: "map_of (timers st) t = Some (a, c)"
      by (simp add: ticking_def)
    from Cons.prems(3) obtain r where r: "heap st a = Some r" and rc: "code r = rc"
      by (auto simp: roomAt_def)
    from next_room True have room': "roomAt a rc (fst (countdownTick t st))"
      by simp
    show ?thesis
    proof (cases "c = 0")
      case False
      with Cons.prems(2) have pos: "0 \<le> c - 1" and c: "0 < c" by simp_all
      have fire: "countdownTick t st =
          (st\<lparr>timers := AList.update t (a, c - 1) (timers st)\<rparr>, [Emit (ToRoom rc) (Countdown c)])"
        using tick_running [OF timer r False] rc by simp
      from fire_ticking(1) [OF Cons.prems(1) False]
      have "ticking t a (c - 1) (fst (countdownTick t st))" .
      from Cons.IH [OF this pos room']
      have "countdownRun t a rc (c - 1)
          (runSteps ins (st\<lparr>timers := AList.update t (a, c - 1) (timers st)\<rparr>))"
        by (simp add: fire)
      with x True c fire show ?thesis
        by simp
    next
      case zero: True
      with Cons.prems(1) have last: "ticking t a 0 st" by simp
      let ?r' = "r\<lparr>players := placePlayers 0 (players r)\<rparr>"
      let ?st' = "st\<lparr>heap := (heap st)(a \<mapsto> ?r'), timers := AList.delete t (timers st)\<rparr>"
      have fire: "countdownTick t st =
          (?st', [Emit (ToRoom rc) (Countdown 0), broadcastGameState ?r'])"
        using tick_final [OF timer [unfolded zero] r] rc by simp
      from fire_last(1) [OF last] have "cleared t ?st'"
        by (simp add: fire)
      then have rest: "countdownRun t a rc (- 1) (runSteps ins ?st')"
        by (rule run_cleared) simp
      have now: "\<exists>r. heap st a = Some r
           \<and> [Emit (ToRoom rc) (Countdown 0), broadcastGameState ?r']
               = [Emit (ToRoom rc) (Countdown 0),
                    broadcastGameState (r\<lparr>players := placePlayers 0 (players r)\<rparr>)]
           \<and> ?st' = st\<lparr>heap := (heap st)(a \<mapsto> r\<lparr>players := placePlayers 0 (players r)\<rparr>),
                    timers := AList.delete t (timers st)\<rparr>"
        using r by simp
      from x True zero fire now rest show ?thesis
        by simp
    qed
  qed
qed

lemma placePlayers_later:
  "placePlayers (Suc i) ps = map (\<lambda>(k, p). (k, p\<lparr>posX := 750, posY := 300\<rparr>)) ps"
  by (induction ps arbitrary: i) auto

lemma placePlayers_first:
  "placePlayers 0 ((k, p) # ps)
     = (k, p\<lparr>posX := 250, posY := 300\<rparr>) # map (\<lambda>(k, p). (k, p\<lparr>posX := 750, posY := 300\<rparr>)) ps"
  by (simp add: placePlayers_later)

text \<open>Every state reached from the empty server is well-formed.\<close>

lemma wellFormed_empty: "wellFormed emptyState"
  by (simp add: wellFormed_def emptyState_def)

lemma wellFormed_address:
  "wellFormed st \<Longrightarrow> lookupRoom st rc = Some (a, r) \<Longrightarrow> a < nextAddr st"
  using lookupRoomD [of st rc a r]
  by (auto simp: wellFormed_def list_all_iff dest: map_of_SomeD)

lemma wellFormed_same:
  "wellFormed st \<Longrightarrow> rooms st' = rooms st \<Longrightarrow> nextAddr st' = nextAddr st \<Longrightarrow> wellFormed st'"
  by (simp add: wellFormed_def)

lemma wellFormed_grow:
  assumes "wellFormed st"
  shows "list_all (\<lambda>(rc, a). a < Suc (nextAddr st)) (AList.update c (nextAddr st) (rooms st))"
proof (rule list_all_update)
  from assms show "list_all (\<lambda>(rc, a). a < Suc (nextAddr st)) (rooms st)"
    by (auto simp: wellFormed_def list_all_iff)
qed simp

lemma handle_wellFormed:
  assumes "wellFormed st" shows "wellFormed (fst (handle c i sid m st))"
proof (cases m)
  case (CreateRoom pname)
  with wellFormed_grow [OF assms] show ?thesis
    by (simp add: createRoom_def Let_def wellFormed_def)
next
  case (JoinRandomRoom pname)
  with wellFormed_grow [OF assms] assms show ?thesis
    by (cases "findOpenRoom (heap st) (rooms st)";
        cases "lookupRoom st (the (findOpenRoom (heap st) (rooms st)))")
      (auto simp: joinRandomRoom_def joinRoom_def Let_def wellFormed_def)
next
  case (JoinRoom pname rc)
  with assms show ?thesis
    by (cases "lookupRoom st rc") (auto simp: joinRoom_def wellFormed_def)
next
  case (JoinGame rc pid pname)
  with assms show ?thesis
    by (cases "lookupRoom st rc") (auto simp: joinGame_def Let_def startGame_def wellFormed_def)
next
  case (PlayerState rc pid x y vx vy h d sh)
  with assms show ?thesis
    by (cases "lookupRoom st rc")
      (auto simp: playerState_def Let_def wellFormed_def split: option.splits)
next
  case (PlayerUpdate rc pid mx my)
  with assms show ?thesis by (simp add: playerUpdate_def)
next
  case (SwordSwing rc pid hb)
  with assms show ?thesis
    by (cases "lookupRoom st rc")
      (auto simp: swordSwing_def Let_def wellFormed_def split: option.splits)
next
  case (SwordRelease rc pid)
  with assms show ?thesis
    by (cases "lookupRoom st rc")
      (auto simp: swordRelease_def Let_def wellFormed_def split: option.splits)
next
  case (PlayerHit rc targetId attackerId)
  with assms show ?thesis
    by (cases "lookupRoom st rc")
      (auto simp: playerHit_def Let_def case_prod_beta wellFormed_def split: option.splits)
next
  case (PlayerDied rc pid)
  with assms show ?thesis
    by (cases "lookupRoom st rc")
      (auto simp: playerDied_def Let_def case_prod_beta wellFormed_def split: option.splits)
next
  case (PlayerRespawn rc pid)
  with assms show ?thesis
    by (cases "lookupRoom st rc")
      (auto simp: playerRespawn_def wellFormed_def split: option.splits)
next
  case Disconnect
  with assms show ?thesis
    by (cases "map_of (bindings st) sid";
        cases "lookupRoom st (roomCode (the (map_of (bindings st) sid)))")
      (auto simp: disconnect_def Let_def wellFormed_def list_all_delete)
qed

lemma countdownTick_wellFormed:
  assumes "wellFormed st" shows "wellFormed (fst (countdownTick t st))"
proof (cases "map_of (timers st) t")
  case None
  with assms show ?thesis by (simp add: countdownTick_def)
next
  case (Some bc)
  obtain b c where bc: "bc = (b, c)" by (cases bc)
  from assms Some bc show ?thesis
    by (cases "heap st b") (auto simp: countdownTick_def Let_def wellFormed_def)
qed

lemma step_wellFormed: "wellFormed st \<Longrightarrow> wellFormed (fst (step c i inp st))"
  by (cases inp) (simp_all add: handle_wellFormed countdownTick_wellFormed)

lemma runAll_wellFormed: "wellFormed st \<Longrightarrow> wellFormed (runAll ins st)"
  by (induction ins arbitrary: st) (auto simp: step_wellFormed)

lemma expected_three:
  "expected k 3 = take k [[3], [2], [1], [0]] @ replicate (k - 4) []"
proof -
  consider "k = 0" | "k = 1" | "k = 2" | "k = 3" | n where "k = Suc (Suc (Suc (Suc n)))"
    by (metis One_nat_def Suc_1 numeral_3_eq_3 not0_implies_Suc)
  then show ?thesis
  proof cases
    case 5
    then show ?thesis by (simp add: expected_negative)
  qed (simp_all add: numeral_2_eq_2 numeral_3_eq_3)
qed

lemma interleaved:
  assumes look: "lookupRoom st rc = Some (a, r)" and idle: "\<not> gameStarted r"
    and two: "(map_of (players r) pid = None \<and> length (players r) = 1)
              \<or> (map_of (players r) pid \<noteq> None \<and> length (players r) = 2)"
    and join: "joinGame sid rc pid pname st = (st1, out)"
    and wf: "wellFormed st"
  shows "map countdownValues (firingsOf (nextTimer st) (runTrace ins st1))
           = take (length (firingsOf (nextTimer st) (runTrace ins st1))) [[3], [2], [1], [0]]
             @ replicate (length (firingsOf (nextTimer st) (runTrace ins st1)) - 4) []"
proof -
  from joinGame_starts [OF look idle two, of pname sid] join obtain ps where
    st1: "st1 = st\<lparr>heap := (heap st)(a \<mapsto> r\<lparr>players := ps, gameStarted := True\<rparr>),
                 bindings := AList.update sid \<lparr>playerId = pid, roomCode = rc\<rparr> (bindings st),
                 timers := AList.update (nextTimer st) (a, 3) (timers st),
                 nextTimer := Suc (nextTimer st)\<rparr>"
    by auto
  from wf look have "a < nextAddr st"
    by (rule wellFormed_address)
  then have "ticking (nextTimer st) a 3 st1"
    by (simp add: ticking_def st1 update_conv')
  from trace_ticking [OF this, of ins] show ?thesis
    by (simp add: expected_three)
qed

text \<open>
  Only \<^verbatim>\<open>joinGame\<close> starts a game: every other message, and every firing, installs no
  interval and sets no \<open>gameStarted\<close>; no message handler emits a countdown value, and a
  firing emits one only for an interval that is installed.
\<close>

lemma startsNothing_refl: "startsNothing st st"
  by (simp add: startsNothing_def)

lemma startsNothing_trans:
  "startsNothing st st' \<Longrightarrow> startsNothing st' st'' \<Longrightarrow> startsNothing st st''"
  by (simp add: startsNothing_def)

lemma checkGameOver_flag: "gameStarted (fst (checkGameOver rc l r)) = (gameStarted r \<and>
    fst (checkGameOver rc l r) = r)"
  using checkGameOver_cases [of rc l r] by auto

lemma createRoom_startsNothing: "startsNothing st (fst (createRoom sid pname c i st))"
  by (auto simp: createRoom_def Let_def startsNothing_def installed_def startedAt_def
      split: option.splits if_splits)

lemma joinRoom_startsNothing: "startsNothing st (fst (joinRoom sid pname rc i st))"
proof (cases "lookupRoom st rc")
  case None
  then show ?thesis by (simp add: joinRoom_def startsNothing_def)
next
  case (Some ar)
  obtain a r where ar: "ar = (a, r)" by (cases ar)
  with Some have "heap st a = Some r" using lookupRoomD by blast
  with Some ar show ?thesis
    by (auto simp: joinRoom_def Let_def case_prod_beta startsNothing_def installed_def startedAt_def
        checkGameOver_flag split: option.splits if_splits)
qed

lemma joinRandomRoom_startsNothing: "startsNothing st (fst (joinRandomRoom sid pname c i st))"
proof (cases "findOpenRoom (heap st) (rooms st)")
  case None
  then show ?thesis
    by (auto simp: joinRandomRoom_def Let_def startsNothing_def installed_def startedAt_def
        split: option.splits if_splits)
next
  case (Some rc)
  then show ?thesis
    by (simp add: joinRandomRoom_def joinRoom_startsNothing)
qed

lemma playerState_startsNothing: "startsNothing st (fst (playerState sid rc pid x y vx vy h d sh st))"
proof (cases "lookupRoom st rc")
  case None
  then show ?thesis by (simp add: playerState_def startsNothing_def)
next
  case (Some ar)
  obtain a r where ar: "ar = (a, r)" by (cases ar)
  with Some have "heap st a = Some r" using lookupRoomD by blast
  with Some ar show ?thesis
    by (auto simp: playerState_def Let_def case_prod_beta startsNothing_def installed_def startedAt_def
        checkGameOver_flag split: option.splits if_splits)
qed

lemma swordSwing_startsNothing: "startsNothing st (fst (swordSwing sid rc pid hb st))"
proof (cases "lookupRoom st rc")
  case None
  then show ?thesis by (simp add: swordSwing_def startsNothing_def)
next
  case (Some ar)
  obtain a r where ar: "ar = (a, r)" by (cases ar)
  with Some have "heap st a = Some r" using lookupRoomD by blast
  with Some ar show ?thesis
    by (auto simp: swordSwing_def Let_def case_prod_beta startsNothing_def installed_def startedAt_def
        checkGameOver_flag split: option.splits if_splits)
qed

lemma swordRelease_startsNothing: "startsNothing st (fst (swordRelease sid rc pid st))"
proof (cases "lookupRoom st rc")
  case None
  then show ?thesis by (simp add: swordRelease_def startsNothing_def)
next
  case (Some ar)
  obtain a r where ar: "ar = (a, r)" by (cases ar)
  with Some have "heap st a = Some r" using lookupRoomD by blast
  with Some ar show ?thesis
    by (auto simp: swordRelease_def Let_def case_prod_beta startsNothing_def installed_def startedAt_def
        checkGameOver_flag split: option.splits if_splits)
qed

lemma playerRespawn_startsNothing: "startsNothing st (fst (playerRespawn sid rc pid st))"
proof (cases "lookupRoom st rc")
  case None
  then show ?thesis by (simp add: playerRespawn_def startsNothing_def)
next
  case (Some ar)
  obtain a r where ar: "ar = (a, r)" by (cases ar)
  with Some have "heap st a = Some r" using lookupRoomD by blast
  with Some ar show ?thesis
    by (auto simp: playerRespawn_def Let_def case_prod_beta startsNothing_def installed_def startedAt_def
        checkGameOver_flag split: option.splits if_splits)
qed

lemma playerDied_startsNothing: "startsNothing st (fst (playerDied rc pid st))"
proof (cases "lookupRoom st rc")
  case None
  then show ?thesis by (simp add: playerDied_def startsNothing_def)
next
  case (Some ar)
  obtain a r where ar: "ar = (a, r)" by (cases ar)
  with Some have "heap st a = Some r" using lookupRoomD by blast
  with Some ar show ?thesis
    by (auto simp: playerDied_def Let_def case_prod_beta startsNothing_def installed_def startedAt_def
        checkGameOver_flag split: option.splits if_splits)
qed

lemma playerHit_startsNothing: "startsNothing st (fst (playerHit rc targetId attackerId st))"
proof (cases "lookupRoom st rc")
  case None
  then show ?thesis by (simp add: playerHit_def startsNothing_def)
next
  case (Some ar)
  obtain a r where ar: "ar = (a, r)" by (cases ar)
  with Some have "heap st a = Some r" using lookupRoomD by blast
  with Some ar show ?thesis
    by (auto simp: playerHit_def Let_def case_prod_beta startsNothing_def installed_def startedAt_def
        checkGameOver_flag split: option.splits if_splits)
qed

lemma disconnect_startsNothing: "startsNothing st (fst (disconnect sid st))"
proof (cases "map_of (bindings st) sid")
  case None
  then show ?thesis by (simp add: disconnect_def startsNothing_def)
next
  case bound: (Some b)
  show ?thesis
  proof (cases "lookupRoom st (roomCode b)")
    case None
    with bound show ?thesis
      by (simp add: disconnect_def startsNothing_def installed_def startedAt_def)
  next
    case (Some ar)
    obtain a r where ar: "ar = (a, r)" by (cases ar)
    with Some have "heap st a = Some r" using lookupRoomD by blast
    with Some ar bound show ?thesis
      by (auto simp: disconnect_def Let_def startsNothing_def installed_def startedAt_def
          split: option.splits if_splits)
  qed
qed

lemma countdownTick_startsNothing: "startsNothing st (fst (countdownTick t st))"
proof (cases "map_of (timers st) t")
  case None
  then show ?thesis by (simp add: countdownTick_def startsNothing_def)
next
  case (Some bc)
  obtain b c where bc: "bc = (b, c)" by (cases bc)
  from Some bc show ?thesis
    by (cases "heap st b")
      (auto simp: countdownTick_def Let_def startsNothing_def installed_def startedAt_def
        update_conv' delete_conv' split: option.splits if_splits)
qed

lemma step_startsNothing:
  assumes "\<not> isJoinGame inp" shows "startsNothing st (fst (step g i inp st))"
proof (cases inp)
  case (TimerFires t)
  then show ?thesis by (simp add: countdownTick_startsNothing)
next
  case (FromSocket sid m)
  with assms show ?thesis
    by (cases m)
      (simp_all add: createRoom_startsNothing joinRandomRoom_startsNothing
        joinRoom_startsNothing playerState_startsNothing swordSwing_startsNothing
        swordRelease_startsNothing playerHit_startsNothing playerDied_startsNothing
        playerRespawn_startsNothing disconnect_startsNothing playerUpdate_def
        startsNothing_refl)
qed

lemma runAll_startsNothing: "noJoinGame ins \<Longrightarrow> startsNothing st (runAll ins st)"
proof (induction ins arbitrary: st)
  case Nil
  show ?case by (simp add: startsNothing_refl)
next
  case (Cons x ins)
  obtain g i inp where x: "x = (g, i, inp)" by (cases x)
  from Cons.prems x have quiet: "\<not> isJoinGame inp" and rest: "noJoinGame ins"
    by (simp_all add: noJoinGame_def)
  from startsNothing_trans [OF step_startsNothing [OF quiet] Cons.IH [OF rest]] x
  show ?case by simp
qed

lemma countdownValues_over: "countdownValues (snd (checkGameOver rc l r)) = []"
  using checkGameOver_cases [of rc l r] by auto

lemma countdownValues_append:
  "countdownValues (es @ fs) = countdownValues es @ countdownValues fs"
  by (induction es rule: countdownValues.induct) auto

lemma handle_no_countdown: "countdownValues (snd (handle c i sid m st)) = []"
proof (cases m)
  case (CreateRoom pname)
  then show ?thesis by (simp add: createRoom_def Let_def)
next
  case (JoinRandomRoom pname)
  then show ?thesis
    by (simp add: joinRandomRoom_def joinRoom_def Let_def split: option.splits)
next
  case (JoinRoom pname rc)
  then show ?thesis by (simp add: joinRoom_def split: option.splits)
next
  case (JoinGame rc pid pname)
  then show ?thesis
    by (simp add: joinGame_def Let_def broadcastGameState_def gameStateOf_def
        split: option.splits)
next
  case (PlayerState rc pid x y vx vy h d sh)
  then show ?thesis
    by (simp add: playerState_def Let_def gameStateOf_def split: option.splits)
next
  case (PlayerUpdate rc pid mx my)
  then show ?thesis by (simp add: playerUpdate_def)
next
  case (SwordSwing rc pid hb)
  then show ?thesis by (simp add: swordSwing_def Let_def split: option.splits)
next
  case (SwordRelease rc pid)
  then show ?thesis by (simp add: swordRelease_def Let_def split: option.splits)
next
  case (PlayerHit rc targetId attackerId)
  then show ?thesis
    by (simp add: playerHit_def Let_def case_prod_beta countdownValues_append
        countdownValues_over split: option.splits)
next
  case (PlayerDied rc pid)
  then show ?thesis
    by (simp add: playerDied_def Let_def case_prod_beta countdownValues_over
        split: option.splits)
next
  case (PlayerRespawn rc pid)
  then show ?thesis by (simp add: playerRespawn_def split: option.splits)
next
  case Disconnect
  then show ?thesis by (simp add: disconnect_def Let_def split: option.splits)
qed

lemma tick_not_installed:
  "\<not> installed st t \<Longrightarrow> snd (countdownTick t st) = []"
  by (cases "map_of (timers st) t") (simp_all add: installed_def countdownTick_def)

lemma runTrace_onlyOld:
  "startsNothing st0 st \<Longrightarrow> noJoinGame ins \<Longrightarrow> onlyOldIntervals st0 (runTrace ins st)"
proof (induction ins arbitrary: st)
  case Nil
  show ?case by (simp add: onlyOldIntervals_def)
next
  case (Cons x ins)
  obtain g i inp where x: "x = (g, i, inp)" by (cases x)
  from Cons.prems x have quiet: "\<not> isJoinGame inp" and rest: "noJoinGame ins"
    by (simp_all add: noJoinGame_def)
  from startsNothing_trans [OF Cons.prems(1) step_startsNothing [OF quiet]]
  have "startsNothing st0 (fst (step g i inp st))" .
  from Cons.IH [OF this rest]
  have tail: "onlyOldIntervals st0 (runTrace ins (fst (step g i inp st)))" .
  have head: "countdownValues (snd (step g i inp st)) = []
      \<or> (case inp of TimerFires t \<Rightarrow> installed st0 t | FromSocket sid m \<Rightarrow> False)"
  proof (cases inp)
    case (FromSocket sid m)
    then show ?thesis by (simp add: handle_no_countdown)
  next
    case (TimerFires t)
    show ?thesis
    proof (cases "installed st t")
      case True
      with Cons.prems(1) have "installed st0 t"
        by (simp add: startsNothing_def)
      with TimerFires show ?thesis by simp
    next
      case False
      with TimerFires show ?thesis by (simp add: tick_not_installed)
    qed
  qed
  from head tail x show ?case
    by (simp add: onlyOldIntervals_def case_prod_beta)
qed

lemma mixed_values:
  "wellFormed duel"
  "length (firingsOf (nextTimer duel) (runTrace mixed started)) = 5"
  by code_simp+

lemma interleaved_run:
  assumes look: "lookupRoom st rc = Some (a, r)" and idle: "\<not> gameStarted r"
    and two: "(map_of (players r) pid = None \<and> length (players r) = 1)
              \<or> (map_of (players r) pid \<noteq> None \<and> length (players r) = 2)"
    and join: "joinGame sid rc pid pname st = (st1, out)"
    and wf: "wellFormed st"
  shows "countdownRun (nextTimer st) a (code r) 3 (runSteps ins st1)"
proof -
  from joinGame_starts [OF look idle two, of pname sid] join obtain ps where
    st1: "st1 = st\<lparr>heap := (heap st)(a \<mapsto> r\<lparr>players := ps, gameStarted := True\<rparr>),
                 bindings := AList.update sid \<lparr>playerId = pid, roomCode = rc\<rparr> (bindings st),
                 timers := AList.update (nextTimer st) (a, 3) (timers st),
                 nextTimer := Suc (nextTimer st)\<rparr>"
    by auto
  from wf look have a: "a < nextAddr st"
    by (rule wellFormed_address)
  then have tick: "ticking (nextTimer st) a 3 st1"
    by (simp add: ticking_def st1 update_conv')
  from a have "roomAt a (code r) st1"
    by (simp add: roomAt_def st1)
  from run_ticking [OF tick _ this, of ins] show ?thesis
    by simp
qed

lemma mixed_placement:
  "map (\<lambda>(s, inp, out, s'). (map_option posX (findPlayer s ''AB12'' ''p1''),
          map_option posX (findPlayer s' ''AB12'' ''p1''),
          map_option posX (findPlayer s' ''AB12'' ''p2''), length out))
      (filter (\<lambda>(s, inp, out, s'). inp = TimerFires (nextTimer duel)) (runSteps mixed started))
     = [(Some 0, Some 0, Some 0, 1), (Some 40, Some 40, Some 0, 1), (Some 40, Some 40, Some 0, 1),
        (Some 40, Some 250, Some 750, 2), (Some 250, Some 250, Some 750, 0)]"
  by code_simp

lemma waiting_duel: "runAll (take 2 waiting) emptyState = duel"
  by (simp add: waiting_def duel_def lobby_def)

lemma waiting_values:
  "noJoinGame waiting"
  "timers (runAll waiting emptyState) = []"
  "nextTimer (runAll waiting emptyState) = 0"
  "map_option (\<lambda>(a, r). (map fst (players r), gameStarted r))
      (lookupRoom (runAll waiting emptyState) ''AB12'') = Some ([''p1'', ''p2''], False)"
  "map_option (\<lambda>(a, r). (map fst (players r), gameStarted r))
      (lookupRoom (runAll waiting emptyState) ''CD34'') = Some ([''p7'', ''p8''], False)"
  "map (\<lambda>(inp, out). countdownValues out) (runTrace waiting emptyState) = [[], [], [], [], [], []]"
  by code_simp+

text \<open>
  Claim C6, amended. The start sequence is triggered by the \<^verbatim>\<open>joinGame\<close> handler, when
  after its membership step the room has exactly two players and no game started (the
  sender was the missing second player, or both were there already). Then
  \<open>gameStarted\<close> is set and an interval with closure value 3 is installed under a new
  handle, after the handler has sent its \<^verbatim>\<open>gameState\<close> broadcast, which still shows the
  room not started. Its first four firings emit the countdown values 3, 2, 1, 0 in that
  order to the room, one per firing; the interval is still installed before the firing of 0 and
  removed by it, so a later firing of the handle does nothing; the firing of 0 places
  the first player in enumeration order at (250,300) and the second at (750,300) and
  broadcasts the full \<^verbatim>\<open>gameState\<close> of the room after the countdown value. The names
  \<open>st1\<close>, \<open>st4\<close>, \<open>st5\<close> stand for the states after \<^verbatim>\<open>joinGame\<close>, after three firings and
  after four. The player payload of that broadcast holds the views of the two placed
  players except one whose id is \<^verbatim>\<open>__proto__\<close>, in the enumeration order of a plain
  object; it is the list of both views, first player first, when neither id is
  \<^verbatim>\<open>__proto__\<close> or an array index.

  Whatever other inputs come between the firings (in a state whose registry holds
  allocated addresses, as every state reached from the empty server does), the firings
  of this interval emit 3, 2, 1, 0, one value each in that order, and nothing from the
  fifth firing on; and each firing does all that the sequence prescribes in the state
  in which it happens (\<open>countdownRun\<close>): at 3, 2 and 1 it emits the value alone and
  changes nothing but the closure value; at 0 it emits 0, places the players the room
  then has (the first at (250,300), every other one at (750,300)), broadcasts the room
  so placed and removes the interval; afterwards it emits nothing and changes nothing.

  Nothing but \<^verbatim>\<open>joinGame\<close> starts a game: along a run without a \<^verbatim>\<open>joinGame\<close> message no
  interval is installed, no room object becomes started, and a countdown value is
  emitted only by an interval that was installed before the run; in particular
  \<^verbatim>\<open>joinRoom\<close> and \<^verbatim>\<open>joinRandomRoom\<close> start nothing, whatever the player count they reach.
  The empty server is well-formed and every run keeps a state so.
\<close>

theorem start_sequence:
  assumes look: "lookupRoom st rc = Some (a, r)" and idle: "\<not> gameStarted r"
    and two: "(map_of (players r) pid = None \<and> length (players r) = 1)
              \<or> (map_of (players r) pid \<noteq> None \<and> length (players r) = 2)"
    and join: "joinGame sid rc pid pname st = (st1, out)"
    and three: "fireTimes (nextTimer st) 3 st1 = (st4, outs3)"
    and four: "fireTimes (nextTimer st) 4 st1 = (st5, outs)"
  shows "(\<exists>k1 p1 k2 p2.
           [(k1, p1), (k2, p2)]
             = (if map_of (players r) pid = None
                then players r @ [(pid, newPlayer pid pname sid)] else players r)
         \<and> lookupRoom st1 rc
             = Some (a, r\<lparr>players := [(k1, p1), (k2, p2)], gameStarted := True\<rparr>)
         \<and> map_of (timers st1) (nextTimer st) = Some (a, 3)
         \<and> nextTimer st1 = Suc (nextTimer st)
         \<and> out = [Join sid rc, broadcastGameState (r\<lparr>players := [(k1, p1), (k2, p2)]\<rparr>)]
         \<and> outs = [[Emit (ToRoom (code r)) (Countdown 3)],
                    [Emit (ToRoom (code r)) (Countdown 2)],
                    [Emit (ToRoom (code r)) (Countdown 1)],
                    [Emit (ToRoom (code r)) (Countdown 0),
                     broadcastGameState
                       (r\<lparr>players := [(k1, p1\<lparr>posX := 250, posY := 300\<rparr>),
                                       (k2, p2\<lparr>posX := 750, posY := 300\<rparr>)],
                          gameStarted := True\<rparr>)]]
         \<and> map_of (timers st4) (nextTimer st) = Some (a, 0)
         \<and> map_of (timers st5) (nextTimer st) = None
         \<and> lookupRoom st5 rc
             = Some (a, r\<lparr>players := [(k1, p1\<lparr>posX := 250, posY := 300\<rparr>),
                                       (k2, p2\<lparr>posX := 750, posY := 300\<rparr>)],
                          gameStarted := True\<rparr>)
         \<and> countdownTick (nextTimer st) st5 = (st5, [])
         \<and> (k1 \<noteq> k2 \<longrightarrow>
              getPlayersState
                (r\<lparr>players := [(k1, p1\<lparr>posX := 250, posY := 300\<rparr>),
                                       (k2, p2\<lparr>posX := 750, posY := 300\<rparr>)],
                          gameStarted := True\<rparr>)
              = ownProperties (filter (\<lambda>(k, v). k \<noteq> ''__proto__'')
                  [(k1, playerView (p1\<lparr>posX := 250, posY := 300\<rparr>)),
                   (k2, playerView (p2\<lparr>posX := 750, posY := 300\<rparr>))]))
         \<and> (k1 \<noteq> k2 \<and> k1 \<noteq> ''__proto__'' \<and> k2 \<noteq> ''__proto__''
              \<and> \<not> isArrayIndex k1 \<and> \<not> isArrayIndex k2 \<longrightarrow>
              getPlayersState
                (r\<lparr>players := [(k1, p1\<lparr>posX := 250, posY := 300\<rparr>),
                                       (k2, p2\<lparr>posX := 750, posY := 300\<rparr>)],
                          gameStarted := True\<rparr>)
              = [(k1, playerView (p1\<lparr>posX := 250, posY := 300\<rparr>)),
                 (k2, playerView (p2\<lparr>posX := 750, posY := 300\<rparr>))]))
       \<and> (wellFormed st \<longrightarrow>
            (\<forall>ins. map countdownValues (firingsOf (nextTimer st) (runTrace ins st1))
               = take (length (firingsOf (nextTimer st) (runTrace ins st1))) [[3], [2], [1], [0]]
                 @ replicate (length (firingsOf (nextTimer st) (runTrace ins st1)) - 4) []))
       \<and> (wellFormed st \<longrightarrow>
            (\<forall>ins. countdownRun (nextTimer st) a (code r) 3 (runSteps ins st1)))
       \<and> (\<forall>k p ps. placePlayers 0 ((k, p) # ps)
              = (k, p\<lparr>posX := 250, posY := 300\<rparr>)
                # map (\<lambda>(k, p). (k, p\<lparr>posX := 750, posY := 300\<rparr>)) ps)
       \<and> (\<forall>s ins. noJoinGame ins \<longrightarrow>
              startsNothing s (runAll ins s) \<and> onlyOldIntervals s (runTrace ins s))
       \<and> (\<forall>s conn nm cd newCode newId.
              startsNothing s (fst (joinRoom conn nm cd newId s))
              \<and> startsNothing s (fst (joinRandomRoom conn nm newCode newId s)))
       \<and> wellFormed emptyState
       \<and> (\<forall>s ins. wellFormed s \<longrightarrow> wellFormed (runAll ins s))"
proof -
  from joinGame_starts [OF look idle two, of pname sid] obtain ps where
    len: "length ps = 2" and
    who: "ps = (if map_of (players r) pid = None
                then players r @ [(pid, newPlayer pid pname sid)] else players r)" and
    run: "joinGame sid rc pid pname st =
             (st\<lparr>heap := (heap st)(a \<mapsto> r\<lparr>players := ps, gameStarted := True\<rparr>),
                 bindings := AList.update sid \<lparr>playerId = pid, roomCode = rc\<rparr> (bindings st),
                 timers := AList.update (nextTimer st) (a, 3) (timers st),
                 nextTimer := Suc (nextTimer st)\<rparr>,
              [Join sid rc, broadcastGameState (r\<lparr>players := ps\<rparr>)])"
    by blast
  from len obtain k1 p1 k2 p2 where ps: "ps = [(k1, p1), (k2, p2)]"
    using length_two by blast
  let ?r1 = "r\<lparr>players := [(k1, p1), (k2, p2)], gameStarted := True\<rparr>"
  let ?r4 = "r\<lparr>players := [(k1, p1\<lparr>posX := 250, posY := 300\<rparr>),
                            (k2, p2\<lparr>posX := 750, posY := 300\<rparr>)], gameStarted := True\<rparr>"
  let ?v1 = "playerView (p1\<lparr>posX := 250, posY := 300\<rparr>)"
  let ?v2 = "playerView (p2\<lparr>posX := 750, posY := 300\<rparr>)"
  from who ps have members: "[(k1, p1), (k2, p2)]
             = (if map_of (players r) pid = None
                then players r @ [(pid, newPlayer pid pname sid)] else players r)"
    by simp
  from look have reg: "map_of (rooms st) rc = Some a"
    using lookupRoomD by blast
  from join run ps have st1: "st1 =
      st\<lparr>heap := (heap st)(a \<mapsto> ?r1),
         bindings := AList.update sid \<lparr>playerId = pid, roomCode = rc\<rparr> (bindings st),
         timers := AList.update (nextTimer st) (a, 3) (timers st),
         nextTimer := Suc (nextTimer st)\<rparr>"
    by simp
  have timer: "map_of (timers st1) (nextTimer st) = Some (a, 3)" and obj: "heap st1 a = Some ?r1"
    by (simp_all add: st1 update_conv')
  have look1: "lookupRoom st1 rc = Some (a, ?r1)"
    using reg by (simp add: st1 lookupRoom_def)
  have fresh: "nextTimer st1 = Suc (nextTimer st)"
    by (simp add: st1)
  from join run ps
  have sent: "out = [Join sid rc, broadcastGameState (r\<lparr>players := [(k1, p1), (k2, p2)]\<rparr>)]"
    by simp
  have placed: "?r1\<lparr>players := placePlayers 0 (players ?r1)\<rparr> = ?r4"
    by (cases r) simp
  from fire_countdown(1) [OF timer obj] three
  have st4: "st4 = st1\<lparr>timers := AList.update (nextTimer st) (a, 0) (timers st1)\<rparr>"
    by simp
  have "code ?r1 = code r"
    by simp
  note all_four = fire_countdown(2) [OF timer obj, unfolded placed this]
  note both = trans [OF four [symmetric] all_four, unfolded prod.inject]
  have st5: "st5 = st1\<lparr>heap := (heap st1)(a \<mapsto> ?r4),
                        timers := AList.delete (nextTimer st) (timers st1)\<rparr>"
    using both by (rule conjunct1)
  have outs: "outs = [[Emit (ToRoom (code r)) (Countdown 3)],
                    [Emit (ToRoom (code r)) (Countdown 2)],
                    [Emit (ToRoom (code r)) (Countdown 1)],
                    [Emit (ToRoom (code r)) (Countdown 0), broadcastGameState ?r4]]"
    using both by (rule conjunct2)
  have t4: "map_of (timers st4) (nextTimer st) = Some (a, 0)"
    by (simp add: st4 update_conv')
  have t5: "map_of (timers st5) (nextTimer st) = None"
    by (simp add: st5 delete_conv')
  have look5: "lookupRoom st5 rc = Some (a, ?r4)"
    using reg by (simp add: st5 st1 lookupRoom_def)
  have quiet: "countdownTick (nextTimer st) st5 = (st5, [])"
    using t5 by (rule tick_cleared)
  have payload: "k1 \<noteq> k2 \<longrightarrow>
      getPlayersState ?r4
        = ownProperties (filter (\<lambda>(k, v). k \<noteq> ''__proto__'') [(k1, ?v1), (k2, ?v2)])"
  proof
    assume "k1 \<noteq> k2"
    then have "distinct (map fst (players ?r4))"
      by simp
    from getPlayersState_filter [OF this] show "getPlayersState ?r4
        = ownProperties (filter (\<lambda>(k, v). k \<noteq> ''__proto__'') [(k1, ?v1), (k2, ?v2)])"
      by simp
  qed
  have plain: "k1 \<noteq> k2 \<and> k1 \<noteq> ''__proto__'' \<and> k2 \<noteq> ''__proto__''
              \<and> \<not> isArrayIndex k1 \<and> \<not> isArrayIndex k2 \<longrightarrow>
      getPlayersState ?r4 = [(k1, ?v1), (k2, ?v2)]"
  proof
    assume ids: "k1 \<noteq> k2 \<and> k1 \<noteq> ''__proto__'' \<and> k2 \<noteq> ''__proto__''
              \<and> \<not> isArrayIndex k1 \<and> \<not> isArrayIndex k2"
    then have "distinct (map fst (players ?r4))"
      and "list_all (\<lambda>(k, p). k \<noteq> ''__proto__'' \<and> \<not> isArrayIndex k) (players ?r4)"
      by simp_all
    from getPlayersState_plain [OF this] show "getPlayersState ?r4 = [(k1, ?v1), (k2, ?v2)]"
      by simp
  qed
  have in_a_row: "\<exists>k1 p1 k2 p2.
           [(k1, p1), (k2, p2)]
             = (if map_of (players r) pid = None
                then players r @ [(pid, newPlayer pid pname sid)] else players r)
         \<and> lookupRoom st1 rc
             = Some (a, r\<lparr>players := [(k1, p1), (k2, p2)], gameStarted := True\<rparr>)
         \<and> map_of (timers st1) (nextTimer st) = Some (a, 3)
         \<and> nextTimer st1 = Suc (nextTimer st)
         \<and> out = [Join sid rc, broadcastGameState (r\<lparr>players := [(k1, p1), (k2, p2)]\<rparr>)]
         \<and> outs = [[Emit (ToRoom (code r)) (Countdown 3)],
                    [Emit (ToRoom (code r)) (Countdown 2)],
                    [Emit (ToRoom (code r)) (Countdown 1)],
                    [Emit (ToRoom (code r)) (Countdown 0),
                     broadcastGameState
                       (r\<lparr>players := [(k1, p1\<lparr>posX := 250, posY := 300\<rparr>),
                                       (k2, p2\<lparr>posX := 750, posY := 300\<rparr>)],
                          gameStarted := True\<rparr>)]]
         \<and> map_of (timers st4) (nextTimer st) = Some (a, 0)
         \<and> map_of (timers st5) (nextTimer st) = None
         \<and> lookupRoom st5 rc
             = Some (a, r\<lparr>players := [(k1, p1\<lparr>posX := 250, posY := 300\<rparr>),
                                       (k2, p2\<lparr>posX := 750, posY := 300\<rparr>)],
                          gameStarted := True\<rparr>)
         \<and> countdownTick (nextTimer st) st5 = (st5, [])
         \<and> (k1 \<noteq> k2 \<longrightarrow>
              getPlayersState
                (r\<lparr>players := [(k1, p1\<lparr>posX := 250, posY := 300\<rparr>),
                                       (k2, p2\<lparr>posX := 750, posY := 300\<rparr>)],
                          gameStarted := True\<rparr>)
              = ownProperties (filter (\<lambda>(k, v). k \<noteq> ''__proto__'')
                  [(k1, playerView (p1\<lparr>posX := 250, posY := 300\<rparr>)),
                   (k2, playerView (p2\<lparr>posX := 750, posY := 300\<rparr>))]))
         \<and> (k1 \<noteq> k2 \<and> k1 \<noteq> ''__proto__'' \<and> k2 \<noteq> ''__proto__''
              \<and> \<not> isArrayIndex k1 \<and> \<not> isArrayIndex k2 \<longrightarrow>
              getPlayersState
                (r\<lparr>players := [(k1, p1\<lparr>posX := 250, posY := 300\<rparr>),
                                       (k2, p2\<lparr>posX := 750, posY := 300\<rparr>)],
                          gameStarted := True\<rparr>)
              = [(k1, playerView (p1\<lparr>posX := 250, posY := 300\<rparr>)),
                 (k2, playerView (p2\<lparr>posX := 750, posY := 300\<rparr>))])"
    by (rule exI [of _ k1], rule exI [of _ p1], rule exI [of _ k2], rule exI [of _ p2])
      (intro conjI members look1 timer fresh sent outs t4 t5 look5 quiet payload plain)
  have among_others: "wellFormed st \<longrightarrow>
            (\<forall>ins. map countdownValues (firingsOf (nextTimer st) (runTrace ins st1))
               = take (length (firingsOf (nextTimer st) (runTrace ins st1))) [[3], [2], [1], [0]]
                 @ replicate (length (firingsOf (nextTimer st) (runTrace ins st1)) - 4) [])"
    using interleaved [OF look idle two join] by blast
  have in_full: "wellFormed st \<longrightarrow>
            (\<forall>ins. countdownRun (nextTimer st) a (code r) 3 (runSteps ins st1))"
    using interleaved_run [OF look idle two join] by blast
  have places: "\<forall>k p ps. placePlayers 0 ((k, p) # ps)
              = (k, p\<lparr>posX := 250, posY := 300\<rparr>)
                # map (\<lambda>(k, p). (k, p\<lparr>posX := 750, posY := 300\<rparr>)) ps"
    by (intro allI) (rule placePlayers_first)
  have only_join: "\<forall>s ins. noJoinGame ins \<longrightarrow>
              startsNothing s (runAll ins s) \<and> onlyOldIntervals s (runTrace ins s)"
    by (intro allI impI conjI runAll_startsNothing runTrace_onlyOld startsNothing_refl)
  have joiners: "\<forall>s conn nm cd newCode newId.
              startsNothing s (fst (joinRoom conn nm cd newId s))
              \<and> startsNothing s (fst (joinRandomRoom conn nm newCode newId s))"
    by (intro allI conjI joinRoom_startsNothing joinRandomRoom_startsNothing)
  have reached: "\<forall>s ins. wellFormed s \<longrightarrow> wellFormed (runAll ins s)"
    by (intro allI impI) (rule runAll_wellFormed)
  show ?thesis
    by (intro conjI in_a_row among_others in_full places only_join joiners wellFormed_empty
        reached)
qed

theorem start_sequence_witness:
  "lookupRoom duel ''AB12'' = Some (0, duelRoom) \<and> \<not> gameStarted duelRoom
   \<and> map_of (players duelRoom) ''p1'' \<noteq> None \<and> length (players duelRoom) = 2
   \<and> wellFormed duel
   \<and> (\<exists>k1 p1 k2 p2.
           [(k1, p1), (k2, p2)]
             = (if map_of (players duelRoom) ''p1'' = None
                then players duelRoom @ [(''p1'', newPlayer ''p1'' ''Alice'' ''s3'')] else players duelRoom)
         \<and> lookupRoom started ''AB12''
             = Some (0, duelRoom\<lparr>players := [(k1, p1), (k2, p2)], gameStarted := True\<rparr>)
         \<and> map_of (timers started) (nextTimer duel) = Some (0, 3)
         \<and> nextTimer started = Suc (nextTimer duel)
         \<and> snd (joinGame ''s3'' ''AB12'' ''p1'' ''Alice'' duel)
              = [Join ''s3'' ''AB12'', broadcastGameState (duelRoom\<lparr>players := [(k1, p1), (k2, p2)]\<rparr>)]
         \<and> snd (fireTimes (nextTimer duel) 4 started) = [[Emit (ToRoom (code duelRoom)) (Countdown 3)],
                    [Emit (ToRoom (code duelRoom)) (Countdown 2)],
                    [Emit (ToRoom (code duelRoom)) (Countdown 1)],
                    [Emit (ToRoom (code duelRoom)) (Countdown 0),
                     broadcastGameState
                       (duelRoom\<lparr>players := [(k1, p1\<lparr>posX := 250, posY := 300\<rparr>),
                                       (k2, p2\<lparr>posX := 750, posY := 300\<rparr>)],
                          gameStarted := True\<rparr>)]]
         \<and> map_of (timers (fst (fireTimes (nextTimer duel) 3 started))) (nextTimer duel) = Some (0, 0)
         \<and> map_of (timers arena) (nextTimer duel) = None
         \<and> lookupRoom arena ''AB12''
             = Some (0, duelRoom\<lparr>players := [(k1, p1\<lparr>posX := 250, posY := 300\<rparr>),
                                       (k2, p2\<lparr>posX := 750, posY := 300\<rparr>)],
                          gameStarted := True\<rparr>)
         \<and> countdownTick (nextTimer duel) arena = (arena, [])
         \<and> (k1 \<noteq> k2 \<longrightarrow>
              getPlayersState
                (duelRoom\<lparr>players := [(k1, p1\<lparr>posX := 250, posY := 300\<rparr>),
                                       (k2, p2\<lparr>posX := 750, posY := 300\<rparr>)],
                          gameStarted := True\<rparr>)
              = ownProperties (filter (\<lambda>(k, v). k \<noteq> ''__proto__'')
                  [(k1, playerView (p1\<lparr>posX := 250, posY := 300\<rparr>)),
                   (k2, playerView (p2\<lparr>posX := 750, posY := 300\<rparr>))]))
         \<and> (k1 \<noteq> k2 \<and> k1 \<noteq> ''__proto__'' \<and> k2 \<noteq> ''__proto__''
              \<and> \<not> isArrayIndex k1 \<and> \<not> isArrayIndex k2 \<longrightarrow>
              getPlayersState
                (duelRoom\<lparr>players := [(k1, p1\<lparr>posX := 250, posY := 300\<rparr>),
                                       (k2, p2\<lparr>posX := 750, posY := 300\<rparr>)],
                          gameStarted := True\<rparr>)
              = [(k1, playerView (p1\<lparr>posX := 250, posY := 300\<rparr>)),
                 (k2, playerView (p2\<lparr>posX := 750, posY := 300\<rparr>))]))
   \<and> map countdownValues (firingsOf (nextTimer duel) (runTrace mixed started))
       = [[3], [2], [1], [0], []]
   \<and> countdownRun (nextTimer duel) 0 (code duelRoom) 3 (runSteps mixed started)
   \<and> map (\<lambda>(s, inp, out, s'). (map_option posX (findPlayer s ''AB12'' ''p1''),
          map_option posX (findPlayer s' ''AB12'' ''p1''),
          map_option posX (findPlayer s' ''AB12'' ''p2''), length out))
      (filter (\<lambda>(s, inp, out, s'). inp = TimerFires (nextTimer duel)) (runSteps mixed started))
     = [(Some 0, Some 0, Some 0, 1), (Some 40, Some 40, Some 0, 1), (Some 40, Some 40, Some 0, 1),
        (Some 40, Some 250, Some 750, 2), (Some 250, Some 250, Some 750, 0)]
   \<and> noJoinGame waiting
   \<and> startsNothing emptyState (runAll waiting emptyState)
   \<and> onlyOldIntervals emptyState (runTrace waiting emptyState)
   \<and> timers (runAll waiting emptyState) = [] \<and> nextTimer (runAll waiting emptyState) = 0
   \<and> map_option (\<lambda>(a, r). (map fst (players r), gameStarted r))
        (lookupRoom (runAll waiting emptyState) ''AB12'') = Some ([''p1'', ''p2''], False)
   \<and> map_option (\<lambda>(a, r). (map fst (players r), gameStarted r))
        (lookupRoom (runAll waiting emptyState) ''CD34'') = Some ([''p7'', ''p8''], False)
   \<and> startsNothing lobby (fst (joinRoom ''s2'' ''Bob'' ''AB12'' ''p2'' lobby))
   \<and> startsNothing lobby (fst (joinRandomRoom ''s2'' ''Bob'' ''CD34'' ''p2'' lobby))
   \<and> wellFormed (runAll (take 2 waiting) emptyState)
   \<and> runAll (take 2 waiting) emptyState = duel"
proof -
  have idle: "\<not> gameStarted duelRoom" and here: "map_of (players duelRoom) ''p1'' \<noteq> None"
    and len: "length (players duelRoom) = 2"
    by (simp_all add: duelRoom_def)
  from here len have two: "(map_of (players duelRoom) ''p1'' = None \<and> length (players duelRoom) = 1)
              \<or> (map_of (players duelRoom) ''p1'' \<noteq> None \<and> length (players duelRoom) = 2)"
    by simp
  have join: "joinGame ''s3'' ''AB12'' ''p1'' ''Alice'' duel
      = (started, snd (joinGame ''s3'' ''AB12'' ''p1'' ''Alice'' duel))"
    by (simp add: started_def)
  have three: "fireTimes (nextTimer duel) 3 started
      = (fst (fireTimes (nextTimer duel) 3 started), snd (fireTimes (nextTimer duel) 3 started))"
    by simp
  have four: "fireTimes (nextTimer duel) 4 started
      = (arena, snd (fireTimes (nextTimer duel) 4 started))"
    by (simp add: arena_def)
  note run = start_sequence [OF lookup_duel idle two join three four]
  note rest = run [THEN conjunct2]
  note among = rest [THEN conjunct1, rule_format, OF mixed_values(1), of mixed]
  note full = rest [THEN conjunct2, THEN conjunct1, rule_format, OF mixed_values(1), of mixed]
  note general = rest [THEN conjunct2, THEN conjunct2, THEN conjunct2]
  note quiet = general [THEN conjunct1, rule_format, OF waiting_values(1), of emptyState]
  note joiners = general [THEN conjunct2, THEN conjunct1, rule_format]
  note reach = general [THEN conjunct2, THEN conjunct2, THEN conjunct2, rule_format,
      OF general [THEN conjunct2, THEN conjunct2, THEN conjunct1], of "take 2 waiting"]
  have five: "map countdownValues (firingsOf (nextTimer duel) (runTrace mixed started))
       = [[3], [2], [1], [0], []]"
    by (simp add: among mixed_values(2))
  show ?thesis
    by (intro conjI lookup_duel idle here len mixed_values(1) run [THEN conjunct1] five full
        mixed_placement waiting_values quiet [THEN conjunct1] quiet [THEN conjunct2]
        joiners [THEN conjunct1] joiners [THEN conjunct2] reach waiting_duel)
qed

text \<open>
  Claim C6 as stated fails where the player count reaches two through \<^verbatim>\<open>joinRoom\<close>: Bob
  joins the room of Alice by code, the room then has two players and no game started,
  and nothing starts: \<open>gameStarted\<close> stays false, no interval is installed, and the only
  event is \<^verbatim>\<open>roomJoined\<close> to Bob.
\<close>

theorem joinRoom_second_player_no_start:
  "lookupRoom lobby ''AB12'' = Some (0, lobbyRoom) \<and> length (players lobbyRoom) = 1
   \<and> lookupRoom (fst (joinRoom ''s2'' ''Bob'' ''AB12'' ''p2'' lobby)) ''AB12'' = Some (0, duelRoom)
   \<and> length (players duelRoom) = 2 \<and> \<not> gameStarted duelRoom
   \<and> timers (fst (joinRoom ''s2'' ''Bob'' ''AB12'' ''p2'' lobby)) = []
   \<and> snd (joinRoom ''s2'' ''Bob'' ''AB12'' ''p2'' lobby)
       = [Join ''s2'' ''AB12'', Emit (ToSocket ''s2'') (RoomJoined ''AB12'' ''p2'')]"
  by (simp add: lobby_def joinRoom_def createRoom_def emptyState_def lookupRoom_def
      lobbyRoom_def duelRoom_def alice_def bob_def Let_def)

section \<open>Room size\<close>

text \<open>
  Every turn other than a \<^verbatim>\<open>joinGame\<close> message keeps every room object at two players or
  fewer (\<open>step_small\<close>), so a run without \<^verbatim>\<open>joinGame\<close> does (\<open>runAll_small\<close>). A
  \<^verbatim>\<open>joinGame\<close> message keeps the bound too, unless it names a player id that is new to a
  room of two (\<open>joinGame_small_unless_third\<close>).
\<close>

lemma placePlayers_length: "length (placePlayers i ps) = length ps"
  by (induction ps arbitrary: i) auto

lemma checkGameOver_players: "players (fst (checkGameOver rc l r)) = players r"
  using checkGameOver_cases [of rc l r] by auto

lemma heapSmall_store: "heapSmall h \<Longrightarrow> roomSmall r \<Longrightarrow> heapSmall (h(a \<mapsto> r))"
  by (simp add: heapSmall_def)

lemma lookupRoom_small: "allSmall st \<Longrightarrow> lookupRoom st rc = Some (a, r) \<Longrightarrow> roomSmall r"
  using lookupRoomD [of st rc a r] by (auto simp: allSmall_def heapSmall_def)

lemma roomSmall_change:
  "roomSmall r \<Longrightarrow> map_of (players r) k = Some p
     \<Longrightarrow> roomSmall (r\<lparr>players := AList.update k p' (players r)\<rparr>)"
  by (simp add: roomSmall_def update_present_length)

lemma roomSmall_flag [simp]: "roomSmall (r\<lparr>gameStarted := g\<rparr>) = roomSmall r"
  by (simp add: roomSmall_def)

lemma roomSmall_over [simp]: "roomSmall (fst (checkGameOver rc l r)) = roomSmall r"
  by (simp add: roomSmall_def checkGameOver_players)

lemma createRoom_small: "allSmall st \<Longrightarrow> allSmall (fst (createRoom sid pname c i st))"
  by (simp add: createRoom_def Let_def allSmall_def heapSmall_store roomSmall_def)

lemma joinRoom_small:
  assumes "allSmall st" shows "allSmall (fst (joinRoom sid pname rc i st))"
proof (cases "lookupRoom st rc")
  case None
  with assms show ?thesis by (simp add: joinRoom_def)
next
  case (Some ar)
  obtain a r where ar: "ar = (a, r)" by (cases ar)
  have "\<not> 2 \<le> length (players r)
      \<Longrightarrow> roomSmall (r\<lparr>players := AList.update i (newPlayer i pname sid) (players r)\<rparr>)"
    using update_length_le [of i "newPlayer i pname sid" "players r"]
    by (simp add: roomSmall_def)
  with assms Some ar show ?thesis
    by (simp add: joinRoom_def allSmall_def heapSmall_store)
qed

lemma joinRandomRoom_small:
  "allSmall st \<Longrightarrow> allSmall (fst (joinRandomRoom sid pname c i st))"
  by (simp add: joinRandomRoom_def Let_def allSmall_def [symmetric] joinRoom_small
      split: option.splits)
    (simp add: allSmall_def heapSmall_store roomSmall_def)

lemma playerState_small:
  assumes "allSmall st" shows "allSmall (fst (playerState sid rc pid x y vx vy h d sh st))"
proof (cases "lookupRoom st rc")
  case None
  with assms show ?thesis by (simp add: playerState_def)
next
  case (Some ar)
  obtain a r where ar: "ar = (a, r)" by (cases ar)
  from assms Some ar have r: "roomSmall r" using lookupRoom_small by blast
  from r assms Some ar show ?thesis
    by (simp add: playerState_def Let_def allSmall_def heapSmall_store roomSmall_change
        split: option.splits)
qed

lemma swordSwing_small:
  assumes "allSmall st" shows "allSmall (fst (swordSwing sid rc pid hb st))"
proof (cases "lookupRoom st rc")
  case None
  with assms show ?thesis by (simp add: swordSwing_def)
next
  case (Some ar)
  obtain a r where ar: "ar = (a, r)" by (cases ar)
  from assms Some ar have r: "roomSmall r" using lookupRoom_small by blast
  from r assms Some ar show ?thesis
    by (simp add: swordSwing_def Let_def allSmall_def heapSmall_store roomSmall_change
        split: option.splits)
qed

lemma swordRelease_small:
  assumes "allSmall st" shows "allSmall (fst (swordRelease sid rc pid st))"
proof (cases "lookupRoom st rc")
  case None
  with assms show ?thesis by (simp add: swordRelease_def)
next
  case (Some ar)
  obtain a r where ar: "ar = (a, r)" by (cases ar)
  from assms Some ar have r: "roomSmall r" using lookupRoom_small by blast
  from r assms Some ar show ?thesis
    by (simp add: swordRelease_def Let_def allSmall_def heapSmall_store roomSmall_change
        split: option.splits)
qed

lemma playerRespawn_small:
  assumes "allSmall st" shows "allSmall (fst (playerRespawn sid rc pid st))"
proof (cases "lookupRoom st rc")
  case None
  with assms show ?thesis by (simp add: playerRespawn_def)
next
  case (Some ar)
  obtain a r where ar: "ar = (a, r)" by (cases ar)
  from assms Some ar have r: "roomSmall r" using lookupRoom_small by blast
  from r assms Some ar show ?thesis
    by (simp add: playerRespawn_def allSmall_def heapSmall_store roomSmall_change
        split: option.splits)
qed

lemma playerDied_small:
  assumes "allSmall st" shows "allSmall (fst (playerDied rc pid st))"
proof (cases "lookupRoom st rc")
  case None
  with assms show ?thesis by (simp add: playerDied_def)
next
  case (Some ar)
  obtain a r where ar: "ar = (a, r)" by (cases ar)
  from assms Some ar have r: "roomSmall r" using lookupRoom_small by blast
  from r assms Some ar show ?thesis
    by (simp add: playerDied_def Let_def case_prod_beta allSmall_def heapSmall_store
        roomSmall_change split: option.splits)
qed

lemma playerHit_small:
  assumes "allSmall st" shows "allSmall (fst (playerHit rc targetId attackerId st))"
proof (cases "lookupRoom st rc")
  case None
  with assms show ?thesis by (simp add: playerHit_def)
next
  case (Some ar)
  obtain a r where ar: "ar = (a, r)" by (cases ar)
  from assms Some ar have r: "roomSmall r" using lookupRoom_small by blast
  from r assms Some ar show ?thesis
    by (simp add: playerHit_def Let_def case_prod_beta allSmall_def heapSmall_store
        roomSmall_change split: option.splits)
qed

lemma disconnect_small:
  assumes "allSmall st" shows "allSmall (fst (disconnect sid st))"
proof (cases "map_of (bindings st) sid")
  case None
  with assms show ?thesis by (simp add: disconnect_def)
next
  case (Some b)
  show ?thesis
  proof (cases "lookupRoom st (roomCode b)")
    case None
    with assms Some show ?thesis by (simp add: disconnect_def allSmall_def)
  next
    case (Some ar)
    obtain a r where ar: "ar = (a, r)" by (cases ar)
    from assms Some ar have "roomSmall r" using lookupRoom_small by blast
    then have "roomSmall (r\<lparr>players := AList.delete (playerId b) (players r)\<rparr>)"
      using length_delete_le [of "playerId b" "players r"] by (simp add: roomSmall_def)
    with assms Some \<open>map_of (bindings st) sid = Some b\<close> ar show ?thesis
      by (simp add: disconnect_def Let_def allSmall_def heapSmall_store)
  qed
qed

lemma countdownTick_small:
  assumes "allSmall st" shows "allSmall (fst (countdownTick t st))"
proof (cases "map_of (timers st) t")
  case None
  with assms show ?thesis by (simp add: countdownTick_def)
next
  case (Some ac)
  obtain a c where ac: "ac = (a, c)" by (cases ac)
  show ?thesis
  proof (cases "heap st a")
    case None
    with assms Some ac show ?thesis by (simp add: countdownTick_def)
  next
    case (Some r)
    with assms have "roomSmall r"
      by (simp add: allSmall_def heapSmall_def)
    then have "roomSmall (r\<lparr>players := placePlayers 0 (players r)\<rparr>)"
      by (simp add: roomSmall_def placePlayers_length)
    with assms Some \<open>map_of (timers st) t = Some ac\<close> ac show ?thesis
      by (simp add: countdownTick_def Let_def allSmall_def heapSmall_store)
  qed
qed

lemma handle_small:
  assumes "allSmall st" and "\<not> isJoinGame (FromSocket sid m)"
  shows "allSmall (fst (handle c i sid m st))"
  using assms
  by (cases m)
    (simp_all add: createRoom_small joinRandomRoom_small joinRoom_small playerState_small
      swordSwing_small swordRelease_small playerHit_small playerDied_small
      playerRespawn_small disconnect_small playerUpdate_def)

lemma step_small:
  assumes "allSmall st" and "\<not> isJoinGame inp"
  shows "allSmall (fst (step c i inp st))"
  using assms by (cases inp) (simp_all add: handle_small countdownTick_small)

lemma joinGame_known_small:
  assumes "allSmall st" and "lookupRoom st rc = Some (a, r)" and "map_of (players r) pid = Some p"
  shows "allSmall (fst (joinGame sid rc pid pname st))"
proof -
  from assms have r: "roomSmall r" using lookupRoom_small by blast
  with assms show ?thesis
    by (simp add: joinGame_def Let_def startGame_def allSmall_def heapSmall_store)
qed

lemma allSmall_empty: "allSmall emptyState"
  by (simp add: allSmall_def heapSmall_def emptyState_def)

lemma runAll_small: "noJoinGame ins \<Longrightarrow> allSmall st \<Longrightarrow> allSmall (runAll ins st)"
  by (induction ins arbitrary: st) (auto simp: noJoinGame_def step_small)

lemma joinGame_small_unless_third:
  assumes "allSmall st"
  shows "allSmall (fst (joinGame sid rc pid pname st))
         \<or> (\<exists>a r. lookupRoom st rc = Some (a, r) \<and> map_of (players r) pid = None
               \<and> length (players r) = 2)"
proof (cases "lookupRoom st rc")
  case None
  with assms show ?thesis by (simp add: joinGame_def)
next
  case (Some ar)
  obtain a r where ar: "ar = (a, r)" by (cases ar)
  from assms Some ar have r: "roomSmall r" using lookupRoom_small by blast
  show ?thesis
  proof (cases "map_of (players r) pid")
    case (Some p)
    with assms \<open>lookupRoom st rc = Some ar\<close> ar show ?thesis
      using joinGame_known_small by blast
  next
    case None
    show ?thesis
    proof (cases "length (players r) = 2")
      case True
      with None \<open>lookupRoom st rc = Some ar\<close> ar show ?thesis by simp
    next
      case False
      with r have "length (players r) < 2"
        by (simp add: roomSmall_def)
      then have "roomSmall (r\<lparr>players := AList.update pid (newPlayer pid pname sid) (players r)\<rparr>)"
        using update_length_le [of pid "newPlayer pid pname sid" "players r"]
        by (simp add: roomSmall_def)
      with assms None \<open>lookupRoom st rc = Some ar\<close> ar have "allSmall (fst (joinGame sid rc pid pname st))"
        by (simp add: joinGame_def Let_def startGame_def allSmall_def heapSmall_store)
      then show ?thesis by simp
    qed
  qed
qed

text \<open>
  Claim C1 fails on the code. The room of Alice and Bob holds two players; a \<^verbatim>\<open>joinGame\<close>
  message for that room with a third player id is accepted, and the room then holds
  three players. (\<^verbatim>\<open>joinRoom\<close> refuses a room of two with \<^verbatim>\<open>roomFull\<close>; \<^verbatim>\<open>joinGame\<close> has no
  such check.)
\<close>

theorem joinGame_third_player:
  "lookupRoom duel ''AB12'' = Some (0, duelRoom) \<and> length (players duelRoom) = 2
   \<and> map_option (\<lambda>(a, r). map fst (players r))
        (lookupRoom (fst (joinGame ''s3'' ''AB12'' ''p3'' ''Eve'' duel)) ''AB12'')
       = Some [''p1'', ''p2'', ''p3'']"
  by (simp add: duel_def lobby_def joinGame_def joinRoom_def createRoom_def emptyState_def
      lookupRoom_def duelRoom_def alice_def bob_def Let_def)

section \<open>Game over\<close>

text \<open>
  The check after a death emits \<^verbatim>\<open>gameOver\<close> only when exactly one player is living. Once
  at most one player of a room is living, a hit emits no \<^verbatim>\<open>gameOver\<close>
  (\<open>playerHit_after_gameOver\<close>), and a \<^verbatim>\<open>playerDied\<close> message emits one only for a player
  who is dead already (\<open>playerDied_gameOver_only_repeat\<close>).
\<close>

lemma survivors_count:
  "fst (survivors ps (n, l)) = n + length (filter (\<lambda>p. \<not> isDead p) ps)"
  by (induction ps arbitrary: n l) auto

lemma living_values: "living ps = length (filter (\<lambda>p. \<not> isDead p) (map snd ps))"
  by (induction ps) (auto simp: living_def)

lemma checkGameOver_loud:
  "snd (checkGameOver rc l r) \<noteq> [] \<Longrightarrow> living (players r) = 1"
  using survivors_count [of "map snd (players r)" 0 None]
  by (auto simp: checkGameOver_def living_values split: prod.splits option.splits if_splits)

lemma checkGameOver_quiet:
  "living (players r) \<noteq> 1 \<Longrightarrow> checkGameOver rc l r = (r, [])"
  using checkGameOver_loud [of rc l r] checkGameOver_cases [of rc l r] by auto

lemma living_kill:
  "map_of ps k = Some p \<Longrightarrow> \<not> isDead p \<Longrightarrow> isDead p'
     \<Longrightarrow> Suc (living (AList.update k p' ps)) = living ps"
  by (induction ps) (auto simp: living_def)

lemma living_same:
  "map_of ps k = Some p \<Longrightarrow> isDead p \<Longrightarrow> isDead p'
     \<Longrightarrow> living (AList.update k p' ps) = living ps"
  by (induction ps) (auto simp: living_def)

lemma living_hurt:
  "map_of ps k = Some p \<Longrightarrow> isDead p' = isDead p
     \<Longrightarrow> living (AList.update k p' ps) = living ps"
  by (induction ps) (auto simp: living_def)

lemma playerHit_after_gameOver:
  assumes "lookupRoom st rc = Some (a, r)" and "living (players r) \<le> 1"
  shows "list_all (\<lambda>e. \<not> isGameOver e) (snd (playerHit rc targetId attackerId st))"
proof (cases "map_of (players r) targetId")
  case None
  with assms show ?thesis by (simp add: playerHit_def)
next
  case (Some t)
  show ?thesis
  proof (cases "isDead t \<or> map_of (players r) attackerId = None")
    case True
    with assms Some show ?thesis by (auto simp: playerHit_def split: option.splits)
  next
    case False
    then obtain k where att: "map_of (players r) attackerId = Some k" and alive: "\<not> isDead t"
      by auto
    let ?ps = "AList.update targetId (t\<lparr>health := 0, isDead := True\<rparr>) (players r)"
    from alive Some have "Suc (living ?ps) = living (players r)"
      by (simp add: living_kill)
    with assms(2) have "living ?ps \<noteq> 1"
      by simp
    then have quiet: "checkGameOver rc targetId (r\<lparr>players := ?ps\<rparr>) = (r\<lparr>players := ?ps\<rparr>, [])"
      by (simp add: checkGameOver_quiet)
    show ?thesis
    proof (cases "health t \<le> 15")
      case True
      show ?thesis
        unfolding playerHit_kills [OF assms(1) Some att alive True] quiet
        by (simp add: isGameOver_def)
    next
      case False
      then have "15 < health t" by simp
      show ?thesis
        unfolding playerHit_hurts [OF assms(1) Some att alive \<open>15 < health t\<close>]
        by (simp add: isGameOver_def)
    qed
  qed
qed

lemma playerDied_gameOver_only_repeat:
  assumes "lookupRoom st rc = Some (a, r)" and "living (players r) \<le> 1"
    and "snd (playerDied rc pid st) \<noteq> []"
  shows "\<exists>p. map_of (players r) pid = Some p \<and> isDead p"
proof (cases "map_of (players r) pid")
  case None
  with assms show ?thesis by (simp add: playerDied_def)
next
  case (Some p)
  let ?ps = "AList.update pid (p\<lparr>isDead := True\<rparr>) (players r)"
  show ?thesis
  proof (cases "isDead p")
    case True
    with Some show ?thesis by simp
  next
    case False
    with Some have "Suc (living ?ps) = living (players r)"
      by (simp add: living_kill)
    with assms(2) have "living ?ps \<noteq> 1"
      by simp
    then have "checkGameOver rc pid (r\<lparr>players := ?ps\<rparr>) = (r\<lparr>players := ?ps\<rparr>, [])"
      by (simp add: checkGameOver_quiet)
    with assms Some show ?thesis
      by (simp add: playerDied_def Let_def)
  qed
qed

text \<open>
  Claim C3 fails on the code. In the started game of Alice and Bob, a \<^verbatim>\<open>playerDied\<close>
  message for Bob emits \<^verbatim>\<open>gameOver\<close> (winner Alice, loser Bob); the same message once more
  emits the same \<^verbatim>\<open>gameOver\<close> a second time. (\<^verbatim>\<open>playerHit\<close> ignores a target that is
  already dead; \<^verbatim>\<open>playerDied\<close> does not look at the flag before it sets it.)
\<close>

theorem playerDied_repeats_gameOver:
  "snd (playerDied ''AB12'' ''p2'' arena) = [Emit (ToRoom ''AB12'') (GameOver ''p1'' ''p2'')]
   \<and> snd (playerDied ''AB12'' ''p2'' (fst (playerDied ''AB12'' ''p2'' arena)))
       = [Emit (ToRoom ''AB12'') (GameOver ''p1'' ''p2'')]"
  by code_simp

section \<open>Disconnect\<close>

lemma nameOrDefault_deleted: "nameOrDefault (AList.delete pid ps) pid = ''Player''"
  by (simp add: nameOrDefault_def delete_conv')

lemma disconnect_cleanup:
  assumes "map_of (bindings st) sid = Some b" and "lookupRoom st (roomCode b) = Some (a, r)"
  shows "heap (fst (disconnect sid st)) a
           = Some (r\<lparr>players := AList.delete (playerId b) (players r)\<rparr>)"
    and "map_of (bindings (fst (disconnect sid st))) sid = None"
    and "rooms (fst (disconnect sid st))
           = (if AList.delete (playerId b) (players r) = []
              then AList.delete (roomCode b) (rooms st) else rooms st)"
    and "snd (disconnect sid st)
           = [Emit (ToOthers sid (roomCode b)) (PlayerDisconnected (playerId b) ''Player'')]"
  using assms
  by (simp_all add: disconnect_def Let_def delete_conv' nameOrDefault_deleted)

text \<open>
  Claim C4 fails on the code in the name it promises. Alice, stored under the name
  Alice, disconnects from the room she shares with Bob: the \<^verbatim>\<open>playerDisconnected\<close> event
  carries her player id and the name "Player". The handler deletes the player from the
  room before it reads the name, so the default is what every disconnect sends
  (\<open>nameOrDefault_deleted\<close>).
\<close>

theorem disconnect_sends_default_name:
  "lookupRoom duel ''AB12'' = Some (0, duelRoom) \<and> map_of (players duelRoom) ''p1'' = Some alice
   \<and> name alice = ''Alice''
   \<and> snd (disconnect ''s1'' duel)
       = [Emit (ToOthers ''s1'' ''AB12'') (PlayerDisconnected ''p1'' ''Player'')]"
  by (simp add: duel_def lobby_def disconnect_def joinRoom_def createRoom_def emptyState_def
      lookupRoom_def duelRoom_def alice_def bob_def newPlayer_def nameOrDefault_def Let_def)

section \<open>Health\<close>

text \<open>
  Every handler but \<^verbatim>\<open>playerState\<close> keeps the health of every player of every room object
  within 0 and 100: new players have 100, a respawn sets 100, a hit subtracts 15 and stops
  at 0, and the other handlers leave the health alone.
\<close>

lemma healthy_newPlayer: "healthy (newPlayer pid pname sid)"
  by (simp add: healthy_def newPlayer_def)

lemma roomHealthy_insert:
  "roomHealthy r \<Longrightarrow> healthy p \<Longrightarrow> roomHealthy (r\<lparr>players := AList.update k p (players r)\<rparr>)"
  by (simp add: roomHealthy_def list_all_update)

lemma roomHealthy_remove:
  "roomHealthy r \<Longrightarrow> roomHealthy (r\<lparr>players := AList.delete k (players r)\<rparr>)"
  by (simp add: roomHealthy_def list_all_delete)

lemma roomHealthy_member:
  "roomHealthy r \<Longrightarrow> map_of (players r) k = Some p \<Longrightarrow> healthy p"
  using list_all_map_of [of "\<lambda>(k, p). healthy p" "players r" k p]
  by (simp add: roomHealthy_def)

lemma roomHealthy_flag [simp]: "roomHealthy (r\<lparr>gameStarted := g\<rparr>) = roomHealthy r"
  by (simp add: roomHealthy_def)

lemma placePlayers_healthy:
  "list_all (\<lambda>(k, p). healthy p) (placePlayers i ps) = list_all (\<lambda>(k, p). healthy p) ps"
  by (induction ps arbitrary: i) (auto simp: healthy_def)

lemma roomHealthy_placed:
  "roomHealthy (r\<lparr>players := placePlayers i (players r)\<rparr>) = roomHealthy r"
  by (simp add: roomHealthy_def placePlayers_healthy)

lemma checkGameOver_healthy: "roomHealthy (fst (checkGameOver rc l r)) = roomHealthy r"
  using checkGameOver_cases [of rc l r] by auto

lemma heapHealthy_store: "heapHealthy h \<Longrightarrow> roomHealthy r \<Longrightarrow> heapHealthy (h(a \<mapsto> r))"
  by (simp add: heapHealthy_def)

lemma heapHealthy_at: "heapHealthy h \<Longrightarrow> h a = Some r \<Longrightarrow> roomHealthy r"
  by (simp add: heapHealthy_def)

lemma lookupRoom_healthy: "allHealthy st \<Longrightarrow> lookupRoom st rc = Some (a, r) \<Longrightarrow> roomHealthy r"
  using lookupRoomD [of st rc a r] by (auto simp: allHealthy_def dest: heapHealthy_at)

lemma createRoom_healthy: "allHealthy st \<Longrightarrow> allHealthy (fst (createRoom sid pname c i st))"
  by (simp add: createRoom_def Let_def allHealthy_def heapHealthy_store roomHealthy_def
      healthy_newPlayer)

lemma joinRoom_healthy:
  assumes "allHealthy st" shows "allHealthy (fst (joinRoom sid pname rc i st))"
proof (cases "lookupRoom st rc")
  case None
  with assms show ?thesis by (simp add: joinRoom_def)
next
  case (Some ar)
  obtain a r where ar: "ar = (a, r)" by (cases ar)
  from assms Some ar have "roomHealthy r" using lookupRoom_healthy by blast
  then have "roomHealthy (r\<lparr>players := AList.update i (newPlayer i pname sid) (players r)\<rparr>)"
    by (simp add: roomHealthy_insert healthy_newPlayer)
  with assms Some ar show ?thesis
    by (simp add: joinRoom_def allHealthy_def heapHealthy_store)
qed

lemma joinRandomRoom_healthy:
  "allHealthy st \<Longrightarrow> allHealthy (fst (joinRandomRoom sid pname c i st))"
  by (simp add: joinRandomRoom_def Let_def allHealthy_def [symmetric] joinRoom_healthy
      split: option.splits)
    (simp add: allHealthy_def heapHealthy_store roomHealthy_def healthy_newPlayer)

lemma joinGame_healthy:
  assumes "allHealthy st" shows "allHealthy (fst (joinGame sid rc pid pname st))"
proof (cases "lookupRoom st rc")
  case None
  with assms show ?thesis by (simp add: joinGame_def)
next
  case (Some ar)
  obtain a r where ar: "ar = (a, r)" by (cases ar)
  from assms Some ar have r: "roomHealthy r" using lookupRoom_healthy by blast
  then have "roomHealthy (r\<lparr>players := AList.update pid (newPlayer pid pname sid) (players r)\<rparr>)"
    by (simp add: roomHealthy_insert healthy_newPlayer)
  with assms Some ar r show ?thesis
    by (simp add: joinGame_def Let_def startGame_def allHealthy_def heapHealthy_store)
qed

lemma swordSwing_healthy:
  assumes "allHealthy st" shows "allHealthy (fst (swordSwing sid rc pid hb st))"
proof (cases "lookupRoom st rc")
  case None
  with assms show ?thesis by (simp add: swordSwing_def)
next
  case (Some ar)
  obtain a r where ar: "ar = (a, r)" by (cases ar)
  from assms Some ar have r: "roomHealthy r" using lookupRoom_healthy by blast
  show ?thesis
  proof (cases "map_of (players r) pid")
    case None
    with assms Some ar show ?thesis by (simp add: swordSwing_def)
  next
    case (Some p)
    with r have "healthy p" using roomHealthy_member by blast
    then have "healthy (p\<lparr>sword := Some \<lparr>swordActive = True, isSwinging = True, swingAngle = Some 0\<rparr>,
                           swordHitbox := hb,
                           shield := Some \<lparr>shieldActive = False, shieldAngle = None\<rparr>\<rparr>)"
      by (simp add: healthy_def)
    from roomHealthy_insert [OF r this] assms Some \<open>lookupRoom st rc = Some ar\<close> ar
    show ?thesis
      by (simp add: swordSwing_def Let_def allHealthy_def heapHealthy_store)
  qed
qed

lemma swordRelease_healthy:
  assumes "allHealthy st" shows "allHealthy (fst (swordRelease sid rc pid st))"
proof (cases "lookupRoom st rc")
  case None
  with assms show ?thesis by (simp add: swordRelease_def)
next
  case (Some ar)
  obtain a r where ar: "ar = (a, r)" by (cases ar)
  from assms Some ar have r: "roomHealthy r" using lookupRoom_healthy by blast
  show ?thesis
  proof (cases "map_of (players r) pid")
    case None
    with assms Some ar show ?thesis by (simp add: swordRelease_def)
  next
    case (Some p)
    with r have "healthy p" using roomHealthy_member by blast
    then have "healthy (p\<lparr>sword := Some \<lparr>swordActive = False, isSwinging = False, swingAngle = None\<rparr>,
                           shield := Some \<lparr>shieldActive = True, shieldAngle = None\<rparr>\<rparr>)"
      by (simp add: healthy_def)
    from roomHealthy_insert [OF r this] assms Some \<open>lookupRoom st rc = Some ar\<close> ar
    show ?thesis
      by (simp add: swordRelease_def Let_def allHealthy_def heapHealthy_store)
  qed
qed

lemma playerRespawn_healthy:
  assumes "allHealthy st" shows "allHealthy (fst (playerRespawn sid rc pid st))"
proof (cases "lookupRoom st rc")
  case None
  with assms show ?thesis by (simp add: playerRespawn_def)
next
  case (Some ar)
  obtain a r where ar: "ar = (a, r)" by (cases ar)
  from assms Some ar have r: "roomHealthy r" using lookupRoom_healthy by blast
  show ?thesis
  proof (cases "map_of (players r) pid")
    case None
    with assms Some ar show ?thesis by (simp add: playerRespawn_def)
  next
    case (Some p)
    have "healthy (p\<lparr>health := 100, isDead := False\<rparr>)"
      by (simp add: healthy_def)
    from roomHealthy_insert [OF r this] assms Some \<open>lookupRoom st rc = Some ar\<close> ar
    show ?thesis
      by (simp add: playerRespawn_def allHealthy_def heapHealthy_store)
  qed
qed

lemma playerDied_healthy:
  assumes "allHealthy st" shows "allHealthy (fst (playerDied rc pid st))"
proof (cases "lookupRoom st rc")
  case None
  with assms show ?thesis by (simp add: playerDied_def)
next
  case (Some ar)
  obtain a r where ar: "ar = (a, r)" by (cases ar)
  from assms Some ar have r: "roomHealthy r" using lookupRoom_healthy by blast
  show ?thesis
  proof (cases "map_of (players r) pid")
    case None
    with assms Some ar show ?thesis by (simp add: playerDied_def)
  next
    case (Some p)
    with r have "healthy p" using roomHealthy_member by blast
    then have "healthy (p\<lparr>isDead := True\<rparr>)"
      by (simp add: healthy_def)
    from roomHealthy_insert [OF r this]
    have "roomHealthy (fst (checkGameOver rc pid
             (r\<lparr>players := AList.update pid (p\<lparr>isDead := True\<rparr>) (players r)\<rparr>)))"
      by (simp add: checkGameOver_healthy)
    with assms Some \<open>lookupRoom st rc = Some ar\<close> ar
    show ?thesis
      by (simp add: playerDied_def Let_def case_prod_beta allHealthy_def heapHealthy_store)
  qed
qed

lemma playerHit_healthy:
  assumes "allHealthy st" shows "allHealthy (fst (playerHit rc targetId attackerId st))"
proof (cases "lookupRoom st rc")
  case None
  with assms show ?thesis by (simp add: playerHit_def)
next
  case (Some ar)
  obtain a r where ar: "ar = (a, r)" by (cases ar)
  from assms Some ar have r: "roomHealthy r" using lookupRoom_healthy by blast
  show ?thesis
  proof (cases "map_of (players r) targetId")
    case None
    with assms Some ar show ?thesis by (simp add: playerHit_def)
  next
    case (Some t)
    with r have t: "0 \<le> health t \<and> health t \<le> 100"
      using roomHealthy_member [of r targetId t] by (simp add: healthy_def)
    from t have "jsMinus (health t) 15 = health t - 15"
      by (intro jsMinus_exact) arith
    with r t assms Some \<open>lookupRoom st rc = Some ar\<close> ar
    show ?thesis
      by (simp add: playerHit_def Let_def case_prod_beta allHealthy_def heapHealthy_store
          checkGameOver_healthy roomHealthy_insert healthy_def split: option.splits)
  qed
qed

lemma disconnect_healthy:
  assumes "allHealthy st" shows "allHealthy (fst (disconnect sid st))"
proof (cases "map_of (bindings st) sid")
  case None
  with assms show ?thesis by (simp add: disconnect_def)
next
  case (Some b)
  show ?thesis
  proof (cases "lookupRoom st (roomCode b)")
    case None
    with assms Some show ?thesis by (simp add: disconnect_def allHealthy_def)
  next
    case (Some ar)
    obtain a r where ar: "ar = (a, r)" by (cases ar)
    from assms Some ar have r: "roomHealthy r" using lookupRoom_healthy by blast
    from roomHealthy_remove [OF r] assms Some \<open>map_of (bindings st) sid = Some b\<close> ar
    show ?thesis
      by (simp add: disconnect_def Let_def allHealthy_def heapHealthy_store)
  qed
qed

lemma countdownTick_healthy:
  assumes "allHealthy st" shows "allHealthy (fst (countdownTick t st))"
proof (cases "map_of (timers st) t")
  case None
  with assms show ?thesis by (simp add: countdownTick_def)
next
  case (Some ac)
  obtain a c where ac: "ac = (a, c)" by (cases ac)
  show ?thesis
  proof (cases "heap st a")
    case None
    with assms Some ac show ?thesis by (simp add: countdownTick_def)
  next
    case (Some r)
    with assms have "roomHealthy r"
      by (auto simp: allHealthy_def dest: heapHealthy_at)
    then have "roomHealthy (r\<lparr>players := placePlayers 0 (players r)\<rparr>)"
      by (simp add: roomHealthy_placed)
    with assms Some \<open>map_of (timers st) t = Some ac\<close> ac show ?thesis
      by (simp add: countdownTick_def Let_def allHealthy_def heapHealthy_store)
  qed
qed

lemma handle_healthy:
  assumes "allHealthy st" and "\<not> isPlayerState (FromSocket sid m)"
  shows "allHealthy (fst (handle c i sid m st))"
  using assms
  by (cases m)
    (simp_all add: createRoom_healthy joinRandomRoom_healthy joinRoom_healthy joinGame_healthy
      swordSwing_healthy swordRelease_healthy playerHit_healthy playerDied_healthy
      playerRespawn_healthy disconnect_healthy playerUpdate_def)

lemma step_healthy:
  assumes "allHealthy st" and "\<not> isPlayerState inp"
  shows "allHealthy (fst (step c i inp st))"
  using assms by (cases inp) (simp_all add: handle_healthy countdownTick_healthy)

lemma runAll_healthy: "noReport ins \<Longrightarrow> allHealthy st \<Longrightarrow> allHealthy (runAll ins st)"
  by (induction ins arbitrary: st) (auto simp: noReport_def step_healthy)

lemma allHealthy_empty: "allHealthy emptyState"
  by (simp add: allHealthy_def heapHealthy_def emptyState_def)

lemma findPlayer_healthy:
  "allHealthy st \<Longrightarrow> findPlayer st rc pid = Some p \<Longrightarrow> 0 \<le> health p \<and> health p \<le> 100"
  using lookupRoom_healthy roomHealthy_member
  by (fastforce simp: findPlayer_def healthy_def split: option.splits)

lemma playerHit_damage:
  assumes "findPlayer st rc targetId = Some t" and "findPlayer st rc attackerId = Some k"
    and "\<not> isDead t"
  shows "\<exists>t'. findPlayer (fst (playerHit rc targetId attackerId st)) rc targetId = Some t'
           \<and> health t' = max 0 (jsMinus (health t) 15) \<and> 0 \<le> health t'
           \<and> (isDead t' \<longleftrightarrow> health t \<le> 15)"
proof -
  from assms(1) obtain a r where look: "lookupRoom st rc = Some (a, r)"
    and tgt: "map_of (players r) targetId = Some t"
    by (auto simp: findPlayer_def split: option.splits)
  from assms(2) look have att: "map_of (players r) attackerId = Some k"
    by (simp add: findPlayer_def)
  from look have reg: "map_of (rooms st) rc = Some a"
    using lookupRoomD by blast
  show ?thesis
  proof (cases "health t \<le> 15")
    case True
    let ?r1 = "r\<lparr>players := AList.update targetId (t\<lparr>health := 0, isDead := True\<rparr>) (players r)\<rparr>"
    have "players (fst (checkGameOver rc targetId ?r1)) = players ?r1"
      using checkGameOver_cases [of rc targetId ?r1] by auto
    then show ?thesis
      using True reg assms(3)
      unfolding playerHit_kills [OF look tgt att assms(3) True]
      by (simp add: findPlayer_def lookupRoom_def update_conv' hit_health)
  next
    case False
    then have hi: "15 < health t" by simp
    with jsMinus_pos [of "health t" 15] have "0 < jsMinus (health t) 15" by simp
    then show ?thesis
      using hi reg assms(3)
      unfolding playerHit_hurts [OF look tgt att assms(3) hi]
      by (simp add: findPlayer_def lookupRoom_def update_conv' hit_health)
  qed
qed

lemma playerState_stores:
  assumes "findPlayer st rc pid = Some p"
  shows "\<exists>p'. findPlayer (fst (playerState sid rc pid x y vx vy h d sh st)) rc pid = Some p'
           \<and> health p' = h \<and> isDead p' = d"
proof -
  from assms obtain a r where look: "lookupRoom st rc = Some (a, r)"
    and tgt: "map_of (players r) pid = Some p"
    by (auto simp: findPlayer_def split: option.splits)
  from look have reg: "map_of (rooms st) rc = Some a"
    using lookupRoomD by blast
  from look tgt reg show ?thesis
    by (simp add: playerState_def Let_def findPlayer_def lookupRoom_def update_conv')
qed

lemma playerRespawn_full:
  assumes "findPlayer st rc pid = Some p"
  shows "\<exists>p'. findPlayer (fst (playerRespawn sid rc pid st)) rc pid = Some p'
           \<and> health p' = 100 \<and> \<not> isDead p'"
proof -
  from assms obtain a r where look: "lookupRoom st rc = Some (a, r)"
    and tgt: "map_of (players r) pid = Some p"
    by (auto simp: findPlayer_def split: option.splits)
  from look have reg: "map_of (rooms st) rc = Some a"
    using lookupRoomD by blast
  from look tgt reg show ?thesis
    by (simp add: playerRespawn_def findPlayer_def lookupRoom_def update_conv')
qed

text \<open>
  Claim C2, amended. Along every run without a \<^verbatim>\<open>playerState\<close> message, from a state
  where the health of every player of every room object is within 0 and 100 (the empty
  server is one) it stays so: each such player has an integer health between 0 and 100.
  A new player starts at 100 and a respawn sets 100. A hit that is applied leaves the
  target at the maximum of 0 and the double subtraction of 15 from its health, never
  negative, and dead exactly when the health was at most 15; the subtraction is exact
  while the difference is below \<^verbatim>\<open>2^53\<close> in absolute value, so from health 10 the target
  ends at 0 with the death flag set. A \<^verbatim>\<open>playerState\<close> message for a player of the room
  stores the health and the death flag of the message, whatever they are.
\<close>

theorem health_in_range:
  "(noReport ins \<and> allHealthy st \<longrightarrow> allHealthy (runAll ins st))
   \<and> allHealthy emptyState
   \<and> (allHealthy st \<and> findPlayer st rc pid = Some p \<longrightarrow> 0 \<le> health p \<and> health p \<le> 100)
   \<and> health (newPlayer pid pname sid) = 100
   \<and> (findPlayer st rc pid = Some p
        \<longrightarrow> (\<exists>p'. findPlayer (fst (playerRespawn sid rc pid st)) rc pid = Some p'
               \<and> health p' = 100 \<and> \<not> isDead p'))
   \<and> (findPlayer st rc targetId = Some t \<and> findPlayer st rc attackerId = Some k \<and> \<not> isDead t
        \<longrightarrow> (\<exists>t'. findPlayer (fst (playerHit rc targetId attackerId st)) rc targetId = Some t'
               \<and> health t' = max 0 (jsMinus (health t) 15) \<and> 0 \<le> health t'
               \<and> (isDead t' \<longleftrightarrow> health t \<le> 15)
               \<and> (\<bar>health t - 15\<bar> < 9007199254740992
                    \<longrightarrow> health t' = max 0 (health t - 15))))
   \<and> (findPlayer st rc pid = Some p
        \<longrightarrow> (\<exists>p'. findPlayer (fst (playerState sid rc pid x y vx vy h d sh st)) rc pid = Some p'
               \<and> health p' = h \<and> isDead p' = d))"
proof (intro conjI impI)
  assume "noReport ins \<and> allHealthy st"
  then show "allHealthy (runAll ins st)"
    by (simp add: runAll_healthy)
next
  show "allHealthy emptyState"
    by (rule allHealthy_empty)
next
  assume "allHealthy st \<and> findPlayer st rc pid = Some p"
  then have "0 \<le> health p \<and> health p \<le> 100"
    using findPlayer_healthy by blast
  then show "0 \<le> health p" and "health p \<le> 100"
    by simp_all
next
  show "health (newPlayer pid pname sid) = 100"
    by (simp add: newPlayer_def)
next
  assume "findPlayer st rc pid = Some p"
  then show "\<exists>p'. findPlayer (fst (playerRespawn sid rc pid st)) rc pid = Some p'
               \<and> health p' = 100 \<and> \<not> isDead p'"
    by (rule playerRespawn_full)
next
  assume "findPlayer st rc targetId = Some t \<and> findPlayer st rc attackerId = Some k \<and> \<not> isDead t"
  then obtain t' where found: "findPlayer (fst (playerHit rc targetId attackerId st)) rc targetId = Some t'"
    and h: "health t' = max 0 (jsMinus (health t) 15)" and nn: "0 \<le> health t'"
    and dead: "isDead t' \<longleftrightarrow> health t \<le> 15"
    using playerHit_damage [of st rc targetId t attackerId k] by blast
  have exact: "\<bar>health t - 15\<bar> < 9007199254740992 \<longrightarrow> health t' = max 0 (health t - 15)"
    using h by (simp add: jsMinus_exact)
  show "\<exists>t'. findPlayer (fst (playerHit rc targetId attackerId st)) rc targetId = Some t'
               \<and> health t' = max 0 (jsMinus (health t) 15) \<and> 0 \<le> health t'
               \<and> (isDead t' \<longleftrightarrow> health t \<le> 15)
               \<and> (\<bar>health t - 15\<bar> < 9007199254740992
                    \<longrightarrow> health t' = max 0 (health t - 15))"
    by (rule exI [of _ t']) (intro conjI found h nn dead exact)
next
  assume "findPlayer st rc pid = Some p"
  then show "\<exists>p'. findPlayer (fst (playerState sid rc pid x y vx vy h d sh st)) rc pid = Some p'
               \<and> health p' = h \<and> isDead p' = d"
    by (rule playerState_stores)
qed

lemma bruised_target:
  "findPlayer bruised ''AB12'' ''p2'' = Some (bob\<lparr>posX := 750, posY := 300, health := 10\<rparr>)"
  "findPlayer bruised ''AB12'' ''p1'' = Some (alice\<lparr>posX := 250, posY := 300\<rparr>)"
  by code_simp+

lemma swollen_target:
  "findPlayer swollen ''AB12'' ''p2'' = Some swollenBob"
  "findPlayer swollen ''AB12'' ''p1'' = Some (alice\<lparr>posX := 250, posY := 300\<rparr>)"
  by code_simp+

theorem health_in_range_witness:
  "noReport script \<and> allHealthy emptyState \<and> allHealthy bruised
   \<and> findPlayer bruised ''AB12'' ''p2'' = Some (bob\<lparr>posX := 750, posY := 300, health := 10\<rparr>)
   \<and> findPlayer bruised ''AB12'' ''p1'' = Some (alice\<lparr>posX := 250, posY := 300\<rparr>)
   \<and> (\<exists>t'. findPlayer (fst (playerHit ''AB12'' ''p2'' ''p1'' bruised)) ''AB12'' ''p2'' = Some t'
         \<and> health t' = 0 \<and> isDead t')
   \<and> (\<exists>p'. findPlayer (fst (playerRespawn ''s2'' ''AB12'' ''p2'' bruised)) ''AB12'' ''p2'' = Some p'
         \<and> health p' = 100 \<and> \<not> isDead p')
   \<and> (\<exists>p'. findPlayer (fst (playerState ''s2'' ''AB12'' ''p2'' 0 0 0 0 100000000000000000 True None
                bruised)) ''AB12'' ''p2'' = Some p'
         \<and> health p' = 100000000000000000 \<and> isDead p' = True)
   \<and> findPlayer swollen ''AB12'' ''p2'' = Some swollenBob
   \<and> health swollenBob = 100000000000000000
   \<and> (\<exists>t'. findPlayer (fst (playerHit ''AB12'' ''p2'' ''p1'' swollen)) ''AB12'' ''p2'' = Some t'
         \<and> health t' = 99999999999999984 \<and> \<not> isDead t')"
proof -
  have quiet: "noReport script"
    by code_simp
  have target: "findPlayer bruised ''AB12'' ''p2''
      = Some (bob\<lparr>posX := 750, posY := 300, health := 10\<rparr>)"
    and attacker: "findPlayer bruised ''AB12'' ''p1'' = Some (alice\<lparr>posX := 250, posY := 300\<rparr>)"
    by (rule bruised_target)+
  have alive: "\<not> isDead (bob\<lparr>posX := 750, posY := 300, health := 10\<rparr>)"
    by (simp add: bob_def newPlayer_def)
  note inv = health_in_range [where ins = script and st = emptyState]
  from inv have base: "allHealthy emptyState"
    by (rule conjunct2 [THEN conjunct1])
  from inv quiet base have reach: "allHealthy bruised"
    by (simp add: bruised_def)
  note at = health_in_range [where st = bruised and rc = "''AB12''" and targetId = "''p2''"
      and attackerId = "''p1''" and pid = "''p2''" and sid = "''s2''"
      and t = "bob\<lparr>posX := 750, posY := 300, health := 10\<rparr>"
      and p = "bob\<lparr>posX := 750, posY := 300, health := 10\<rparr>"
      and k = "alice\<lparr>posX := 250, posY := 300\<rparr>"
      and x = 0 and y = 0 and vx = 0 and vy = 0 and h = 100000000000000000 and d = True
      and sh = None]
  note rest = at [THEN conjunct2, THEN conjunct2, THEN conjunct2, THEN conjunct2]
  note respawn = rest [THEN conjunct1, rule_format, OF target]
  note hit = rest [THEN conjunct2, THEN conjunct1, rule_format, OF conjI, OF target conjI,
      OF attacker alive]
  note report = rest [THEN conjunct2, THEN conjunct2, rule_format, OF target]
  from hit obtain t' where
    "findPlayer (fst (playerHit ''AB12'' ''p2'' ''p1'' bruised)) ''AB12'' ''p2'' = Some t'"
    and "isDead t' \<longleftrightarrow> health (bob\<lparr>posX := 750, posY := 300, health := 10\<rparr>) \<le> 15"
    and "\<bar>health (bob\<lparr>posX := 750, posY := 300, health := 10\<rparr>) - 15\<bar> < 9007199254740992
           \<longrightarrow> health t' = max 0 (health (bob\<lparr>posX := 750, posY := 300, health := 10\<rparr>) - 15)"
    by (elim exE conjE)
  then have "findPlayer (fst (playerHit ''AB12'' ''p2'' ''p1'' bruised)) ''AB12'' ''p2'' = Some t'
         \<and> health t' = 0 \<and> isDead t'"
    by simp
  then have last: "\<exists>t'. findPlayer (fst (playerHit ''AB12'' ''p2'' ''p1'' bruised)) ''AB12'' ''p2'' = Some t'
         \<and> health t' = 0 \<and> isDead t'"
    by (rule exI)
  have big: "health swollenBob = 100000000000000000" and alive2: "\<not> isDead swollenBob"
    by (simp_all add: swollenBob_def bob_def newPlayer_def)
  note hit2 = health_in_range [where st = swollen and rc = "''AB12''" and targetId = "''p2''"
      and attackerId = "''p1''", THEN conjunct2, THEN conjunct2, THEN conjunct2,
      THEN conjunct2, THEN conjunct2, THEN conjunct1, rule_format, OF conjI,
      OF swollen_target(1) conjI, OF swollen_target(2) alive2]
  from hit2 obtain t2 where
    "findPlayer (fst (playerHit ''AB12'' ''p2'' ''p1'' swollen)) ''AB12'' ''p2'' = Some t2"
    and "health t2 = max 0 (jsMinus (health swollenBob) 15)"
    and "isDead t2 \<longleftrightarrow> health swollenBob \<le> 15"
    by (elim exE conjE)
  then have "findPlayer (fst (playerHit ''AB12'' ''p2'' ''p1'' swollen)) ''AB12'' ''p2'' = Some t2
         \<and> health t2 = 99999999999999984 \<and> \<not> isDead t2"
    by (simp add: big jsMinus_large [THEN conjunct1])
  then have rounded: "\<exists>t'. findPlayer (fst (playerHit ''AB12'' ''p2'' ''p1'' swollen)) ''AB12'' ''p2'' = Some t'
         \<and> health t' = 99999999999999984 \<and> \<not> isDead t'"
    by (rule exI)
  show ?thesis
    by (intro conjI quiet base reach target attacker last respawn report swollen_target(1) big
        rounded)
qed

text \<open>
  Claim C2 as stated fails for \<^verbatim>\<open>playerState\<close>, which stores the health of the message
  as it comes (line 173): Alice at health 100 reports 150 and has health 150, reports -20
  and has health -20.
\<close>

theorem playerState_overwrites_health:
  "findPlayer duel ''AB12'' ''p1'' = Some alice \<and> health alice = 100
   \<and> map_option health
        (findPlayer (fst (playerState ''s1'' ''AB12'' ''p1'' 0 0 0 0 150 False None duel))
           ''AB12'' ''p1'') = Some 150
   \<and> map_option health
        (findPlayer (fst (playerState ''s1'' ''AB12'' ''p1'' 0 0 0 0 (- 20) False None duel))
           ''AB12'' ''p1'') = Some (- 20)"
  by (simp add: duel_def lobby_def playerState_def joinRoom_def createRoom_def emptyState_def
      lookupRoom_def findPlayer_def alice_def newPlayer_def Let_def)

end
